theory Spec2Isabelle
  imports
    Complex_Main
    "HOL-Library.Sublist"
    "HOL-Library.AList"
    "HOL-Library.Product_Lexorder"
    "HOL-Library.List_Lexorder"
    "HOL-Library.Char_ord"
    "HOL-Library.Multiset"
begin

section \<open>Python values used by the pipeline\<close>

text \<open>
  Strings are lists of characters and \<open>len\<close> is \<open>length\<close>. Exceptions are values of
  the type \<open>error\<close>; a function of the source that can raise returns \<open>error + 'a\<close>
  with \<open>Inl\<close> for the exception. A Python \<open>dict\<close> keeps insertion order, so it is an
  association list: \<open>map_of\<close> reads a key, \<open>AList.update\<close> writes one (in place when
  the key is present, at the end otherwise) and \<open>AList.delete\<close> removes one.
\<close>

datatype error =
    EmbedderFailure
  | CompletionFailure
  | VectorSearchFailure
  | ValueError
  | IndexError
  | AttributeError

text \<open>\<open>xs[:k]\<close> and \<open>xs[k:]\<close> for a Python integer \<open>k\<close>: a negative bound counts from the end.\<close>

definition py_slice_to :: "int \<Rightarrow> 'a list \<Rightarrow> 'a list" where
  "py_slice_to k xs =
     (if 0 \<le> k then take (nat k) xs else take (length xs - nat (- k)) xs)"

definition py_slice_from :: "int \<Rightarrow> 'a list \<Rightarrow> 'a list" where
  "py_slice_from k xs =
     (if 0 \<le> k then drop (nat k) xs else drop (length xs - nat (- k)) xs)"

text \<open>\<open>sorted(xs, key=f)\<close> is a stable sort; with \<open>reverse=True\<close> CPython reverses the
  list, sorts it stably and reverses the result, which keeps equal keys in input order.\<close>

definition py_sorted :: "('a \<Rightarrow> 'k::linorder) \<Rightarrow> 'a list \<Rightarrow> 'a list" where
  "py_sorted f xs = sort_key f xs"

definition py_sorted_reverse :: "('a \<Rightarrow> 'k::linorder) \<Rightarrow> 'a list \<Rightarrow> 'a list" where
  "py_sorted_reverse f xs = rev (sort_key f (rev xs))"

subsection \<open>Strings\<close>

text \<open>
  A character is a code point below 256. Of these, \<open>str.isspace\<close> holds for 9 to 13,
  28 to 32, 133 and 160, and \<open>str.lower\<close> changes the letters \<open>A\<close> to \<open>Z\<close> and the
  letters 192 to 222 other than the multiplication sign 215, each to the code point 32
  above it.
\<close>

definition py_isspace :: "char \<Rightarrow> bool" where
  "py_isspace c =
     (let n = (of_char c :: nat)
      in (9 \<le> n \<and> n \<le> 13) \<or> (28 \<le> n \<and> n \<le> 32) \<or> n = 133 \<or> n = 160)"

definition py_isdigit :: "char \<Rightarrow> bool" where
  "py_isdigit c = (let n = (of_char c :: nat) in 48 \<le> n \<and> n \<le> 57)"

definition lower_char :: "char \<Rightarrow> char" where
  "lower_char c =
     (case map_of (zip ''ABCDEFGHIJKLMNOPQRSTUVWXYZ'' ''abcdefghijklmnopqrstuvwxyz'') c of
        Some l \<Rightarrow> l
      | None \<Rightarrow>
          (let n = (of_char c :: nat)
           in if 192 \<le> n \<and> n \<le> 222 \<and> n \<noteq> 215 then char_of (n + 32) else c))"

definition py_lower :: "string \<Rightarrow> string" where
  "py_lower s = map lower_char s"

definition py_strip :: "string \<Rightarrow> string" where
  "py_strip s = rev (dropWhile py_isspace (rev (dropWhile py_isspace s)))"

text \<open>\<open>sep.join(parts)\<close>.\<close>

fun py_join :: "string \<Rightarrow> string list \<Rightarrow> string" where
  "py_join sep [] = []"
| "py_join sep [p] = p"
| "py_join sep (p # q # ps) = p @ sep @ py_join sep (q # ps)"

text \<open>\<open>s.split(c)\<close> for a one-character separator: empty fields are kept.\<close>

fun split_on :: "char \<Rightarrow> string \<Rightarrow> string list" where
  "split_on c [] = [[]]"
| "split_on c (x # xs) =
     (if x = c then [] # split_on c xs
      else (case split_on c xs of
              [] \<Rightarrow> [[x]]
            | w # ws \<Rightarrow> (x # w) # ws))"

text \<open>\<open>s.split()\<close>: the maximal runs of non-whitespace characters.\<close>

fun words_from :: "string \<Rightarrow> string \<Rightarrow> string list" where
  "words_from cur [] = (if cur = [] then [] else [cur])"
| "words_from cur (x # xs) =
     (if py_isspace x then (if cur = [] then words_from [] xs else cur # words_from [] xs)
      else words_from (cur @ [x]) xs)"

definition py_split :: "string \<Rightarrow> string list" where
  "py_split s = words_from [] s"

text \<open>\<open>sub in s\<close>, \<open>s.startswith(p)\<close> and \<open>s.count(c)\<close> for one character.\<close>

fun py_startswith :: "string \<Rightarrow> string \<Rightarrow> bool" where
  "py_startswith s [] = True"
| "py_startswith [] (p # ps) = False"
| "py_startswith (x # xs) (p # ps) = (x = p \<and> py_startswith xs ps)"

fun py_in :: "string \<Rightarrow> string \<Rightarrow> bool" where
  "py_in sub [] = (sub = [])"
| "py_in sub (x # xs) = (py_startswith (x # xs) sub \<or> py_in sub xs)"

definition py_count :: "string \<Rightarrow> char \<Rightarrow> nat" where
  "py_count s c = length (filter (\<lambda>x. x = c) s)"

text \<open>\<open>str(n)\<close> for an integer.\<close>

definition digit_char :: "nat \<Rightarrow> char" where
  "digit_char d = ''0123456789'' ! (d mod 10)"

fun str_nat :: "nat \<Rightarrow> string" where
  "str_nat n = (if n < 10 then [digit_char n] else str_nat (n div 10) @ [digit_char (n mod 10)])"

declare str_nat.simps [simp del]

definition str_int :: "int \<Rightarrow> string" where
  "str_int i = (if i < 0 then CHR ''-'' # str_nat (nat (- i)) else str_nat (nat i))"

section \<open>Conversation history (app/utils/conversation.py)\<close>

record ConversationMessage =
  role :: string
  content :: string
  timestamp :: real

record ConversationHistory =
  messages :: "ConversationMessage list"
  max_tokens :: int

text \<open>
  The backward loop of \<open>_trim_history\<close>: \<open>for i in range(len - 1, -1, -1)\<close>. The
  counter is \<open>i + 1\<close>; the loop leaves \<open>keep_from_index\<close> at its initial value
  \<open>len(self.messages)\<close> when it ends without \<open>break\<close>.
\<close>

fun scan_backwards :: "ConversationMessage list \<Rightarrow> int \<Rightarrow> nat \<Rightarrow> int \<Rightarrow> nat" where
  "scan_backwards msgs chars_limit 0 cumulative_chars = length msgs"
| "scan_backwards msgs chars_limit (Suc i) cumulative_chars =
     (let msg_chars = int (length (content (msgs ! i))) in
      if cumulative_chars + msg_chars > chars_limit then i + 1
      else scan_backwards msgs chars_limit i (cumulative_chars + msg_chars))"

definition trim_history :: "ConversationHistory \<Rightarrow> ConversationHistory" where
  "trim_history h =
     (if messages h = [] then h
      else
        let total_chars = (\<Sum>m\<leftarrow>messages h. int (length (content m)));
            estimated_tokens = (of_int total_chars :: real) / 4
        in
          if estimated_tokens \<le> of_int (max_tokens h) then h
          else
            let chars_limit = max_tokens h * 4;
                keep_from_index =
                  int (scan_backwards (messages h) chars_limit (length (messages h)) 0);
                keep_from_index = min keep_from_index (int (length (messages h)) - 2)
            in
              if keep_from_index > 0
              then h\<lparr>messages := py_slice_from keep_from_index (messages h)\<rparr>
              else h)"

definition add_message :: "ConversationHistory \<Rightarrow> string \<Rightarrow> string \<Rightarrow> real \<Rightarrow> ConversationHistory" where
  "add_message h r c now =
     trim_history (h\<lparr>messages := messages h @ [\<lparr>role = r, content = c, timestamp = now\<rparr>]\<rparr>)"

text \<open>\<open>get_messages\<close>: the (role, content) pairs in order.\<close>

definition get_messages :: "ConversationHistory \<Rightarrow> (string \<times> string) list" where
  "get_messages h = map (\<lambda>m. (role m, content m)) (messages h)"

section \<open>Caches (app/utils/cache.py)\<close>

text \<open>
  The three cache classes have the same fields. Time is the reading of \<open>time.time()\<close>,
  passed in as \<open>now\<close>. \<open>hashlib.md5(...).hexdigest()\<close> is a parameter \<open>md5\<close>.
\<close>

record 'v CacheEntry =
  val :: 'v
  created_at :: real
  entry_ttl :: int
  hit_count :: nat

record 'v Cache =
  cache :: "(string \<times> 'v CacheEntry) list"
  max_size :: int
  ttl :: int
  hits :: nat
  misses :: nat

definition new_entry :: "'v \<Rightarrow> int \<Rightarrow> real \<Rightarrow> 'v CacheEntry" where
  "new_entry v t now = \<lparr>val = v, created_at = now, entry_ttl = t, hit_count = 0\<rparr>"

definition is_expired :: "'v CacheEntry \<Rightarrow> real \<Rightarrow> bool" where
  "is_expired e now = (now - created_at e > of_int (entry_ttl e))"

definition increment_hits :: "'v CacheEntry \<Rightarrow> 'v CacheEntry" where
  "increment_hits e = e\<lparr>hit_count := hit_count e + 1\<rparr>"

text \<open>The body shared by the three \<open>get\<close> methods, for a key already generated.\<close>

definition cache_get :: "'v Cache \<Rightarrow> string \<Rightarrow> real \<Rightarrow> 'v option \<times> 'v Cache" where
  "cache_get c key now =
     (case map_of (cache c) key of
        Some entry \<Rightarrow>
          if \<not> is_expired entry now
          then (Some (val entry),
                c\<lparr>cache := AList.update key (increment_hits entry) (cache c),
                  hits := hits c + 1\<rparr>)
          else (None, c\<lparr>cache := AList.delete key (cache c), misses := misses c + 1\<rparr>)
      | None \<Rightarrow> (None, c\<lparr>misses := misses c + 1\<rparr>))"

text \<open>\<open>for key in sorted_keys[:num_to_remove]: del self.cache[key]\<close>.\<close>

fun del_keys :: "string list \<Rightarrow> (string \<times> 'v) list \<Rightarrow> (string \<times> 'v) list" where
  "del_keys [] d = d"
| "del_keys (k # ks) d = del_keys ks (AList.delete k d)"

definition created_of :: "(string \<times> 'v CacheEntry) list \<Rightarrow> string \<Rightarrow> real" where
  "created_of d k = (case map_of d k of Some e \<Rightarrow> created_at e | None \<Rightarrow> 0)"

definition hit_count_of :: "(string \<times> 'v CacheEntry) list \<Rightarrow> string \<Rightarrow> nat" where
  "hit_count_of d k = (case map_of d k of Some e \<Rightarrow> hit_count e | None \<Rightarrow> 0)"

definition evict_oldest :: "'v Cache \<Rightarrow> 'v Cache" where
  "evict_oldest c =
     (let num_to_remove = max 1 (max_size c div 10);
          sorted_keys = py_sorted (created_of (cache c)) (map fst (cache c))
      in c\<lparr>cache := del_keys (py_slice_to num_to_remove sorted_keys) (cache c)\<rparr>)"

definition evict_lru :: "'v Cache \<Rightarrow> 'v Cache" where
  "evict_lru c =
     (let num_to_remove = max 1 (max_size c div 10);
          sorted_keys =
            py_sorted (\<lambda>k. (hit_count_of (cache c) k, created_of (cache c) k)) (map fst (cache c))
      in c\<lparr>cache := del_keys (py_slice_to num_to_remove sorted_keys) (cache c)\<rparr>)"

subsection \<open>EmbeddingCache\<close>

definition EmbeddingCache_generate_key :: "(string \<Rightarrow> string) \<Rightarrow> string \<Rightarrow> string" where
  "EmbeddingCache_generate_key md5 text = md5 (py_strip (py_lower text))"

definition EmbeddingCache_get ::
  "(string \<Rightarrow> string) \<Rightarrow> real list Cache \<Rightarrow> string \<Rightarrow> real \<Rightarrow> real list option \<times> real list Cache" where
  "EmbeddingCache_get md5 c text now = cache_get c (EmbeddingCache_generate_key md5 text) now"

definition EmbeddingCache_set ::
  "(string \<Rightarrow> string) \<Rightarrow> real list Cache \<Rightarrow> string \<Rightarrow> real list \<Rightarrow> real \<Rightarrow> real list Cache" where
  "EmbeddingCache_set md5 c text embedding now =
     (let key = EmbeddingCache_generate_key md5 text;
          c1 = (if int (length (cache c)) \<ge> max_size c then evict_oldest c else c)
      in c1\<lparr>cache := AList.update key (new_entry embedding (ttl c1) now) (cache c1)\<rparr>)"

subsection \<open>QueryResponseCache\<close>

text \<open>\<open>ticker.lower() if ticker else ""\<close> and \<open>sorted(doc_types) if doc_types else []\<close>:
  \<open>None\<close> and the empty value are both false.\<close>

definition QueryResponseCache_generate_key ::
  "(string \<Rightarrow> string) \<Rightarrow> string \<Rightarrow> string option \<Rightarrow> string list option \<Rightarrow> int \<Rightarrow> string" where
  "QueryResponseCache_generate_key md5 q tk dts k =
     (let query_normalized = py_strip (py_lower q);
          ticker_normalized = (case tk of None \<Rightarrow> [] | Some t \<Rightarrow> if t \<noteq> [] then py_lower t else []);
          doc_types_normalized = (case dts of None \<Rightarrow> [] | Some ts \<Rightarrow> if ts \<noteq> [] then sort ts else []);
          key_parts = [query_normalized, ticker_normalized,
                       py_join '','' doc_types_normalized, str_int k];
          key_string = py_join ''|'' key_parts
      in md5 key_string)"

definition QueryResponseCache_get ::
  "(string \<Rightarrow> string) \<Rightarrow> 'v Cache \<Rightarrow> string \<Rightarrow> string option \<Rightarrow> string list option \<Rightarrow> int \<Rightarrow> real
     \<Rightarrow> 'v option \<times> 'v Cache" where
  "QueryResponseCache_get md5 c q tk dts k now =
     cache_get c (QueryResponseCache_generate_key md5 q tk dts k) now"

definition QueryResponseCache_set ::
  "(string \<Rightarrow> string) \<Rightarrow> 'v Cache \<Rightarrow> string \<Rightarrow> 'v \<Rightarrow> string option \<Rightarrow> string list option \<Rightarrow> int \<Rightarrow> real
     \<Rightarrow> 'v Cache" where
  "QueryResponseCache_set md5 c q response tk dts k now =
     (let key = QueryResponseCache_generate_key md5 q tk dts k;
          c1 = (if int (length (cache c)) \<ge> max_size c then evict_lru c else c)
      in c1\<lparr>cache := AList.update key (new_entry response (ttl c1) now) (cache c1)\<rparr>)"

subsection \<open>DocumentCache\<close>

definition DocumentCache_generate_key ::
  "(string \<Rightarrow> string) \<Rightarrow> string \<Rightarrow> string option \<Rightarrow> string list option \<Rightarrow> string" where
  "DocumentCache_generate_key md5 q tk dts =
     (let query_normalized = py_strip (py_lower q);
          ticker_normalized = (case tk of None \<Rightarrow> [] | Some t \<Rightarrow> if t \<noteq> [] then py_lower t else []);
          doc_types_normalized = (case dts of None \<Rightarrow> [] | Some ts \<Rightarrow> if ts \<noteq> [] then sort ts else []);
          key_string = query_normalized @ ''|'' @ ticker_normalized @ ''|''
                         @ py_join '','' doc_types_normalized
      in md5 key_string)"

definition DocumentCache_get ::
  "(string \<Rightarrow> string) \<Rightarrow> 'v Cache \<Rightarrow> string \<Rightarrow> string option \<Rightarrow> string list option \<Rightarrow> real
     \<Rightarrow> 'v option \<times> 'v Cache" where
  "DocumentCache_get md5 c q tk dts now =
     cache_get c (DocumentCache_generate_key md5 q tk dts) now"

definition DocumentCache_set ::
  "(string \<Rightarrow> string) \<Rightarrow> 'v Cache \<Rightarrow> string \<Rightarrow> 'v \<Rightarrow> string option \<Rightarrow> string list option \<Rightarrow> real
     \<Rightarrow> 'v Cache" where
  "DocumentCache_set md5 c q documents tk dts now =
     (let key = DocumentCache_generate_key md5 q tk dts;
          c1 = (if int (length (cache c)) \<ge> max_size c then evict_oldest c else c)
      in c1\<lparr>cache := AList.update key (new_entry documents (ttl c1) now) (cache c1)\<rparr>)"

subsection \<open>Sequences of cache operations\<close>

text \<open>A sequence of \<open>get\<close> and \<open>set\<close> calls on one cache, applied from left to right.\<close>

datatype embedding_op =
    EmbGet string real
  | EmbSet string "real list" real

fun EmbeddingCache_run ::
  "(string \<Rightarrow> string) \<Rightarrow> real list Cache \<Rightarrow> embedding_op list \<Rightarrow> real list Cache" where
  "EmbeddingCache_run md5 c [] = c"
| "EmbeddingCache_run md5 c (EmbGet text now # ops) =
     EmbeddingCache_run md5 (snd (EmbeddingCache_get md5 c text now)) ops"
| "EmbeddingCache_run md5 c (EmbSet text embedding now # ops) =
     EmbeddingCache_run md5 (EmbeddingCache_set md5 c text embedding now) ops"

datatype 'v response_op =
    RespGet string "string option" "string list option" int real
  | RespSet string 'v "string option" "string list option" int real

fun QueryResponseCache_run ::
  "(string \<Rightarrow> string) \<Rightarrow> 'v Cache \<Rightarrow> 'v response_op list \<Rightarrow> 'v Cache" where
  "QueryResponseCache_run md5 c [] = c"
| "QueryResponseCache_run md5 c (RespGet q tk dts k now # ops) =
     QueryResponseCache_run md5 (snd (QueryResponseCache_get md5 c q tk dts k now)) ops"
| "QueryResponseCache_run md5 c (RespSet q response tk dts k now # ops) =
     QueryResponseCache_run md5 (QueryResponseCache_set md5 c q response tk dts k now) ops"

datatype 'v document_op =
    DocGet string "string option" "string list option" real
  | DocSet string 'v "string option" "string list option" real

fun DocumentCache_run ::
  "(string \<Rightarrow> string) \<Rightarrow> 'v Cache \<Rightarrow> 'v document_op list \<Rightarrow> 'v Cache" where
  "DocumentCache_run md5 c [] = c"
| "DocumentCache_run md5 c (DocGet q tk dts now # ops) =
     DocumentCache_run md5 (snd (DocumentCache_get md5 c q tk dts now)) ops"
| "DocumentCache_run md5 c (DocSet q documents tk dts now # ops) =
     DocumentCache_run md5 (DocumentCache_set md5 c q documents tk dts now) ops"

section \<open>Documents\<close>

text \<open>
  A LangChain \<open>Document\<close>: the text and the metadata dictionary. The keys the pipeline
  reads are fields; an absent key is \<open>None\<close>.
\<close>

record Metadata =
  meta_filename :: "string option"
  meta_chunk_id :: "string option"
  meta_doc_type :: "string option"
  meta_ticker :: "string option"
  meta_similarity_score :: "real option"

record Document =
  page_content :: string
  metadata :: Metadata

section \<open>Citation tracker (app/utils/citations.py)\<close>

record CitationTracker =
  sources :: "Document list"
  source_map :: "(string \<times> nat) list"

definition new_tracker :: CitationTracker where
  "new_tracker = \<lparr>sources = [], source_map = []\<rparr>"

definition create_doc_key :: "Document \<Rightarrow> string" where
  "create_doc_key doc =
     (let fname = (case meta_filename (metadata doc) of None \<Rightarrow> ''unknown'' | Some f \<Rightarrow> f);
          cid = (case meta_chunk_id (metadata doc) of None \<Rightarrow> ''unknown'' | Some c \<Rightarrow> c)
      in fname @ ''_'' @ cid)"

definition add_document :: "CitationTracker \<Rightarrow> Document \<Rightarrow> nat \<times> CitationTracker" where
  "add_document t doc =
     (let doc_key = create_doc_key doc in
      case map_of (source_map t) doc_key of
        Some existing \<Rightarrow> (existing, t)
      | None \<Rightarrow>
          let source_id = length (sources t) + 1
          in (source_id,
              t\<lparr>sources := sources t @ [doc],
                source_map := AList.update doc_key source_id (source_map t)\<rparr>))"

definition source_block :: "nat \<Rightarrow> Document \<Rightarrow> string" where
  "source_block source_id doc = ''[Source '' @ str_nat source_id @ ''] '' @ page_content doc"

text \<open>The loop of \<open>format_context_with_citations\<close>, with \<open>context_parts\<close> and the tracker
  as its state.\<close>

fun format_loop ::
  "string list \<times> CitationTracker \<Rightarrow> Document list \<Rightarrow> string list \<times> CitationTracker" where
  "format_loop (context_parts, t) [] = (context_parts, t)"
| "format_loop (context_parts, t) (doc # docs) =
     (let (source_id, t1) = add_document t doc
      in format_loop (context_parts @ [source_block source_id doc], t1) docs)"

definition newline :: char where
  "newline = CHR 0x0A"

definition format_context_with_citations ::
  "CitationTracker \<Rightarrow> Document list \<Rightarrow> string \<times> CitationTracker" where
  "format_context_with_citations t documents =
     (let (context_parts, t1) = format_loop ([], t) documents
      in (py_join [newline, newline] context_parts, t1))"

text \<open>
  A sequence of \<open>add_document\<close> calls, with the identifiers returned. To state the
  numbering: the distinct elements of a list in the order of their first occurrence, the
  position of the first occurrence of an element, and the number of places at which a
  string occurs in another.
\<close>

fun add_documents :: "CitationTracker \<Rightarrow> Document list \<Rightarrow> nat list \<times> CitationTracker" where
  "add_documents t [] = ([], t)"
| "add_documents t (doc # docs) =
     (let (source_id, t1) = add_document t doc;
          (ids, t2) = add_documents t1 docs
      in (source_id # ids, t2))"

fun first_seen_from :: "'a list \<Rightarrow> 'a list \<Rightarrow> 'a list" where
  "first_seen_from seen [] = seen"
| "first_seen_from seen (x # xs) =
     first_seen_from (if x \<in> set seen then seen else seen @ [x]) xs"

definition first_seen :: "'a list \<Rightarrow> 'a list" where
  "first_seen xs = first_seen_from [] xs"

fun position :: "'a \<Rightarrow> 'a list \<Rightarrow> nat" where
  "position k [] = 0"
| "position k (x # xs) = (if x = k then 0 else Suc (position k xs))"

fun count_occurrences :: "string \<Rightarrow> string \<Rightarrow> nat" where
  "count_occurrences sub [] = 0"
| "count_occurrences sub (x # xs) =
     (if py_startswith (x # xs) sub then 1 else 0) + count_occurrences sub xs"

text \<open>The invariant of a tracker: the keys of its sources are pairwise different, and the
  map sends exactly these keys to their 1-based positions.\<close>

definition keys_of :: "CitationTracker \<Rightarrow> string list" where
  "keys_of t = map create_doc_key (sources t)"

definition tracker_ok :: "CitationTracker \<Rightarrow> bool" where
  "tracker_ok t \<longleftrightarrow>
     distinct (keys_of t)
     \<and> (\<forall>k. map_of (source_map t) k
              = (if k \<in> set (keys_of t) then Some (Suc (position k (keys_of t))) else None))"

record SourceInfo =
  src_source_id :: nat
  src_filename :: string
  src_doc_type :: string
  src_ticker :: "string option"
  src_similarity_score :: real
  src_chunk_id :: "string option"
  src_text_preview :: string

definition source_info :: "nat \<Rightarrow> Document \<Rightarrow> SourceInfo" where
  "source_info idx doc =
     (let text_preview = take 200 (page_content doc);
          text_preview = (if length (page_content doc) > 200 then text_preview @ ''...''
                          else text_preview)
      in \<lparr>src_source_id = idx,
          src_filename = (case meta_filename (metadata doc) of None \<Rightarrow> ''unknown'' | Some f \<Rightarrow> f),
          src_doc_type = (case meta_doc_type (metadata doc) of None \<Rightarrow> ''unknown'' | Some f \<Rightarrow> f),
          src_ticker = meta_ticker (metadata doc),
          src_similarity_score =
            (case meta_similarity_score (metadata doc) of None \<Rightarrow> 0 | Some x \<Rightarrow> x),
          src_chunk_id = meta_chunk_id (metadata doc),
          src_text_preview = text_preview\<rparr>)"

definition get_sources_list :: "CitationTracker \<Rightarrow> SourceInfo list" where
  "get_sources_list t = map (\<lambda>(i, doc). source_info (i + 1) doc) (enumerate 0 (sources t))"

section \<open>MMR reranker (app/rag/reranker.py)\<close>

subsection \<open>NumPy floating-point values\<close>

text \<open>
  A \<open>float64\<close> is a real number (one that the format represents) or one of the three
  non-finite values; the sign of a zero is not represented. The result of an operation on
  finite operands is the exact result rounded to the format, and the rounding is a
  parameter \<open>rnd\<close> of every operation that rounds: it may return any value, so a rounded
  result may overflow to an infinity or underflow to zero, and a theorem stated for every
  \<open>rnd\<close> holds for the rounding of IEEE 754. Only an exact result of zero is fixed: zero
  is representable and is returned as it is. The operations on non-finite operands round
  nothing and are those of IEEE 754: \<open>nan\<close> propagates, \<open>inf - inf\<close>, \<open>0 * inf\<close>,
  \<open>inf / inf\<close> and \<open>0 / 0\<close> are \<open>nan\<close>, a finite non-zero number divided by zero is an
  infinity (NumPy warns, it does not raise), and every comparison with \<open>nan\<close> is false.
\<close>

datatype npfloat = Fin real | PInf | NInf | NaN

type_synonym rounding = "real \<Rightarrow> npfloat"

definition rounded :: "rounding \<Rightarrow> real \<Rightarrow> npfloat" where
  "rounded rnd x = (if x = 0 then Fin 0 else rnd x)"

definition np_isfinite :: "npfloat \<Rightarrow> bool" where
  "np_isfinite a = (case a of Fin x \<Rightarrow> True | PInf \<Rightarrow> False | NInf \<Rightarrow> False | NaN \<Rightarrow> False)"

fun np_sign :: "npfloat \<Rightarrow> int" where
  "np_sign (Fin x) = (if x > 0 then 1 else if x < 0 then - 1 else 0)"
| "np_sign PInf = 1"
| "np_sign NInf = - 1"
| "np_sign NaN = 0"

fun np_mul :: "rounding \<Rightarrow> npfloat \<Rightarrow> npfloat \<Rightarrow> npfloat" where
  "np_mul rnd NaN b = NaN"
| "np_mul rnd a NaN = NaN"
| "np_mul rnd (Fin x) (Fin y) = rounded rnd (x * y)"
| "np_mul rnd a b =
     (if np_sign a * np_sign b = 0 then NaN
      else if np_sign a * np_sign b > 0 then PInf else NInf)"

fun np_add :: "rounding \<Rightarrow> npfloat \<Rightarrow> npfloat \<Rightarrow> npfloat" where
  "np_add rnd NaN b = NaN"
| "np_add rnd a NaN = NaN"
| "np_add rnd (Fin x) (Fin y) = rounded rnd (x + y)"
| "np_add rnd PInf NInf = NaN"
| "np_add rnd NInf PInf = NaN"
| "np_add rnd PInf b = PInf"
| "np_add rnd a PInf = PInf"
| "np_add rnd NInf b = NInf"
| "np_add rnd a NInf = NInf"

fun np_neg :: "npfloat \<Rightarrow> npfloat" where
  "np_neg (Fin x) = Fin (- x)"
| "np_neg PInf = NInf"
| "np_neg NInf = PInf"
| "np_neg NaN = NaN"

definition np_sub :: "rounding \<Rightarrow> npfloat \<Rightarrow> npfloat \<Rightarrow> npfloat" where
  "np_sub rnd a b = np_add rnd a (np_neg b)"

text \<open>\<open>a / b\<close> for a divisor that is not the negative zero (the divisors of the reranker
  are norms).\<close>

fun np_div :: "rounding \<Rightarrow> npfloat \<Rightarrow> npfloat \<Rightarrow> npfloat" where
  "np_div rnd NaN b = NaN"
| "np_div rnd a NaN = NaN"
| "np_div rnd (Fin x) (Fin y) =
     (if y \<noteq> 0 then rounded rnd (x / y)
      else if x = 0 then NaN
      else if x > 0 then PInf else NInf)"
| "np_div rnd (Fin x) b = Fin 0"
| "np_div rnd a (Fin y) =
     (if (0 \<le> y) = (a = PInf) then PInf else NInf)"
| "np_div rnd a b = NaN"

fun np_sqrt :: "rounding \<Rightarrow> npfloat \<Rightarrow> npfloat" where
  "np_sqrt rnd (Fin x) = (if x < 0 then NaN else rounded rnd (sqrt x))"
| "np_sqrt rnd PInf = PInf"
| "np_sqrt rnd NInf = NaN"
| "np_sqrt rnd NaN = NaN"

text \<open>\<open>a > b\<close> and \<open>a >= b\<close>: comparisons round nothing.\<close>

fun np_gt :: "npfloat \<Rightarrow> npfloat \<Rightarrow> bool" where
  "np_gt NaN b = False"
| "np_gt a NaN = False"
| "np_gt (Fin x) (Fin y) = (x > y)"
| "np_gt PInf PInf = False"
| "np_gt PInf b = True"
| "np_gt a PInf = False"
| "np_gt NInf b = False"
| "np_gt a NInf = True"

definition np_ge :: "npfloat \<Rightarrow> npfloat \<Rightarrow> bool" where
  "np_ge a b \<longleftrightarrow> a \<noteq> NaN \<and> b \<noteq> NaN \<and> \<not> np_gt b a"

text \<open>The values other than \<open>nan\<close> are linearly ordered: \<open>np_key\<close> maps them into the
  lexicographic order of pairs, the infinities below and above every real.\<close>

fun np_key :: "npfloat \<Rightarrow> int \<times> real" where
  "np_key (Fin x) = (0, x)"
| "np_key PInf = (1, 0)"
| "np_key NInf = (- 1, 0)"
| "np_key NaN = (2, 0)"

text \<open>\<open>np.max\<close> of a one-dimensional array: \<open>nan\<close> propagates; the empty array raises.\<close>

definition np_maximum :: "npfloat \<Rightarrow> npfloat \<Rightarrow> npfloat" where
  "np_maximum a b = (if a = NaN \<or> b = NaN then NaN else if np_gt b a then b else a)"

definition np_max :: "npfloat list \<Rightarrow> error + npfloat" where
  "np_max xs = (case xs of [] \<Rightarrow> Inl ValueError | x # rest \<Rightarrow> Inr (foldl np_maximum x rest))"

subsection \<open>Indexing and iteration that can raise\<close>

definition py_index :: "'a list \<Rightarrow> nat \<Rightarrow> error + 'a" where
  "py_index xs i = (if i < length xs then Inr (xs ! i) else Inl IndexError)"

text \<open>A comprehension or loop whose body can raise: the first exception ends it.\<close>

fun map_err :: "('a \<Rightarrow> error + 'b) \<Rightarrow> 'a list \<Rightarrow> error + 'b list" where
  "map_err f [] = Inr []"
| "map_err f (x # xs) =
     (case f x of
        Inl e \<Rightarrow> Inl e
      | Inr y \<Rightarrow> (case map_err f xs of Inl e \<Rightarrow> Inl e | Inr ys \<Rightarrow> Inr (y # ys)))"

text \<open>\<open>max(items, key=f)\<close>: CPython keeps the first item and replaces it only by a later
  item whose key is strictly greater; the empty sequence raises.\<close>

definition py_max_by :: "('a \<Rightarrow> npfloat) \<Rightarrow> 'a list \<Rightarrow> error + 'a" where
  "py_max_by f items =
     (case items of
        [] \<Rightarrow> Inl ValueError
      | x # rest \<Rightarrow> Inr (foldl (\<lambda>best y. if np_gt (f y) (f best) then y else best) x rest))"

subsection \<open>Cosine similarity\<close>

text \<open>
  \<open>np.array(doc_embeddings)\<close>: the empty list is a one-dimensional empty array, rows of
  one length are a matrix, rows of different lengths raise. A matrix is the list of its rows.
\<close>

definition np_array_2d :: "npfloat list list \<Rightarrow> error + npfloat list list" where
  "np_array_2d rows =
     (case rows of
        [] \<Rightarrow> Inr []
      | r # rs \<Rightarrow> if list_all (\<lambda>x. length x = length r) rs then Inr rows else Inl ValueError)"

text \<open>
  \<open>np.linalg.norm(v)\<close> of one row, which NumPy computes as \<open>sqrt(add.reduce(v * v))\<close>,
  the row divided by it, and one entry of \<open>np.dot\<close>. Here the sums are taken from left
  to right, each partial sum rounded. NumPy may add the terms in another order, which can
  change the rounded value of a finite sum. The theorems on the reranker do not depend on
  that value: they are stated for every rounding, a sum with a non-finite term is
  non-finite in every order, and the selection is compared with the scores as computed.
\<close>

definition l2_norm :: "rounding \<Rightarrow> npfloat list \<Rightarrow> npfloat" where
  "l2_norm rnd v = np_sqrt rnd (foldl (np_add rnd) (Fin 0) (map (\<lambda>x. np_mul rnd x x) v))"

definition normalize_row :: "rounding \<Rightarrow> npfloat list \<Rightarrow> npfloat list" where
  "normalize_row rnd v = map (\<lambda>x. np_div rnd x (l2_norm rnd v)) v"

definition np_dot_row :: "rounding \<Rightarrow> npfloat list \<Rightarrow> npfloat list \<Rightarrow> npfloat" where
  "np_dot_row rnd a b = foldl (np_add rnd) (Fin 0) (map2 (np_mul rnd) a b)"

text \<open>
  \<open>_cosine_similarity(vec1, vec2)\<close> as \<open>rerank\<close> calls it: \<open>vec1\<close> is one-dimensional, so
  the result is flattened to one similarity per row of \<open>vec2\<close>. \<open>vec2\<close> is a matrix, or
  the one-dimensional empty array, which \<open>reshape(1, -1)\<close> turns into one row of no
  columns. \<open>np.dot\<close> raises when the row lengths differ. Nothing looks at the norms
  before the division.
\<close>

definition reshape_rows :: "npfloat list list \<Rightarrow> npfloat list list" where
  "reshape_rows vec2 = (if vec2 = [] then [[]] else vec2)"

definition cosine_similarity ::
  "rounding \<Rightarrow> npfloat list \<Rightarrow> npfloat list list \<Rightarrow> error + npfloat list" where
  "cosine_similarity rnd vec1 vec2 =
     (let rows = reshape_rows vec2;
          vec1_norm = normalize_row rnd vec1;
          vec2_norm = map (normalize_row rnd) rows
      in if list_all (\<lambda>r. length r = length vec1) rows
         then Inr (map (np_dot_row rnd vec1_norm) vec2_norm)
         else Inl ValueError)"

subsection \<open>The greedy selection\<close>

record Embedder =
  embed_query :: "string \<Rightarrow> error + npfloat list"
  embed_documents :: "string list \<Rightarrow> error + npfloat list list"

text \<open>The body of the inner loop for one \<open>idx\<close>: the pair appended to \<open>mmr_scores\<close>.\<close>

definition mmr_score ::
  "rounding \<Rightarrow> npfloat \<Rightarrow> npfloat list \<Rightarrow> npfloat list list \<Rightarrow> nat list \<Rightarrow> nat \<Rightarrow>
     error + (nat \<times> npfloat)" where
  "mmr_score rnd diversity_score query_similarities doc_vecs selected_indices idx =
     (case py_index query_similarities idx of
        Inl e \<Rightarrow> Inl e
      | Inr relevance \<Rightarrow>
          (case (if selected_indices \<noteq> []
                 then (case map_err (py_index doc_vecs) selected_indices of
                         Inl e \<Rightarrow> Inl e
                       | Inr selected_vecs \<Rightarrow>
                           (case py_index doc_vecs idx of
                              Inl e \<Rightarrow> Inl e
                            | Inr v \<Rightarrow>
                                (case cosine_similarity rnd v selected_vecs of
                                   Inl e \<Rightarrow> Inl e
                                 | Inr sims \<Rightarrow> np_max sims)))
                 else Inr (Fin 0)) of
             Inl e \<Rightarrow> Inl e
           | Inr redundancy \<Rightarrow>
               Inr (idx, np_sub rnd (np_mul rnd diversity_score relevance)
                                    (np_mul rnd (np_sub rnd (Fin 1) diversity_score) redundancy))))"

text \<open>\<open>for _ in range(min(top_k, len(documents)))\<close>, with the number of rounds left.\<close>

fun mmr_loop ::
  "rounding \<Rightarrow> nat \<Rightarrow> npfloat \<Rightarrow> npfloat list \<Rightarrow> npfloat list list \<Rightarrow> nat list \<Rightarrow> nat list \<Rightarrow>
     error + nat list" where
  "mmr_loop rnd 0 diversity_score query_similarities doc_vecs selected_indices remaining_indices =
     Inr selected_indices"
| "mmr_loop rnd (Suc n) diversity_score query_similarities doc_vecs selected_indices remaining_indices =
     (if remaining_indices = [] then Inr selected_indices
      else
        (case map_err (mmr_score rnd diversity_score query_similarities doc_vecs selected_indices)
                remaining_indices of
           Inl e \<Rightarrow> Inl e
         | Inr mmr_scores \<Rightarrow>
             (case py_max_by snd mmr_scores of
                Inl e \<Rightarrow> Inl e
              | Inr best \<Rightarrow>
                  mmr_loop rnd n diversity_score query_similarities doc_vecs
                    (selected_indices @ [fst best]) (remove1 (fst best) remaining_indices))))"

text \<open>The \<open>try\<close> block of \<open>rerank\<close>: \<open>Inl\<close> is an exception raised inside it.\<close>

definition mmr_select ::
  "rounding \<Rightarrow> Embedder \<Rightarrow> string \<Rightarrow> Document list \<Rightarrow> int \<Rightarrow> npfloat \<Rightarrow> error + Document list" where
  "mmr_select rnd emb q documents top_k diversity_score =
     (case embed_query emb q of
        Inl e \<Rightarrow> Inl e
      | Inr query_vec \<Rightarrow>
          (case embed_documents emb (map page_content documents) of
             Inl e \<Rightarrow> Inl e
           | Inr doc_embeddings \<Rightarrow>
               (case np_array_2d doc_embeddings of
                  Inl e \<Rightarrow> Inl e
                | Inr doc_vecs \<Rightarrow>
                    (case cosine_similarity rnd query_vec doc_vecs of
                       Inl e \<Rightarrow> Inl e
                     | Inr query_similarities \<Rightarrow>
                         (case mmr_loop rnd (nat (min top_k (int (length documents))))
                                 diversity_score query_similarities doc_vecs []
                                 [0..<length documents] of
                            Inl e \<Rightarrow> Inl e
                          | Inr selected_indices \<Rightarrow>
                              map_err (py_index documents) selected_indices)))))"

definition score_key :: "Document \<Rightarrow> real" where
  "score_key d = (case meta_similarity_score (metadata d) of None \<Rightarrow> 0 | Some x \<Rightarrow> x)"

definition fallback_rerank :: "Document list \<Rightarrow> int \<Rightarrow> Document list" where
  "fallback_rerank documents top_k =
     (let sorted_docs = py_sorted_reverse score_key documents
      in py_slice_to top_k sorted_docs)"

definition rerank ::
  "rounding \<Rightarrow> Embedder \<Rightarrow> string \<Rightarrow> Document list \<Rightarrow> int \<Rightarrow> npfloat \<Rightarrow> Document list" where
  "rerank rnd emb q documents top_k diversity_score =
     (if documents = [] then []
      else if int (length documents) \<le> top_k then documents
      else (case mmr_select rnd emb q documents top_k diversity_score of
              Inr reranked \<Rightarrow> reranked
            | Inl e \<Rightarrow> fallback_rerank documents top_k))"

subsection \<open>The selection as the specification words it\<close>

text \<open>
  The cosine similarity of two vectors is the dot product of their L2-normalised forms,
  in the floating-point arithmetic above. The specification takes it as 0 when one of the
  two norms is zero: \<open>guarded_cosine\<close>. The redundancy of a candidate is its largest
  similarity to a selected document, 0 when nothing is selected; the largest of a list of
  values is the one that is \<open>>=\<close> all of them, and there is none when one of them is
  \<open>nan\<close>. The candidate picked is the first, in iteration order, whose score is \<open>>=\<close> the
  score of every candidate; the selection ends when there is none.
\<close>

definition spec_cosine :: "rounding \<Rightarrow> npfloat list \<Rightarrow> npfloat list \<Rightarrow> npfloat" where
  "spec_cosine rnd a b = np_dot_row rnd (normalize_row rnd a) (normalize_row rnd b)"

definition guarded_cosine :: "rounding \<Rightarrow> npfloat list \<Rightarrow> npfloat list \<Rightarrow> npfloat" where
  "guarded_cosine rnd a b =
     (if l2_norm rnd a = Fin 0 \<or> l2_norm rnd b = Fin 0 then Fin 0 else spec_cosine rnd a b)"

definition spec_max :: "npfloat list \<Rightarrow> npfloat" where
  "spec_max xs = (case find (\<lambda>x. list_all (\<lambda>y. np_ge x y) xs) xs of Some m \<Rightarrow> m | None \<Rightarrow> NaN)"

definition spec_redundancy :: "(nat \<Rightarrow> nat \<Rightarrow> npfloat) \<Rightarrow> nat list \<Rightarrow> nat \<Rightarrow> npfloat" where
  "spec_redundancy sim selected i = (if selected = [] then Fin 0 else spec_max (map (sim i) selected))"

definition spec_mmr ::
  "rounding \<Rightarrow> npfloat \<Rightarrow> (nat \<Rightarrow> npfloat) \<Rightarrow> (nat \<Rightarrow> nat \<Rightarrow> npfloat) \<Rightarrow> nat list \<Rightarrow> nat \<Rightarrow> npfloat" where
  "spec_mmr rnd lam rel sim selected i =
     np_sub rnd (np_mul rnd lam (rel i))
                (np_mul rnd (np_sub rnd (Fin 1) lam) (spec_redundancy sim selected i))"

definition spec_pick :: "(nat \<Rightarrow> npfloat) \<Rightarrow> nat list \<Rightarrow> nat option" where
  "spec_pick score cands = find (\<lambda>i. list_all (\<lambda>j. np_ge (score i) (score j)) cands) cands"

fun spec_greedy :: "nat \<Rightarrow> nat \<Rightarrow> (nat list \<Rightarrow> nat \<Rightarrow> npfloat) \<Rightarrow> nat list \<Rightarrow> nat list" where
  "spec_greedy 0 n score selected = selected"
| "spec_greedy (Suc k) n score selected =
     (case spec_pick (score selected) (filter (\<lambda>i. i \<notin> set selected) [0..<n]) of
        None \<Rightarrow> selected
      | Some best \<Rightarrow> spec_greedy k n score (selected @ [best]))"

text \<open>The MMR scores of the documents for a cosine \<open>cosine\<close>, and the selection by them.\<close>

definition spec_scores ::
  "rounding \<Rightarrow> (npfloat list \<Rightarrow> npfloat list \<Rightarrow> npfloat) \<Rightarrow> npfloat list \<Rightarrow> npfloat list list \<Rightarrow>
     npfloat \<Rightarrow> nat list \<Rightarrow> nat \<Rightarrow> npfloat" where
  "spec_scores rnd cosine query_vec doc_vecs lam =
     spec_mmr rnd lam (\<lambda>i. cosine query_vec (doc_vecs ! i))
                      (\<lambda>i j. cosine (doc_vecs ! i) (doc_vecs ! j))"

definition spec_rerank ::
  "rounding \<Rightarrow> (npfloat list \<Rightarrow> npfloat list \<Rightarrow> npfloat) \<Rightarrow> npfloat list \<Rightarrow> npfloat list list \<Rightarrow>
     Document list \<Rightarrow> int \<Rightarrow> npfloat \<Rightarrow> Document list" where
  "spec_rerank rnd cosine query_vec doc_vecs documents top_k lam =
     map (\<lambda>i. documents ! i)
       (spec_greedy (nat top_k) (length documents)
          (spec_scores rnd cosine query_vec doc_vecs lam) [])"

text \<open>None of the scores that the rounds of the selection compute is \<open>nan\<close>.\<close>

fun scores_comparable :: "nat \<Rightarrow> nat \<Rightarrow> (nat list \<Rightarrow> nat \<Rightarrow> npfloat) \<Rightarrow> nat list \<Rightarrow> bool" where
  "scores_comparable 0 n score selected = True"
| "scores_comparable (Suc k) n score selected =
     (list_all (\<lambda>i. score selected i \<noteq> NaN) (filter (\<lambda>i. i \<notin> set selected) [0..<n])
      \<and> (case spec_pick (score selected) (filter (\<lambda>i. i \<notin> set selected) [0..<n]) of
            None \<Rightarrow> True
          | Some best \<Rightarrow> scores_comparable k n score (selected @ [best])))"

section \<open>Configuration (app/config.py)\<close>

text \<open>
  The settings the pipeline reads. The retriever reads \<open>ENABLE_DOCUMENT_CACHE\<close> and the
  chain reads \<open>ENABLE_RESPONSE_CACHE\<close>; the class \<open>Settings\<close> of \<open>config.py\<close> declares
  neither (its caching flags are \<open>ENABLE_QUERY_CACHE\<close> and \<open>ENABLE_EMBEDDING_CACHE\<close>), and
  reading an attribute that the class does not declare raises \<open>AttributeError\<close>. Each of
  the two is therefore an optional field: \<open>None\<close> when the settings object has no such
  attribute, \<open>Some b\<close> for a settings class that declares it. The other fields are
  declared; environment variables can change their values.
\<close>

record Settings =
  ENABLE_DOCUMENT_CACHE :: "bool option"
  ENABLE_RESPONSE_CACHE :: "bool option"
  ENABLE_QUERY_EXPANSION :: bool
  MAX_QUERY_VARIATIONS :: int
  RETRIEVAL_TOP_K :: int
  ENABLE_RERANKING :: bool
  MMR_DIVERSITY_SCORE :: real
  ENABLE_COMPRESSION :: bool

text \<open>The settings object of \<open>config.py\<close> with the defaults it declares.\<close>

definition config_settings :: Settings where
  "config_settings =
     \<lparr>ENABLE_DOCUMENT_CACHE = None,
      ENABLE_RESPONSE_CACHE = None,
      ENABLE_QUERY_EXPANSION = True,
      MAX_QUERY_VARIATIONS = 3,
      RETRIEVAL_TOP_K = 30,
      ENABLE_RERANKING = True,
      MMR_DIVERSITY_SCORE = 3 / 10,
      ENABLE_COMPRESSION = True\<rparr>"

section \<open>Retriever (app/rag/retriever.py)\<close>

text \<open>
  The vector store is external: \<open>similarity_search_with_score(query, k, expr)\<close> is a
  parameter that returns scored documents or raises. Every call made to it is appended
  to \<open>search_calls\<close>, so that a theorem can say that no call was made.
\<close>

type_synonym search_call = "string \<times> int \<times> string option"

type_synonym vector_store = "string \<Rightarrow> int \<Rightarrow> string option \<Rightarrow> error + (Document \<times> real) list"

record RetrieverState =
  document_cache :: "Document list Cache"
  search_calls :: "search_call list"

definition dquote :: char where
  "dquote = CHR 0x22"

definition build_filter_expression :: "string option \<Rightarrow> string list option \<Rightarrow> string option" where
  "build_filter_expression tk dts =
     (let conditions =
            (case tk of
               None \<Rightarrow> []
             | Some t \<Rightarrow> if t \<noteq> [] then [''ticker == '' @ [dquote] @ t @ [dquote]] else [])
            @
            (case dts of
               None \<Rightarrow> []
             | Some ts \<Rightarrow>
                 if ts \<noteq> []
                 then [''('' @ py_join '' or '' (map (\<lambda>dt. ''doc_type == '' @ [dquote] @ dt @ [dquote]) ts)
                         @ '')'']
                 else [])
      in if conditions = [] then None else Some (py_join '' and '' conditions))"

definition attach_score :: "Document \<times> real \<Rightarrow> Document" where
  "attach_score r =
     (case r of (doc, score) \<Rightarrow>
        doc\<lparr>metadata := (metadata doc)\<lparr>meta_similarity_score := Some score\<rparr>\<rparr>)"

text \<open>
  \<open>retrieve\<close>. Its first statement reads \<open>settings.ENABLE_DOCUMENT_CACHE\<close>, which raises
  when the settings do not declare the flag; \<open>retrieve_declared\<close> is the rest of the body,
  for the value read.
\<close>

definition retrieve_declared ::
  "bool \<Rightarrow> (string \<Rightarrow> string) \<Rightarrow> vector_store \<Rightarrow> 'a RetrieverState_scheme \<Rightarrow>
     string \<Rightarrow> string option \<Rightarrow> string list option \<Rightarrow> int \<Rightarrow> real \<Rightarrow>
     (error + Document list) \<times> 'a RetrieverState_scheme" where
  "retrieve_declared enable_document_cache md5 search st q tk dts top_k now =
     (let (cached_docs, st1) =
            (if enable_document_cache
             then (case DocumentCache_get md5 (document_cache st) q tk dts now of
                     (r, c1) \<Rightarrow> (r, st\<lparr>document_cache := c1\<rparr>))
             else (None, st))
      in case cached_docs of
           Some docs \<Rightarrow> (Inr (py_slice_to top_k docs), st1)
         | None \<Rightarrow>
             let filter_expr = build_filter_expression tk dts;
                 st2 = st1\<lparr>search_calls := search_calls st1 @ [(q, top_k, filter_expr)]\<rparr>
             in (case search q top_k filter_expr of
                   Inl e \<Rightarrow> (Inl e, st2)
                 | Inr results \<Rightarrow>
                     (let documents = map attach_score results;
                          st3 = (if enable_document_cache
                                 then st2\<lparr>document_cache :=
                                            DocumentCache_set md5 (document_cache st2) q documents tk dts now\<rparr>
                                 else st2)
                      in (Inr documents, st3))))"

definition retrieve ::
  "Settings \<Rightarrow> (string \<Rightarrow> string) \<Rightarrow> vector_store \<Rightarrow> 'a RetrieverState_scheme \<Rightarrow>
     string \<Rightarrow> string option \<Rightarrow> string list option \<Rightarrow> int \<Rightarrow> real \<Rightarrow>
     (error + Document list) \<times> 'a RetrieverState_scheme" where
  "retrieve cfg md5 search st q tk dts top_k now =
     (case ENABLE_DOCUMENT_CACHE cfg of
        None \<Rightarrow> (Inl AttributeError, st)
      | Some enable_document_cache \<Rightarrow>
          retrieve_declared enable_document_cache md5 search st q tk dts top_k now)"

section \<open>Query expander (app/rag/query_expander.py)\<close>

text \<open>
  The language model is external. Each prompt is a parameter that returns the content of
  the response or raises.
\<close>

record Completion =
  decompose_llm :: "string \<Rightarrow> error + string"
  expansion_llm :: "string \<Rightarrow> int \<Rightarrow> error + string"
  compress_llm :: "string \<Rightarrow> string \<Rightarrow> error + string"
  answer_llm :: "string \<Rightarrow> string \<Rightarrow> string \<Rightarrow> error + string"

definition multi_part :: "string \<Rightarrow> bool" where
  "multi_part q =
     ((py_in ''1.'' q \<and> py_in ''2.'' q)
      \<or> (py_in ''1)'' q \<and> py_in ''2)'' q)
      \<or> py_count q CHR ''?'' > 1
      \<or> (py_in '' and '' (py_lower q) \<and> length (py_split q) > 15))"

text \<open>\<open>response.content.strip().split('\n')\<close>, each line stripped, empty lines dropped.\<close>

definition parse_lines :: "string \<Rightarrow> string list" where
  "parse_lines c = filter (\<lambda>l. l \<noteq> []) (map py_strip (split_on newline (py_strip c)))"

text \<open>\<open>re.sub(r'^\d+[\.\)]\s*', '', q)\<close>.\<close>

definition strip_numbering :: "string \<Rightarrow> string" where
  "strip_numbering q =
     (case dropWhile py_isdigit q of
        [] \<Rightarrow> q
      | c # rest \<Rightarrow>
          if takeWhile py_isdigit q \<noteq> [] \<and> (c = CHR ''.'' \<or> c = CHR '')'')
          then dropWhile py_isspace rest
          else q)"

definition decompose_query :: "Completion \<Rightarrow> string \<Rightarrow> string list" where
  "decompose_query llm q =
     (if \<not> multi_part q then [q]
      else (case decompose_llm llm q of
              Inl e \<Rightarrow> [q]
            | Inr c \<Rightarrow>
                let sub_queries = parse_lines c;
                    cleaned_queries = filter (\<lambda>x. x \<noteq> []) (map strip_numbering sub_queries)
                in if cleaned_queries \<noteq> [] then cleaned_queries else [q]))"

definition generate_variations :: "Completion \<Rightarrow> string \<Rightarrow> int \<Rightarrow> string list" where
  "generate_variations llm q num_variations =
     (case expansion_llm llm q num_variations of
        Inl e \<Rightarrow> []
      | Inr c \<Rightarrow> py_slice_to num_variations (parse_lines c))"

definition should_expand :: "string \<Rightarrow> bool" where
  "should_expand q =
     (let word_count = length (py_split q) in
      if word_count < 5 then False
      else
        let query_lower = py_strip (py_lower q) in
        if py_startswith query_lower ''what is''
           \<or> py_startswith query_lower ''what was''
           \<or> py_startswith query_lower ''when did''
           \<or> py_startswith query_lower ''where is''
           \<or> py_in ''yes or no'' query_lower
        then False
        else True)"

text \<open>\<open>all_queries.extend([v for v in variations if v not in all_queries])\<close>: the
  comprehension is evaluated against \<open>all_queries\<close> as it is before the extension.\<close>

definition extend_new :: "string list \<Rightarrow> string list \<Rightarrow> string list" where
  "extend_new all_queries variations =
     all_queries @ filter (\<lambda>v. v \<notin> set all_queries) variations"

fun expand_subs :: "Completion \<Rightarrow> int \<Rightarrow> string list \<Rightarrow> string list \<Rightarrow> string list" where
  "expand_subs llm num_variations all_queries [] = all_queries"
| "expand_subs llm num_variations all_queries (sub_query # rest) =
     (let all1 = (if sub_query \<notin> set all_queries then all_queries @ [sub_query] else all_queries);
          all2 = (if should_expand sub_query
                  then extend_new all1 (generate_variations llm sub_query num_variations)
                  else all1)
      in expand_subs llm num_variations all2 rest)"

definition expand :: "Completion \<Rightarrow> string \<Rightarrow> int \<Rightarrow> string list" where
  "expand llm q num_variations =
     (let all_queries = [q];
          sub_queries = decompose_query llm q
      in if length sub_queries > 1
         then expand_subs llm num_variations all_queries sub_queries
         else if should_expand q
              then extend_new all_queries (generate_variations llm q num_variations)
              else all_queries)"

section \<open>Contextual compressor (app/rag/compressor.py)\<close>

fun compress :: "Completion \<Rightarrow> string \<Rightarrow> Document list \<Rightarrow> Document list" where
  "compress llm q [] = []"
| "compress llm q (doc # docs) =
     (if length (page_content doc) < 200 then doc # compress llm q docs
      else (case compress_llm llm q (page_content doc) of
              Inl e \<Rightarrow> doc # compress llm q docs
            | Inr c \<Rightarrow>
                let extracted = py_strip c in
                if extracted = ''NOT_RELEVANT'' \<or> extracted = [] then compress llm q docs
                else doc\<lparr>page_content := extracted\<rparr> # compress llm q docs))"

section \<open>The RAG chain (app/rag/chain.py)\<close>

record QueryRequest =
  req_query :: string
  req_ticker :: "string option"
  req_doc_types :: "string list option"
  req_top_k :: int
  req_session_id :: "string option"

text \<open>
  The response dictionary: the value stored in the response cache and the fields of the
  \<open>QueryResponse\<close> built from it. \<open>rd_from_cache\<close> is the key \<open>from_cache\<close>, which a
  cache hit adds to the stored dictionary.
\<close>

record ResponseDict =
  rd_answer :: string
  rd_sources :: "SourceInfo list"
  rd_query :: string
  rd_processing_time :: real
  rd_expanded_queries :: "string list option"
  rd_num_documents_retrieved :: nat
  rd_session_id :: string
  rd_from_cache :: bool

text \<open>
  The state the chain works on: the document cache and the log of vector-store calls
  (the retriever's part), the response cache of the module-level \<open>cache_manager\<close>, and
  the conversations of the chain object.
\<close>

record AppState = RetrieverState +
  response_cache :: "ResponseDict Cache"
  conversations :: "(string \<times> ConversationHistory) list"

text \<open>
  What the chain takes from outside: the settings, the rounding of the floating-point
  arithmetic, the hash, the embedder of the reranker, the vector store, the language
  model, and the clock. The clock is read as \<open>start_time\<close> on entry and as \<open>clock_now\<close>
  afterwards; \<open>round2\<close> is \<open>round(x, 2)\<close>.
\<close>

record Env =
  env_settings :: Settings
  env_rnd :: rounding
  env_md5 :: "string \<Rightarrow> string"
  env_embedder :: Embedder
  env_search :: vector_store
  env_llm :: Completion
  start_time :: real
  clock_now :: real
  round2 :: "real \<Rightarrow> real"

text \<open>\<open>not request.session_id\<close>: true for \<open>None\<close> and for the empty string.\<close>

definition no_session :: "QueryRequest \<Rightarrow> bool" where
  "no_session request = (case req_session_id request of None \<Rightarrow> True | Some sid \<Rightarrow> sid = [])"

text \<open>\<open>int(x)\<close> of a float truncates towards zero.\<close>

definition py_int :: "real \<Rightarrow> int" where
  "py_int x = (if 0 \<le> x then \<lfloor>x\<rfloor> else \<lceil>x\<rceil>)"

definition get_or_create_conversation ::
  "(string \<times> ConversationHistory) list \<Rightarrow> string \<Rightarrow>
     ConversationHistory \<times> (string \<times> ConversationHistory) list" where
  "get_or_create_conversation convs sid =
     (case map_of convs sid of
        Some h \<Rightarrow> (h, convs)
      | None \<Rightarrow>
          (let h = \<lparr>messages = [], max_tokens = 4000\<rparr>
           in (h, AList.update sid h convs)))"

text \<open>The loop of step 2: one \<open>retrieve\<close> per expanded query; an exception ends it.\<close>

fun retrieve_all ::
  "Settings \<Rightarrow> (string \<Rightarrow> string) \<Rightarrow> vector_store \<Rightarrow> 'a RetrieverState_scheme \<Rightarrow>
     string list \<Rightarrow> string option \<Rightarrow> string list option \<Rightarrow> int \<Rightarrow> real \<Rightarrow> Document list \<Rightarrow>
     (error + Document list) \<times> 'a RetrieverState_scheme" where
  "retrieve_all cfg md5 search st [] tk dts top_k now all_documents = (Inr all_documents, st)"
| "retrieve_all cfg md5 search st (q # qs) tk dts top_k now all_documents =
     (case retrieve cfg md5 search st q tk dts top_k now of
        (Inl e, st1) \<Rightarrow> (Inl e, st1)
      | (Inr docs, st1) \<Rightarrow>
          retrieve_all cfg md5 search st1 qs tk dts top_k now (all_documents @ docs))"

definition dedup_key :: "Document \<Rightarrow> string" where
  "dedup_key doc =
     (case meta_filename (metadata doc) of None \<Rightarrow> [] | Some f \<Rightarrow> f) @ ''_''
     @ (case meta_chunk_id (metadata doc) of None \<Rightarrow> [] | Some c \<Rightarrow> c) @ ''_''
     @ take 100 (page_content doc)"

fun dedup_loop :: "string list \<Rightarrow> Document list \<Rightarrow> Document list \<Rightarrow> Document list" where
  "dedup_loop seen unique_docs [] = unique_docs"
| "dedup_loop seen unique_docs (doc # docs) =
     (if dedup_key doc \<notin> set seen
      then dedup_loop (dedup_key doc # seen) (unique_docs @ [doc]) docs
      else dedup_loop seen unique_docs docs)"

definition deduplicate_documents :: "Document list \<Rightarrow> Document list" where
  "deduplicate_documents documents = dedup_loop [] [] documents"

definition history_line :: "string \<times> string \<Rightarrow> string" where
  "history_line msg =
     (case msg of (r, c) \<Rightarrow>
        (let role_label = (if r = ''user'' then ''User'' else ''Assistant'');
             shown = take 300 c;
             shown = (if length c > 300 then shown @ ''...'' else shown)
         in role_label @ '': '' @ shown @ [newline, newline]))"

definition format_history :: "ConversationHistory \<Rightarrow> string" where
  "format_history conversation =
     (if messages conversation \<noteq> []
      then (let recent_history = py_slice_from (- 6) (get_messages conversation)
            in if recent_history \<noteq> []
               then ''Previous conversation:'' @ [newline] @ concat (map history_line recent_history)
               else [])
      else [])"

text \<open>
  The \<open>try\<close> block of \<open>process_query\<close> up to the answer. Step 1 gives the expanded
  queries; step 2 is \<open>retrieve_all\<close>; steps 3 to 8 work on the retrieved documents and
  touch no state. The result is the exception that leaves the block, or the expanded
  queries, the compressed documents, the tracker and the answer.
\<close>

definition expanded_queries_of :: "Env \<Rightarrow> QueryRequest \<Rightarrow> string list" where
  "expanded_queries_of env request =
     (if ENABLE_QUERY_EXPANSION (env_settings env)
      then expand (env_llm env) (req_query request) (MAX_QUERY_VARIATIONS (env_settings env) - 1)
      else [req_query request])"

definition answer_from_documents ::
  "Env \<Rightarrow> QueryRequest \<Rightarrow> ConversationHistory \<Rightarrow> string list \<Rightarrow> Document list \<Rightarrow>
     error + string list \<times> Document list \<times> CitationTracker \<times> string" where
  "answer_from_documents env request conversation expanded_queries all_documents =
     (let cfg = env_settings env;
          unique_docs = deduplicate_documents all_documents;
          reranked_docs =
            (if ENABLE_RERANKING cfg \<and> int (length unique_docs) > req_top_k request
             then rerank (env_rnd env) (env_embedder env) (req_query request) unique_docs
                    (req_top_k request) (Fin (MMR_DIVERSITY_SCORE cfg))
             else py_slice_to (req_top_k request) unique_docs);
          compressed_docs =
            (if ENABLE_COMPRESSION cfg
             then compress (env_llm env) (req_query request) reranked_docs
             else reranked_docs);
          (context, tracker) = format_context_with_citations new_tracker compressed_docs;
          conversation_history = format_history conversation
      in (case answer_llm (env_llm env) conversation_history context (req_query request) of
            Inl e \<Rightarrow> Inl e
          | Inr answer \<Rightarrow> Inr (expanded_queries, compressed_docs, tracker, answer)))"

definition answer_pipeline ::
  "Env \<Rightarrow> AppState \<Rightarrow> QueryRequest \<Rightarrow> ConversationHistory \<Rightarrow>
     (error + string list \<times> Document list \<times> CitationTracker \<times> string) \<times> AppState" where
  "answer_pipeline env st request conversation =
     (let cfg = env_settings env;
          expanded_queries = expanded_queries_of env request
      in case retrieve_all cfg (env_md5 env) (env_search env) st expanded_queries
                (req_ticker request) (req_doc_types request) (RETRIEVAL_TOP_K cfg)
                (clock_now env) [] of
           (Inl e, st1) \<Rightarrow> (Inl e, st1)
         | (Inr all_documents, st1) \<Rightarrow>
             (answer_from_documents env request conversation expanded_queries all_documents, st1))"

definition process_query_declared ::
  "bool \<Rightarrow> Env \<Rightarrow> AppState \<Rightarrow> QueryRequest \<Rightarrow> (error + ResponseDict) \<times> AppState" where
  "process_query_declared enable_response_cache env st request =
     (let use_cache = (enable_response_cache \<and> no_session request);
          (cached_response, st0) =
            (if use_cache
             then (case QueryResponseCache_get (env_md5 env) (response_cache st)
                          (req_query request) (req_ticker request) (req_doc_types request)
                          (req_top_k request) (clock_now env) of
                     (r, c1) \<Rightarrow> (r, st\<lparr>response_cache := c1\<rparr>))
             else (None, st))
      in case cached_response of
           Some cached \<Rightarrow>
             (let updated = cached\<lparr>rd_processing_time := round2 env (clock_now env - start_time env),
                                   rd_from_cache := True\<rparr>;
                  key = QueryResponseCache_generate_key (env_md5 env) (req_query request)
                          (req_ticker request) (req_doc_types request) (req_top_k request);
                  c2 = (response_cache st0)\<lparr>cache :=
                          map (\<lambda>(k, e). if k = key then (k, e\<lparr>val := updated\<rparr>) else (k, e))
                              (cache (response_cache st0))\<rparr>
              in (Inr updated, st0\<lparr>response_cache := c2\<rparr>))
         | None \<Rightarrow>
             let session_id =
                   (case req_session_id request of
                      None \<Rightarrow> ''session_'' @ str_int (py_int (clock_now env))
                    | Some sid \<Rightarrow>
                        if sid \<noteq> [] then sid else ''session_'' @ str_int (py_int (clock_now env)));
                 (conversation, convs1) = get_or_create_conversation (conversations st0) session_id;
                 st1 = st0\<lparr>conversations := convs1\<rparr>
             in (case answer_pipeline env st1 request conversation of
                  (Inl e, st2) \<Rightarrow> (Inl e, st2)
                | (Inr (expanded_queries, compressed_docs, tracker, answer), st2) \<Rightarrow>
                    let conversation1 =
                          add_message conversation ''user'' (req_query request) (clock_now env);
                        conversation2 = add_message conversation1 ''assistant'' answer (clock_now env);
                        st3 = st2\<lparr>conversations :=
                                   AList.update session_id conversation2 (conversations st2)\<rparr>;
                        response_dict =
                          \<lparr>rd_answer = answer,
                           rd_sources = get_sources_list tracker,
                           rd_query = req_query request,
                           rd_processing_time = round2 env (clock_now env - start_time env),
                           rd_expanded_queries =
                             (if length expanded_queries > 1 then Some expanded_queries else None),
                           rd_num_documents_retrieved = length compressed_docs,
                           rd_session_id = session_id,
                           rd_from_cache = False\<rparr>;
                        st4 = (if use_cache
                               then st3\<lparr>response_cache :=
                                          QueryResponseCache_set (env_md5 env) (response_cache st3)
                                            (req_query request) response_dict (req_ticker request)
                                            (req_doc_types request) (req_top_k request)
                                            (clock_now env)\<rparr>
                               else st3)
                    in (Inr response_dict, st4)))"

text \<open>
  \<open>process_query\<close>. After taking the start time its first statement reads
  \<open>settings.ENABLE_RESPONSE_CACHE\<close>, outside the \<open>try\<close> block, which raises when the
  settings do not declare the flag; \<open>process_query_declared\<close> above is the rest of the
  body, for the value read.
\<close>

definition process_query ::
  "Env \<Rightarrow> AppState \<Rightarrow> QueryRequest \<Rightarrow> (error + ResponseDict) \<times> AppState" where
  "process_query env st request =
     (case ENABLE_RESPONSE_CACHE (env_settings env) of
        None \<Rightarrow> (Inl AttributeError, st)
      | Some enable_response_cache \<Rightarrow> process_query_declared enable_response_cache env st request)"

section \<open>Example inputs\<close>

text \<open>Concrete values at which the theorems below are instantiated.\<close>

definition ex_long_history :: ConversationHistory where
  "ex_long_history =
     \<lparr>messages = [\<lparr>role = ''user'', content = ''aaaaaaaa'', timestamp = 0\<rparr>,
                  \<lparr>role = ''assistant'', content = ''bbbb'', timestamp = 1\<rparr>,
                  \<lparr>role = ''user'', content = ''cc'', timestamp = 2\<rparr>,
                  \<lparr>role = ''assistant'', content = ''d'', timestamp = 3\<rparr>],
      max_tokens = 1\<rparr>"

definition ex_short_history :: ConversationHistory where
  "ex_short_history =
     \<lparr>messages = [\<lparr>role = ''user'', content = ''hi'', timestamp = 0\<rparr>,
                  \<lparr>role = ''assistant'', content = ''hello'', timestamp = 1\<rparr>],
      max_tokens = 4000\<rparr>"

definition ex_doc :: "string \<Rightarrow> string \<Rightarrow> string \<Rightarrow> real option \<Rightarrow> Document" where
  "ex_doc fname cid txt score =
     \<lparr>page_content = txt,
      metadata = \<lparr>meta_filename = Some fname, meta_chunk_id = Some cid, meta_doc_type = None,
                  meta_ticker = None, meta_similarity_score = score\<rparr>\<rparr>"

text \<open>The numbers of the examples are small dyadic rationals, and so is every result
  computed from them: all are representable, and the rounding returns them as they are.\<close>

definition ex_exact :: rounding where
  "ex_exact x = Fin x"

definition ex_failing_embedder :: Embedder where
  "ex_failing_embedder =
     \<lparr>embed_query = (\<lambda>q. Inl EmbedderFailure), embed_documents = (\<lambda>ts. Inl EmbedderFailure)\<rparr>"

definition ex_scored_docs :: "Document list" where
  "ex_scored_docs =
     [ex_doc ''a.md'' ''0'' ''alpha'' (Some (2 / 10)),
      ex_doc ''b.md'' ''1'' ''beta'' None,
      ex_doc ''c.md'' ''2'' ''gamma'' (Some (9 / 10))]"

text \<open>The hash in the examples is the identity: every key string is its own digest.\<close>

definition ex_md5 :: "string \<Rightarrow> string" where
  "ex_md5 s = s"

definition ex_empty_cache :: "int \<Rightarrow> int \<Rightarrow> 'v Cache" where
  "ex_empty_cache n t = \<lparr>cache = [], max_size = n, ttl = t, hits = 0, misses = 0\<rparr>"

definition ex_two_docs :: "Document list" where
  "ex_two_docs = [ex_doc ''a.md'' ''0'' ''alpha'' None, ex_doc ''b.md'' ''1'' ''beta'' None]"

text \<open>Settings that declare the two caching flags which \<open>config.py\<close> leaves out.\<close>

definition ex_settings :: Settings where
  "ex_settings =
     \<lparr>ENABLE_DOCUMENT_CACHE = Some True, ENABLE_RESPONSE_CACHE = Some True,
      ENABLE_QUERY_EXPANSION = True,
      MAX_QUERY_VARIATIONS = 3, RETRIEVAL_TOP_K = 30, ENABLE_RERANKING = True,
      MMR_DIVERSITY_SCORE = 3 / 10, ENABLE_COMPRESSION = True\<rparr>"

definition ex_results :: "(Document \<times> real) list" where
  "ex_results =
     [(ex_doc ''a.md'' ''0'' ''alpha'' None, 9 / 10),
      (ex_doc ''b.md'' ''1'' ''beta'' None, 8 / 10),
      (ex_doc ''c.md'' ''2'' ''gamma'' None, 7 / 10),
      (ex_doc ''d.md'' ''3'' ''delta'' None, 6 / 10),
      (ex_doc ''e.md'' ''4'' ''epsilon'' None, 5 / 10)]"

definition ex_search :: vector_store where
  "ex_search q k expr = Inr ex_results"

definition ex_retriever_state :: RetrieverState where
  "ex_retriever_state = \<lparr>document_cache = ex_empty_cache 200 7200, search_calls = []\<rparr>"

definition ex_llm :: Completion where
  "ex_llm =
     \<lparr>decompose_llm = (\<lambda>q. Inl CompletionFailure),
      expansion_llm = (\<lambda>q n. Inr (''Revenue trend'' @ [newline] @ ''Revenue trend'')),
      compress_llm = (\<lambda>q d. Inl CompletionFailure),
      answer_llm = (\<lambda>h c q. Inr ''Revenue was $16.11B [Source 1]'')\<rparr>"

definition ex_env :: Env where
  "ex_env =
     \<lparr>env_settings = ex_settings, env_rnd = ex_exact, env_md5 = ex_md5, env_embedder = ex_failing_embedder,
      env_search = ex_search, env_llm = ex_llm, start_time = 0, clock_now = 1,
      round2 = (\<lambda>x. x)\<rparr>"

definition ex_response :: ResponseDict where
  "ex_response =
     \<lparr>rd_answer = ''cached answer'', rd_sources = [], rd_query = ''revenue'',
      rd_processing_time = 2, rd_expanded_queries = None, rd_num_documents_retrieved = 0,
      rd_session_id = ''session_0'', rd_from_cache = False\<rparr>"

definition ex_app_state :: AppState where
  "ex_app_state =
     \<lparr>document_cache = ex_empty_cache 200 7200, search_calls = [],
      response_cache =
        \<lparr>cache = [(''revenue|||10'', new_entry ex_response 3600 0)],
         max_size = 500, ttl = 3600, hits = 0, misses = 0\<rparr>,
      conversations = []\<rparr>"

definition ex_request :: "string option \<Rightarrow> QueryRequest" where
  "ex_request sid =
     \<lparr>req_query = ''revenue'', req_ticker = None, req_doc_types = None, req_top_k = 10,
      req_session_id = sid\<rparr>"

definition ex_three_docs :: "Document list" where
  "ex_three_docs =
     [ex_doc ''a.md'' ''0'' ''alpha'' None,
      ex_doc ''b.md'' ''1'' ''alpha, repeated'' None,
      ex_doc ''c.md'' ''2'' ''gamma'' None]"

text \<open>An embedder that maps the query to \<open>(1, 0)\<close>, the first two documents to \<open>(1, 0)\<close>
  and the third to \<open>(0, 1)\<close>; and one that maps the first document to the zero vector.\<close>

definition ex_embedder :: Embedder where
  "ex_embedder =
     \<lparr>embed_query = (\<lambda>q. Inr [Fin 1, Fin 0]),
      embed_documents = (\<lambda>ts. Inr [[Fin 1, Fin 0], [Fin 1, Fin 0], [Fin 0, Fin 1]])\<rparr>"

definition ex_zero_embedder :: Embedder where
  "ex_zero_embedder =
     \<lparr>embed_query = (\<lambda>q. Inr [Fin 1, Fin 0]),
      embed_documents = (\<lambda>ts. Inr [[Fin 0, Fin 0], [Fin 1, Fin 0]])\<rparr>"

text \<open>A retriever whose document cache holds the five documents of \<open>ex_results\<close> under
  the key of the query \<open>revenue\<close>, written at time 0.\<close>

definition ex_cached_state :: RetrieverState where
  "ex_cached_state =
     \<lparr>document_cache =
        \<lparr>cache = [(''revenue||'', new_entry (map fst ex_results) 7200 0)],
         max_size = 200, ttl = 7200, hits = 0, misses = 0\<rparr>,
      search_calls = []\<rparr>"

section \<open>Properties of the Python values\<close>

lemma py_slice_from_nonneg: "0 \<le> k \<Longrightarrow> py_slice_from k xs = drop (nat k) xs"
  by (simp add: py_slice_from_def)

lemma py_slice_to_nonneg: "0 \<le> k \<Longrightarrow> py_slice_to k xs = take (nat k) xs"
  by (simp add: py_slice_to_def)

lemma py_sorted_reverse_mset: "mset (py_sorted_reverse f xs) = mset xs"
  by (simp add: py_sorted_reverse_def)

lemma py_sorted_reverse_descending:
  "sorted_wrt (\<lambda>a b. f a \<ge> f b) (py_sorted_reverse f xs)"
proof -
  have "sorted (map f (sort_key f (rev xs)))" by (rule sorted_sort_key)
  then have "sorted_wrt (\<lambda>a b. f a \<le> f b) (sort_key f (rev xs))"
    by (simp add: sorted_map)
  then show ?thesis
    by (simp add: py_sorted_reverse_def sorted_wrt_rev)
qed

lemma py_sorted_reverse_stable:
  "filter (\<lambda>y. f y = k) (py_sorted_reverse f xs) = filter (\<lambda>y. f y = k) xs"
  by (simp add: py_sorted_reverse_def rev_filter[symmetric] sort_key_stable)

section \<open>Conversation history\<close>

text \<open>
  C6. For every conversation history that holds at least two messages, and every
  \<open>max_tokens\<close>, the messages kept by \<open>_trim_history\<close> are a suffix of the messages
  before the trim (an oldest-first prefix is dropped, nothing is reordered), at least two
  messages are kept, and when the estimated token count, total characters divided by 4,
  does not exceed \<open>max_tokens\<close>, the history is left as it is.
\<close>

theorem trim_history_keeps_recent_suffix:
  assumes "2 \<le> length (messages h)"
  shows "suffix (messages (trim_history h)) (messages h)
         \<and> 2 \<le> length (messages (trim_history h))
         \<and> max_tokens (trim_history h) = max_tokens h
         \<and> (real_of_int (\<Sum>m\<leftarrow>messages h. int (length (content m))) / 4
               \<le> real_of_int (max_tokens h)
             \<longrightarrow> trim_history h = h)"
proof -
  let ?n = "length (messages h)"
  let ?k = "min (int (scan_backwards (messages h) (max_tokens h * 4) ?n 0)) (int ?n - 2)"
  have ne: "messages h \<noteq> []" using assms by auto
  have kle: "?k \<le> int ?n - 2" by simp
  have drop_ok: "suffix (drop (nat ?k) (messages h)) (messages h)
                 \<and> 2 \<le> length (drop (nat ?k) (messages h))"
    using assms kle by (auto simp: suffix_drop)
  show ?thesis
    using assms ne drop_ok
    by (auto simp: trim_history_def Let_def py_slice_from_nonneg)
qed

theorem trim_history_keeps_recent_suffix_witness:
  "2 \<le> length (messages ex_long_history)
   \<and> messages (trim_history ex_long_history)
       = [\<lparr>role = ''user'', content = ''cc'', timestamp = 2\<rparr>,
          \<lparr>role = ''assistant'', content = ''d'', timestamp = 3\<rparr>]
   \<and> suffix (messages (trim_history ex_long_history)) (messages ex_long_history)
   \<and> 2 \<le> length (messages ex_short_history)
   \<and> real_of_int (\<Sum>m\<leftarrow>messages ex_short_history. int (length (content m))) / 4
        \<le> real_of_int (max_tokens ex_short_history)
   \<and> trim_history ex_short_history = ex_short_history"
proof -
  have l1: "2 \<le> length (messages ex_long_history)"
    by (simp add: ex_long_history_def)
  have l2: "2 \<le> length (messages ex_short_history)"
    by (simp add: ex_short_history_def)
  have e2: "real_of_int (\<Sum>m\<leftarrow>messages ex_short_history. int (length (content m))) / 4
              \<le> real_of_int (max_tokens ex_short_history)"
    by (simp add: ex_short_history_def)
  have v1: "messages (trim_history ex_long_history)
              = [\<lparr>role = ''user'', content = ''cc'', timestamp = 2\<rparr>,
                 \<lparr>role = ''assistant'', content = ''d'', timestamp = 3\<rparr>]"
    by (simp add: ex_long_history_def trim_history_def Let_def py_slice_from_def numeral_eq_Suc)
  from trim_history_keeps_recent_suffix[OF l1] trim_history_keeps_recent_suffix[OF l2] e2 l1 l2 v1
  show ?thesis by simp
qed

section \<open>Reranker\<close>

text \<open>
  C5. For every query, diversity parameter, embedder and rounding, and every list of documents
  with \<open>len(documents) \<le> top_k\<close>, \<open>rerank\<close> returns the input list itself, in the same
  order; the embedder plays no part (the statement holds for every embedder, one that
  raises included), and the empty list is returned for the empty list.
\<close>

theorem rerank_short_input_unchanged:
  "int (length documents) \<le> top_k \<Longrightarrow> rerank rnd emb q documents top_k lam = documents"
  by (simp add: rerank_def)

theorem rerank_short_input_unchanged_witness:
  "int (length [ex_doc ''a.md'' ''0'' ''alpha'' None, ex_doc ''b.md'' ''1'' ''beta'' None]) \<le> 2
   \<and> rerank ex_exact ex_failing_embedder ''revenue''
        [ex_doc ''a.md'' ''0'' ''alpha'' None, ex_doc ''b.md'' ''1'' ''beta'' None] 2 (Fin (3 / 10))
      = [ex_doc ''a.md'' ''0'' ''alpha'' None, ex_doc ''b.md'' ''1'' ''beta'' None]
   \<and> int (length ([] :: Document list)) \<le> 0
   \<and> rerank ex_exact ex_failing_embedder ''revenue'' [] 0 (Fin (3 / 10)) = []"
proof -
  have h1: "int (length [ex_doc ''a.md'' ''0'' ''alpha'' None, ex_doc ''b.md'' ''1'' ''beta'' None]) \<le> 2"
    by simp
  have h2: "int (length ([] :: Document list)) \<le> 0"
    by simp
  from rerank_short_input_unchanged[OF h1, of ex_exact ex_failing_embedder "''revenue''" "Fin (3 / 10)"]
       rerank_short_input_unchanged[OF h2, of ex_exact ex_failing_embedder "''revenue''" "Fin (3 / 10)"]
  show ?thesis by simp
qed

lemma mmr_select_embed_query_fails:
  "embed_query emb q = Inl e \<Longrightarrow> mmr_select rnd emb q documents top_k lam = Inl e"
  by (simp add: mmr_select_def)

lemma mmr_select_embed_documents_fails:
  "embed_documents emb (map page_content documents) = Inl e \<Longrightarrow>
   \<exists>e'. mmr_select rnd emb q documents top_k lam = Inl e'"
  by (simp add: mmr_select_def split: sum.splits)

text \<open>
  C4. For every query and every list of documents with \<open>len(documents) > top_k\<close>, if an
  embedding call raises, or anything else inside the \<open>try\<close> block of \<open>rerank\<close> does,
  \<open>rerank\<close> returns \<open>sorted_docs[:top_k]\<close>, where \<open>sorted_docs\<close> is the input sorted by
  the \<open>similarity_score\<close> of the metadata in descending order: a permutation of the input,
  descending in the score, documents of equal score in input order, a document without the
  field counted as score 0. For \<open>top_k \<ge> 0\<close> that is the first \<open>top_k\<close> documents of the
  sorted list. The result is a list: the exception does not reach the caller.
\<close>

theorem rerank_falls_back_on_failure:
  assumes "top_k < int (length documents)"
    and "(\<exists>e. embed_query emb q = Inl e)
         \<or> (\<exists>e. embed_documents emb (map page_content documents) = Inl e)
         \<or> (\<exists>e. mmr_select rnd emb q documents top_k lam = Inl e)"
  shows "rerank rnd emb q documents top_k lam
           = py_slice_to top_k (py_sorted_reverse score_key documents)
         \<and> mset (py_sorted_reverse score_key documents) = mset documents
         \<and> sorted_wrt (\<lambda>a b. score_key a \<ge> score_key b) (py_sorted_reverse score_key documents)
         \<and> (\<forall>s. filter (\<lambda>d. score_key d = s) (py_sorted_reverse score_key documents)
                  = filter (\<lambda>d. score_key d = s) documents)
         \<and> (\<forall>d. meta_similarity_score (metadata d) = None \<longrightarrow> score_key d = 0)
         \<and> (0 \<le> top_k \<longrightarrow> rerank rnd emb q documents top_k lam
                = take (nat top_k) (py_sorted_reverse score_key documents))"
proof -
  from assms(2) obtain e where fails: "mmr_select rnd emb q documents top_k lam = Inl e"
    using mmr_select_embed_query_fails mmr_select_embed_documents_fails by blast
  have r: "rerank rnd emb q documents top_k lam
             = py_slice_to top_k (py_sorted_reverse score_key documents)"
  proof (cases "documents = []")
    case True
    then show ?thesis
      by (simp add: rerank_def py_slice_to_def py_sorted_reverse_def)
  next
    case False
    then show ?thesis
      using assms(1) fails by (simp add: rerank_def fallback_rerank_def)
  qed
  have missing: "\<forall>d. meta_similarity_score (metadata d) = None \<longrightarrow> score_key d = 0"
    by (simp add: score_key_def)
  show ?thesis
    using r missing
    by (simp add: py_sorted_reverse_mset py_sorted_reverse_descending py_sorted_reverse_stable
        py_slice_to_nonneg)
qed

theorem rerank_falls_back_on_failure_witness:
  "2 < int (length ex_scored_docs)
   \<and> embed_query ex_failing_embedder ''revenue'' = Inl EmbedderFailure
   \<and> meta_similarity_score (metadata (ex_doc ''b.md'' ''1'' ''beta'' None)) = None
   \<and> (0::int) \<le> 2
   \<and> rerank ex_exact ex_failing_embedder ''revenue'' ex_scored_docs 2 (Fin (3 / 10))
       = [ex_doc ''c.md'' ''2'' ''gamma'' (Some (9 / 10)),
          ex_doc ''a.md'' ''0'' ''alpha'' (Some (2 / 10))]"
proof -
  have h1: "2 < int (length ex_scored_docs)"
    by (simp add: ex_scored_docs_def)
  have h2: "(\<exists>e. embed_query ex_failing_embedder ''revenue'' = Inl e)
            \<or> (\<exists>e. embed_documents ex_failing_embedder (map page_content ex_scored_docs) = Inl e)
            \<or> (\<exists>e. mmr_select ex_exact ex_failing_embedder ''revenue'' ex_scored_docs 2 (Fin (3 / 10)) = Inl e)"
    by (simp add: ex_failing_embedder_def)
  have s: "py_sorted_reverse score_key ex_scored_docs
             = [ex_doc ''c.md'' ''2'' ''gamma'' (Some (9 / 10)),
                ex_doc ''a.md'' ''0'' ''alpha'' (Some (2 / 10)),
                ex_doc ''b.md'' ''1'' ''beta'' None]"
    by (simp add: py_sorted_reverse_def score_key_def ex_doc_def ex_scored_docs_def)
  from rerank_falls_back_on_failure[OF h1 h2] have
    "(0::int) \<le> 2 \<longrightarrow> rerank ex_exact ex_failing_embedder ''revenue'' ex_scored_docs 2 (Fin (3 / 10))
       = take (nat 2) (py_sorted_reverse score_key ex_scored_docs)"
    by blast
  then show ?thesis
    using h1 s by (simp add: ex_failing_embedder_def ex_doc_def)
qed

section \<open>Caches\<close>

lemma length_alist_update_le: "length (AList.update k v al) \<le> Suc (length al)"
  by (induction al) auto

lemma length_alist_update_present:
  "map_of al k = Some e \<Longrightarrow> length (AList.update k v al) = length al"
  by (induction al) (auto split: if_splits)

lemma length_alist_delete_less:
  "k \<in> fst ` set al \<Longrightarrow> length (AList.delete k al) < length al"
proof (induction al)
  case Nil
  then show ?case by simp
next
  case (Cons p al)
  have le: "length (AList.delete k al) \<le> length al" by (rule AList.length_delete_le)
  show ?case
  proof (cases "fst p = k")
    case True
    then show ?thesis using le by (simp add: less_Suc_eq_le)
  next
    case False
    then have "k \<in> fst ` set al" using Cons.prems by auto
    then show ?thesis using Cons.IH False by simp
  qed
qed

lemma length_del_keys_le: "length (del_keys ks d) \<le> length d"
proof (induction ks arbitrary: d)
  case Nil
  then show ?case by simp
next
  case (Cons k ks)
  have "length (del_keys ks (AList.delete k d)) \<le> length (AList.delete k d)"
    by (rule Cons.IH)
  also have "\<dots> \<le> length d" by (rule AList.length_delete_le)
  finally show ?case by simp
qed

lemma length_del_keys_less:
  assumes "k \<in> fst ` set d"
  shows "length (del_keys (k # ks) d) < length d"
proof -
  have "length (del_keys ks (AList.delete k d)) \<le> length (AList.delete k d)"
    by (rule length_del_keys_le)
  also have "\<dots> < length d" using assms by (rule length_alist_delete_less)
  finally show ?thesis by simp
qed

lemma evict_keys_shrink:
  assumes "d \<noteq> []" "1 \<le> n"
  shows "length (del_keys (py_slice_to n (py_sorted f (map fst d))) d) < length d"
proof -
  let ?ks = "py_sorted f (map fst d)"
  have ne: "?ks \<noteq> []" using assms(1) by (simp add: py_sorted_def) (metis length_0_conv length_map length_sort)
  then obtain k ks where ks: "?ks = k # ks" by (cases ?ks) auto
  have "k \<in> set ?ks" using ks by simp
  then have kin: "k \<in> fst ` set d" by (simp add: py_sorted_def)
  obtain m where m: "nat n = Suc m" using assms(2) by (cases "nat n") auto
  have "py_slice_to n ?ks = k # take m ks"
    using assms(2) ks m by (simp add: py_slice_to_def)
  then show ?thesis using length_del_keys_less[OF kin] by simp
qed

lemma evict_oldest_shrinks:
  "cache c \<noteq> [] \<Longrightarrow> length (cache (evict_oldest c)) < length (cache c)"
  by (simp add: evict_oldest_def Let_def evict_keys_shrink)

lemma evict_lru_shrinks:
  "cache c \<noteq> [] \<Longrightarrow> length (cache (evict_lru c)) < length (cache c)"
  by (simp add: evict_lru_def Let_def evict_keys_shrink)

lemma evict_oldest_fields [simp]:
  "max_size (evict_oldest c) = max_size c" "ttl (evict_oldest c) = ttl c"
  by (simp_all add: evict_oldest_def Let_def)

lemma evict_lru_fields [simp]:
  "max_size (evict_lru c) = max_size c" "ttl (evict_lru c) = ttl c"
  by (simp_all add: evict_lru_def Let_def)

text \<open>The write shared by the three set methods.\<close>

lemma insert_after_evict_bounded:
  assumes "1 \<le> max_size c" "int (length (cache c)) \<le> max_size c"
    and shrink: "cache c \<noteq> [] \<Longrightarrow> length (cache (ev c)) < length (cache c)"
  shows "int (length (AList.update key e
            (cache (if int (length (cache c)) \<ge> max_size c then ev c else c)))) \<le> max_size c"
proof (cases "int (length (cache c)) \<ge> max_size c")
  case True
  then have "cache c \<noteq> []" using assms(1) by auto
  then have "length (cache (ev c)) < length (cache c)" by (rule shrink)
  moreover have "length (AList.update key e (cache (ev c))) \<le> Suc (length (cache (ev c)))"
    by (rule length_alist_update_le)
  ultimately show ?thesis using True assms(2) by simp
next
  case False
  moreover have "length (AList.update key e (cache c)) \<le> Suc (length (cache c))"
    by (rule length_alist_update_le)
  ultimately show ?thesis by simp
qed

lemma cache_get_size: "length (cache (snd (cache_get c key now))) \<le> length (cache c)"
  by (auto simp: cache_get_def length_alist_update_present AList.length_delete_le split: option.splits)

lemma cache_get_max_size [simp]: "max_size (snd (cache_get c key now)) = max_size c"
  by (auto simp: cache_get_def split: option.splits)

lemma EmbeddingCache_set_bounded:
  assumes "1 \<le> max_size c" "int (length (cache c)) \<le> max_size c"
  shows "int (length (cache (EmbeddingCache_set md5 c text emb now))) \<le> max_size c
         \<and> max_size (EmbeddingCache_set md5 c text emb now) = max_size c"
  using insert_after_evict_bounded[OF assms, of evict_oldest] evict_oldest_shrinks[of c]
  by (simp add: EmbeddingCache_set_def Let_def)

lemma QueryResponseCache_set_bounded:
  assumes "1 \<le> max_size c" "int (length (cache c)) \<le> max_size c"
  shows "int (length (cache (QueryResponseCache_set md5 c q r tk dts k now))) \<le> max_size c
         \<and> max_size (QueryResponseCache_set md5 c q r tk dts k now) = max_size c"
  using insert_after_evict_bounded[OF assms, of evict_lru] evict_lru_shrinks[of c]
  by (simp add: QueryResponseCache_set_def Let_def)

lemma DocumentCache_set_bounded:
  assumes "1 \<le> max_size c" "int (length (cache c)) \<le> max_size c"
  shows "int (length (cache (DocumentCache_set md5 c q docs tk dts now))) \<le> max_size c
         \<and> max_size (DocumentCache_set md5 c q docs tk dts now) = max_size c"
  using insert_after_evict_bounded[OF assms, of evict_oldest] evict_oldest_shrinks[of c]
  by (simp add: DocumentCache_set_def Let_def)

lemma EmbeddingCache_run_bounded:
  "1 \<le> max_size c \<Longrightarrow> int (length (cache c)) \<le> max_size c \<Longrightarrow>
   int (length (cache (EmbeddingCache_run md5 c ops))) \<le> max_size c"
proof (induction ops arbitrary: c)
  case Nil
  then show ?case by simp
next
  case (Cons x ops)
  show ?case
  proof (cases x)
    case (EmbGet tx now)
    let ?c = "snd (EmbeddingCache_get md5 c tx now)"
    have "int (length (cache ?c)) \<le> max_size ?c" "1 \<le> max_size ?c"
      using Cons.prems cache_get_size[of c "EmbeddingCache_generate_key md5 tx" now]
      by (simp_all add: EmbeddingCache_get_def)
    from Cons.IH[OF this(2) this(1)] show ?thesis
      using EmbGet by (simp add: EmbeddingCache_get_def)
  next
    case (EmbSet tx emb now)
    let ?c = "EmbeddingCache_set md5 c tx emb now"
    have "int (length (cache ?c)) \<le> max_size ?c" "1 \<le> max_size ?c"
      using EmbeddingCache_set_bounded[OF Cons.prems, of md5 tx emb now] Cons.prems by simp_all
    from Cons.IH[OF this(2) this(1)] show ?thesis
      using EmbSet EmbeddingCache_set_bounded[OF Cons.prems, of md5 tx emb now] by simp
  qed
qed


lemma EmbeddingCache_run_max_size [simp]:
  "max_size (EmbeddingCache_run md5 c ops) = max_size c"
proof (induction ops arbitrary: c)
  case Nil
  then show ?case by simp
next
  case (Cons x ops)
  then show ?case
    by (cases x) (simp_all add: EmbeddingCache_get_def EmbeddingCache_set_def Let_def)
qed

lemma QueryResponseCache_run_max_size [simp]:
  "max_size (QueryResponseCache_run md5 c ops) = max_size c"
proof (induction ops arbitrary: c)
  case Nil
  then show ?case by simp
next
  case (Cons x ops)
  then show ?case
    by (cases x) (simp_all add: QueryResponseCache_get_def QueryResponseCache_set_def Let_def)
qed

lemma DocumentCache_run_max_size [simp]:
  "max_size (DocumentCache_run md5 c ops) = max_size c"
proof (induction ops arbitrary: c)
  case Nil
  then show ?case by simp
next
  case (Cons x ops)
  then show ?case
    by (cases x) (simp_all add: DocumentCache_get_def DocumentCache_set_def Let_def)
qed

lemma QueryResponseCache_run_bounded:
  "1 \<le> max_size c \<Longrightarrow> int (length (cache c)) \<le> max_size c \<Longrightarrow>
   int (length (cache (QueryResponseCache_run md5 c ops))) \<le> max_size c"
proof (induction ops arbitrary: c)
  case Nil
  then show ?case by simp
next
  case (Cons x ops)
  show ?case
  proof (cases x)
    case (RespGet q tk dts k now)
    let ?c = "snd (QueryResponseCache_get md5 c q tk dts k now)"
    have "int (length (cache ?c)) \<le> max_size ?c" "1 \<le> max_size ?c"
      using Cons.prems cache_get_size[of c "QueryResponseCache_generate_key md5 q tk dts k" now]
      by (simp_all add: QueryResponseCache_get_def)
    from Cons.IH[OF this(2) this(1)] show ?thesis
      using RespGet by (simp add: QueryResponseCache_get_def)
  next
    case (RespSet q r tk dts k now)
    let ?c = "QueryResponseCache_set md5 c q r tk dts k now"
    have "int (length (cache ?c)) \<le> max_size ?c" "1 \<le> max_size ?c"
      using QueryResponseCache_set_bounded[OF Cons.prems, of md5 q r tk dts k now] Cons.prems
      by simp_all
    from Cons.IH[OF this(2) this(1)] show ?thesis
      using RespSet QueryResponseCache_set_bounded[OF Cons.prems, of md5 q r tk dts k now] by simp
  qed
qed

lemma DocumentCache_run_bounded:
  "1 \<le> max_size c \<Longrightarrow> int (length (cache c)) \<le> max_size c \<Longrightarrow>
   int (length (cache (DocumentCache_run md5 c ops))) \<le> max_size c"
proof (induction ops arbitrary: c)
  case Nil
  then show ?case by simp
next
  case (Cons x ops)
  show ?case
  proof (cases x)
    case (DocGet q tk dts now)
    let ?c = "snd (DocumentCache_get md5 c q tk dts now)"
    have "int (length (cache ?c)) \<le> max_size ?c" "1 \<le> max_size ?c"
      using Cons.prems cache_get_size[of c "DocumentCache_generate_key md5 q tk dts" now]
      by (simp_all add: DocumentCache_get_def)
    from Cons.IH[OF this(2) this(1)] show ?thesis
      using DocGet by (simp add: DocumentCache_get_def)
  next
    case (DocSet q r tk dts now)
    let ?c = "DocumentCache_set md5 c q r tk dts now"
    have "int (length (cache ?c)) \<le> max_size ?c" "1 \<le> max_size ?c"
      using DocumentCache_set_bounded[OF Cons.prems, of md5 q r tk dts now] Cons.prems
      by simp_all
    from Cons.IH[OF this(2) this(1)] show ?thesis
      using DocSet DocumentCache_set_bounded[OF Cons.prems, of md5 q r tk dts now] by simp
  qed
qed

text \<open>
  C3. For each of the three caches (embedding, response, document) with \<open>max_size \<ge> 1\<close>,
  starting from any state that holds at most \<open>max_size\<close> entries, the number of stored
  entries is at most \<open>max_size\<close> after every sequence of \<open>get\<close> and \<open>set\<close> calls, and so
  immediately after any \<open>set\<close> call made then: the eviction before the insert removes at
  least one entry when the table is at capacity, and the insert adds at most one.
\<close>

theorem cache_size_bounded_after_set:
  assumes "1 \<le> max_size ce" "int (length (cache ce)) \<le> max_size ce"
    and "1 \<le> max_size cr" "int (length (cache cr)) \<le> max_size cr"
    and "1 \<le> max_size cd" "int (length (cache cd)) \<le> max_size cd"
  shows "int (length (cache (EmbeddingCache_run md5 ce eops))) \<le> max_size ce
         \<and> int (length (cache (EmbeddingCache_set md5 (EmbeddingCache_run md5 ce eops) tx emb now)))
               \<le> max_size ce
         \<and> int (length (cache (QueryResponseCache_run md5 cr rops))) \<le> max_size cr
         \<and> int (length (cache (QueryResponseCache_set md5 (QueryResponseCache_run md5 cr rops)
                                   q response tk dts k now))) \<le> max_size cr
         \<and> int (length (cache (DocumentCache_run md5 cd dops))) \<le> max_size cd
         \<and> int (length (cache (DocumentCache_set md5 (DocumentCache_run md5 cd dops)
                                   q documents tk dts now))) \<le> max_size cd"
proof -
  have e: "int (length (cache (EmbeddingCache_run md5 ce eops))) \<le> max_size ce"
    using assms(1,2) by (rule EmbeddingCache_run_bounded)
  have r: "int (length (cache (QueryResponseCache_run md5 cr rops))) \<le> max_size cr"
    using assms(3,4) by (rule QueryResponseCache_run_bounded)
  have d: "int (length (cache (DocumentCache_run md5 cd dops))) \<le> max_size cd"
    using assms(5,6) by (rule DocumentCache_run_bounded)
  have e': "int (length (cache (EmbeddingCache_set md5 (EmbeddingCache_run md5 ce eops) tx emb now)))
               \<le> max_size ce"
    using EmbeddingCache_set_bounded[of "EmbeddingCache_run md5 ce eops" md5 tx emb now] e assms(1)
    by simp
  have r': "int (length (cache (QueryResponseCache_set md5 (QueryResponseCache_run md5 cr rops)
                                   q response tk dts k now))) \<le> max_size cr"
    using QueryResponseCache_set_bounded[of "QueryResponseCache_run md5 cr rops" md5 q response tk dts k now]
      r assms(3)
    by simp
  have d': "int (length (cache (DocumentCache_set md5 (DocumentCache_run md5 cd dops)
                                   q documents tk dts now))) \<le> max_size cd"
    using DocumentCache_set_bounded[of "DocumentCache_run md5 cd dops" md5 q documents tk dts now]
      d assms(5)
    by simp
  show ?thesis using e e' r r' d d' by simp
qed

lemma ex_embedding_cache_run: "map fst (cache (EmbeddingCache_set ex_md5
            (EmbeddingCache_run ex_md5 (ex_empty_cache 2 60) [EmbSet ''A '' [1] 0, EmbSet ''b'' [2] 1, EmbGet ''b'' 2])
            ''c'' [3] 3)) = [''b'', ''c'']"
  by (simp add: EmbeddingCache_set_def EmbeddingCache_get_def cache_get_def ex_empty_cache_def ex_md5_def Let_def
      EmbeddingCache_generate_key_def py_strip_def py_lower_def lower_char_def py_isspace_def
      evict_oldest_def py_sorted_def py_slice_to_def created_of_def new_entry_def is_expired_def increment_hits_def)

lemma ex_response_cache_run: "map fst (cache (QueryResponseCache_set ex_md5
            (QueryResponseCache_run ex_md5 (ex_empty_cache 2 60 :: nat Cache) [RespSet ''a'' 1 None None 5 0, RespSet ''b'' 2 None None 5 1, RespGet ''a'' None None 5 2])
            ''c'' 3 None None 5 3)) = [''a|||5'', ''c|||5'']"
  by (simp add: QueryResponseCache_set_def QueryResponseCache_get_def cache_get_def ex_empty_cache_def ex_md5_def Let_def
      QueryResponseCache_generate_key_def py_strip_def py_lower_def lower_char_def py_isspace_def
      evict_lru_def py_sorted_def py_slice_to_def created_of_def hit_count_of_def new_entry_def is_expired_def increment_hits_def str_int_def str_nat.simps digit_char_def)

theorem cache_size_bounded_after_set_witness:
  "1 \<le> max_size (ex_empty_cache 2 60 :: real list Cache)
   \<and> int (length (cache (ex_empty_cache 2 60 :: real list Cache)))
         \<le> max_size (ex_empty_cache 2 60 :: real list Cache)
   \<and> 1 \<le> max_size (ex_empty_cache 2 60 :: nat Cache)
   \<and> int (length (cache (ex_empty_cache 2 60 :: nat Cache))) \<le> max_size (ex_empty_cache 2 60 :: nat Cache)
   \<and> int (length (cache (EmbeddingCache_set ex_md5
          (EmbeddingCache_run ex_md5 (ex_empty_cache 2 60)
             [EmbSet ''A '' [1] 0, EmbSet ''b'' [2] 1, EmbGet ''b'' 2])
          ''c'' [3] 3))) \<le> 2
   \<and> map fst (cache (EmbeddingCache_set ex_md5
          (EmbeddingCache_run ex_md5 (ex_empty_cache 2 60)
             [EmbSet ''A '' [1] 0, EmbSet ''b'' [2] 1, EmbGet ''b'' 2])
          ''c'' [3] 3)) = [''b'', ''c'']
   \<and> int (length (cache (QueryResponseCache_set ex_md5
          (QueryResponseCache_run ex_md5 (ex_empty_cache 2 60 :: nat Cache)
             [RespSet ''a'' 1 None None 5 0, RespSet ''b'' 2 None None 5 1, RespGet ''a'' None None 5 2])
          ''c'' 3 None None 5 3))) \<le> 2
   \<and> map fst (cache (QueryResponseCache_set ex_md5
          (QueryResponseCache_run ex_md5 (ex_empty_cache 2 60 :: nat Cache)
             [RespSet ''a'' 1 None None 5 0, RespSet ''b'' 2 None None 5 1, RespGet ''a'' None None 5 2])
          ''c'' 3 None None 5 3)) = [''a|||5'', ''c|||5'']
   \<and> int (length (cache (DocumentCache_set ex_md5
          (DocumentCache_run ex_md5 (ex_empty_cache 2 60 :: nat Cache) [])
          ''c'' 3 None None 3))) \<le> 2"
proof -
  have h1: "1 \<le> max_size (ex_empty_cache 2 60 :: real list Cache)"
    and h2: "int (length (cache (ex_empty_cache 2 60 :: real list Cache)))
               \<le> max_size (ex_empty_cache 2 60 :: real list Cache)"
    and h3: "1 \<le> max_size (ex_empty_cache 2 60 :: nat Cache)"
    and h4: "int (length (cache (ex_empty_cache 2 60 :: nat Cache)))
               \<le> max_size (ex_empty_cache 2 60 :: nat Cache)"
    by (simp_all add: ex_empty_cache_def)
  have m: "max_size (ex_empty_cache 2 60 :: real list Cache) = 2"
    "max_size (ex_empty_cache 2 60 :: nat Cache) = 2"
    by (simp_all add: ex_empty_cache_def)
  note b = cache_size_bounded_after_set[OF h1 h2 h3 h4 h3 h4, of ex_md5
      "[EmbSet ''A '' [1] 0, EmbSet ''b'' [2] 1, EmbGet ''b'' 2]" "''c''" "[3]" 3
      "[RespSet ''a'' 1 None None 5 0, RespSet ''b'' 2 None None 5 1, RespGet ''a'' None None 5 2]"
      "''c''" 3 None None 5 "[]" 3]
  show ?thesis
    using b h1 h2 h3 h4 ex_embedding_cache_run ex_response_cache_run
    unfolding m by blast
qed

text \<open>
  With \<open>max_size = 0\<close> the bound fails: the empty table is at capacity, the eviction
  finds nothing to remove, and the insert leaves one entry.
\<close>

theorem cache_size_exceeded_at_zero_capacity:
  "int (length (cache (ex_empty_cache 0 60 :: real list Cache))) \<le> max_size (ex_empty_cache 0 60 :: real list Cache)
   \<and> \<not> int (length (cache (EmbeddingCache_set ex_md5 (ex_empty_cache 0 60) ''a'' [1] 0)))
         \<le> max_size (ex_empty_cache 0 60 :: real list Cache)"
  by (simp add: EmbeddingCache_set_def ex_empty_cache_def Let_def evict_oldest_def py_sorted_def
      py_slice_to_def)

section \<open>Citation tracker\<close>

lemma first_seen_from_extends: "\<exists>zs. first_seen_from ks xs = ks @ zs"
proof (induction xs arbitrary: ks)
  case Nil
  then show ?case by simp
next
  case (Cons x xs)
  obtain zs where "first_seen_from (if x \<in> set ks then ks else ks @ [x]) xs
                     = (if x \<in> set ks then ks else ks @ [x]) @ zs"
    using Cons.IH by blast
  then show ?case by (cases "x \<in> set ks") auto
qed

lemma first_seen_from_distinct: "distinct ks \<Longrightarrow> distinct (first_seen_from ks xs)"
  by (induction xs arbitrary: ks) auto

lemma first_seen_from_set: "set (first_seen_from ks xs) = set ks \<union> set xs"
  by (induction xs arbitrary: ks) auto

lemma first_seen_from_distinct_input:
  "distinct (ks @ xs) \<Longrightarrow> first_seen_from ks xs = ks @ xs"
  by (induction xs arbitrary: ks) auto

lemma first_seen_properties:
  "distinct (first_seen xs) \<and> set (first_seen xs) = set xs"
  by (simp add: first_seen_def first_seen_from_distinct first_seen_from_set)

lemma position_append: "k \<in> set ks \<Longrightarrow> position k (ks @ zs) = position k ks"
  by (induction ks) auto

lemma position_fresh: "k \<notin> set ks \<Longrightarrow> position k (ks @ [k]) = length ks"
  by (induction ks) auto

lemma position_nth: "distinct xs \<Longrightarrow> i < length xs \<Longrightarrow> position (xs ! i) xs = i"
proof (induction xs arbitrary: i)
  case Nil
  then show ?case by simp
next
  case (Cons x xs)
  then show ?case by (cases i) auto
qed

lemma position_less: "k \<in> set xs \<Longrightarrow> position k xs < length xs"
  by (induction xs) auto

lemma nth_position: "k \<in> set xs \<Longrightarrow> xs ! position k xs = k"
  by (induction xs) auto

lemma position_first_seen_from:
  "k \<in> set ks \<Longrightarrow> position k (first_seen_from ks xs) = position k ks"
  using first_seen_from_extends[of ks xs] position_append by metis

lemma tracker_ok_new: "tracker_ok new_tracker"
  by (simp add: tracker_ok_def keys_of_def new_tracker_def)

lemma add_document_known:
  assumes "tracker_ok t" "create_doc_key d \<in> set (keys_of t)"
  shows "add_document t d = (Suc (position (create_doc_key d) (keys_of t)), t)"
  using assms by (simp add: add_document_def tracker_ok_def)

lemma add_document_new:
  assumes "tracker_ok t" "create_doc_key d \<notin> set (keys_of t)"
  shows "fst (add_document t d) = Suc (length (keys_of t))"
    and "keys_of (snd (add_document t d)) = keys_of t @ [create_doc_key d]"
    and "sources (snd (add_document t d)) = sources t @ [d]"
    and "tracker_ok (snd (add_document t d))"
proof -
  have none: "map_of (source_map t) (create_doc_key d) = None"
    using assms by (simp add: tracker_ok_def)
  show "fst (add_document t d) = Suc (length (keys_of t))"
    using none by (simp add: add_document_def keys_of_def)
  show k: "keys_of (snd (add_document t d)) = keys_of t @ [create_doc_key d]"
    using none by (simp add: add_document_def keys_of_def)
  show "sources (snd (add_document t d)) = sources t @ [d]"
    using none by (simp add: add_document_def)
  have m: "source_map (snd (add_document t d))
             = AList.update (create_doc_key d) (Suc (length (keys_of t))) (source_map t)"
    using none by (simp add: add_document_def keys_of_def)
  show "tracker_ok (snd (add_document t d))"
    unfolding tracker_ok_def k m
    using assms
    by (auto simp: tracker_ok_def AList.update_conv' position_append position_fresh)
qed

lemma add_document_step:
  assumes "tracker_ok t"
  shows "keys_of (snd (add_document t d)) = first_seen_from (keys_of t) [create_doc_key d]"
    and "tracker_ok (snd (add_document t d))"
    and "fst (add_document t d)
           = Suc (position (create_doc_key d) (keys_of (snd (add_document t d))))"
proof -
  show "keys_of (snd (add_document t d)) = first_seen_from (keys_of t) [create_doc_key d]"
    using add_document_known[OF assms] add_document_new(2)[OF assms]
    by (cases "create_doc_key d \<in> set (keys_of t)") auto
  show "tracker_ok (snd (add_document t d))"
    using add_document_known[OF assms] add_document_new(4)[OF assms] assms
    by (cases "create_doc_key d \<in> set (keys_of t)") auto
  show "fst (add_document t d)
           = Suc (position (create_doc_key d) (keys_of (snd (add_document t d))))"
    using add_document_known[OF assms] add_document_new(1,2)[OF assms]
    by (cases "create_doc_key d \<in> set (keys_of t)") (auto simp: position_fresh)
qed

lemma add_documents_from:
  assumes "tracker_ok t"
  shows "keys_of (snd (add_documents t docs))
           = first_seen_from (keys_of t) (map create_doc_key docs)
         \<and> tracker_ok (snd (add_documents t docs))
         \<and> fst (add_documents t docs)
             = map (\<lambda>d. Suc (position (create_doc_key d) (keys_of (snd (add_documents t docs))))) docs"
  using assms
proof (induction docs arbitrary: t)
  case Nil
  then show ?case by simp
next
  case (Cons d docs)
  let ?t1 = "snd (add_document t d)"
  let ?t2 = "snd (add_documents ?t1 docs)"
  have ok1: "tracker_ok ?t1" using add_document_step(2)[OF Cons.prems] .
  have k1: "keys_of ?t1 = first_seen_from (keys_of t) [create_doc_key d]"
    using add_document_step(1)[OF Cons.prems] .
  have id1: "fst (add_document t d) = Suc (position (create_doc_key d) (keys_of ?t1))"
    using add_document_step(3)[OF Cons.prems] .
  note ih = Cons.IH[OF ok1]
  have unfold: "add_documents t (d # docs)
                  = (fst (add_document t d) # fst (add_documents ?t1 docs), ?t2)"
    by (simp add: case_prod_beta)
  have din: "create_doc_key d \<in> set (keys_of ?t1)"
    using k1 by simp
  have k2: "keys_of ?t2 = first_seen_from (keys_of ?t1) (map create_doc_key docs)"
    using ih by simp
  have pos: "position (create_doc_key d) (keys_of ?t2) = position (create_doc_key d) (keys_of ?t1)"
    unfolding k2 using din by (rule position_first_seen_from)
  show ?case
    unfolding unfold using ih k1 id1 pos by simp
qed

lemma format_loop_add_documents:
  "format_loop (parts, t) docs
     = (parts @ map2 source_block (fst (add_documents t docs)) docs, snd (add_documents t docs))"
proof (induction docs arbitrary: parts t)
  case Nil
  then show ?case by simp
next
  case (Cons d docs)
  show ?case
    by (simp add: case_prod_beta Cons.IH)
qed

lemma positions_of_distinct:
  "distinct xs \<Longrightarrow> map (\<lambda>k. Suc (position k xs)) xs = [1..<Suc (length xs)]"
proof (rule nth_equalityI)
  show "length (map (\<lambda>k. Suc (position k xs)) xs) = length [1..<Suc (length xs)]"
    by (simp del: upt_Suc)
next
  fix i
  assume d: "distinct xs" and "i < length (map (\<lambda>k. Suc (position k xs)) xs)"
  then have i: "i < length xs" by simp
  have "[1..<Suc (length xs)] ! i = 1 + i"
    using i by (intro nth_upt) simp
  then show "map (\<lambda>k. Suc (position k xs)) xs ! i = [1..<Suc (length xs)] ! i"
    using i d by (simp add: position_nth del: upt_Suc)
qed

text \<open>
  C7. For every tracker and every sequence of added passages: a passage whose key
  \<open>filename_chunk_id\<close> equals that of a passage added before gets the same \<open>source_id\<close> and
  leaves the tracker as it is; on a fresh tracker the identifiers are 1-based and follow the
  first-seen order of the keys, each new key getting the next number; and the output of
  \<open>format_context_with_citations\<close> is one block \<open>[Source N] content\<close> per input document,
  in input order and joined by blank lines, where \<open>N\<close> is the identifier of that document,
  so a passage that occurs twice in the input has its marker twice, and documents with
  pairwise different keys are numbered \<open>1, ..., n\<close>.
\<close>

theorem citation_ids_first_seen:
  "(\<forall>t d d'. create_doc_key d' = create_doc_key d \<longrightarrow>
       add_document (snd (add_document t d)) d' = (fst (add_document t d), snd (add_document t d)))
   \<and> fst (add_documents new_tracker docs)
       = map (\<lambda>d. Suc (position (create_doc_key d) (first_seen (map create_doc_key docs)))) docs
   \<and> map create_doc_key (sources (snd (add_documents new_tracker docs)))
       = first_seen (map create_doc_key docs)
   \<and> format_context_with_citations new_tracker docs
       = (py_join [newline, newline] (map2 source_block (fst (add_documents new_tracker docs)) docs),
          snd (add_documents new_tracker docs))
   \<and> (distinct (map create_doc_key docs) \<longrightarrow>
        fst (add_documents new_tracker docs) = [1..<Suc (length docs)])"
proof -
  have idem: "\<forall>t d d'. create_doc_key d' = create_doc_key d \<longrightarrow>
       add_document (snd (add_document t d)) d' = (fst (add_document t d), snd (add_document t d))"
    by (auto simp: add_document_def Let_def AList.update_conv' split: option.splits)
  note a = add_documents_from[OF tracker_ok_new, of docs]
  have k0: "keys_of new_tracker = []" by (simp add: keys_of_def new_tracker_def)
  have keys: "keys_of (snd (add_documents new_tracker docs)) = first_seen (map create_doc_key docs)"
    using a by (simp add: k0 first_seen_def)
  have ids: "fst (add_documents new_tracker docs)
       = map (\<lambda>d. Suc (position (create_doc_key d) (first_seen (map create_doc_key docs)))) docs"
    using a keys by simp
  have fmt: "format_context_with_citations new_tracker docs
       = (py_join [newline, newline] (map2 source_block (fst (add_documents new_tracker docs)) docs),
          snd (add_documents new_tracker docs))"
    by (simp add: format_context_with_citations_def format_loop_add_documents)
  have dist: "distinct (map create_doc_key docs) \<longrightarrow>
        fst (add_documents new_tracker docs) = [1..<Suc (length docs)]"
  proof
    assume d: "distinct (map create_doc_key docs)"
    then have fs: "first_seen (map create_doc_key docs) = map create_doc_key docs"
      using first_seen_from_distinct_input[of "[]" "map create_doc_key docs"]
      by (simp add: first_seen_def)
    have "map (\<lambda>k. Suc (position k (map create_doc_key docs))) (map create_doc_key docs)
            = [1..<Suc (length docs)]"
      using positions_of_distinct[OF d] by simp
    then show "fst (add_documents new_tracker docs) = [1..<Suc (length docs)]"
      unfolding ids fs by (simp add: comp_def)
  qed
  show ?thesis
    using idem ids keys fmt dist by (simp add: keys_of_def)
qed

theorem citation_ids_first_seen_witness:
  "create_doc_key (ex_doc ''a.md'' ''0'' ''alpha again'' None)
     = create_doc_key (ex_doc ''a.md'' ''0'' ''alpha'' None)
   \<and> add_document (snd (add_document new_tracker (ex_doc ''a.md'' ''0'' ''alpha'' None)))
         (ex_doc ''a.md'' ''0'' ''alpha again'' None)
       = (1, snd (add_document new_tracker (ex_doc ''a.md'' ''0'' ''alpha'' None)))
   \<and> distinct (map create_doc_key ex_two_docs)
   \<and> fst (add_documents new_tracker ex_two_docs) = [1, 2]
   \<and> fst (format_context_with_citations new_tracker ex_two_docs)
       = ''[Source 1] alpha'' @ [newline, newline] @ ''[Source 2] beta''"
proof -
  have same: "create_doc_key (ex_doc ''a.md'' ''0'' ''alpha again'' None)
                = create_doc_key (ex_doc ''a.md'' ''0'' ''alpha'' None)"
    by (simp add: create_doc_key_def ex_doc_def)
  have first: "fst (add_document new_tracker (ex_doc ''a.md'' ''0'' ''alpha'' None)) = 1"
    by (simp add: add_document_def new_tracker_def)
  have dist: "distinct (map create_doc_key ex_two_docs)"
    by (simp add: ex_two_docs_def create_doc_key_def ex_doc_def)
  note c = citation_ids_first_seen[of ex_two_docs]
  have idem: "add_document (snd (add_document new_tracker (ex_doc ''a.md'' ''0'' ''alpha'' None)))
         (ex_doc ''a.md'' ''0'' ''alpha again'' None)
       = (fst (add_document new_tracker (ex_doc ''a.md'' ''0'' ''alpha'' None)),
          snd (add_document new_tracker (ex_doc ''a.md'' ''0'' ''alpha'' None)))"
    using c same by blast
  have ids: "fst (add_documents new_tracker ex_two_docs) = [1, 2]"
  proof -
    have "fst (add_documents new_tracker ex_two_docs) = [1..<Suc (length ex_two_docs)]"
      using c dist by blast
    then show ?thesis by (simp add: ex_two_docs_def upt_rec)
  qed
  have fmt: "fst (format_context_with_citations new_tracker ex_two_docs)
       = py_join [newline, newline]
           (map2 source_block (fst (add_documents new_tracker ex_two_docs)) ex_two_docs)"
    using c by simp
  have "fst (format_context_with_citations new_tracker ex_two_docs)
       = ''[Source 1] alpha'' @ [newline, newline] @ ''[Source 2] beta''"
    unfolding fmt ids
    by (simp add: ex_two_docs_def source_block_def ex_doc_def str_nat.simps digit_char_def)
  then show ?thesis
    using same idem first dist ids by simp
qed

text \<open>
  The same passage given twice to \<open>format_context_with_citations\<close>: one unique passage,
  and the marker \<open>[Source 1]\<close> occurs twice in the output.
\<close>

theorem citation_marker_repeated:
  "fst (format_context_with_citations new_tracker
          [ex_doc ''a.md'' ''0'' ''alpha'' None, ex_doc ''a.md'' ''0'' ''alpha'' None])
     = ''[Source 1] alpha'' @ [newline, newline] @ ''[Source 1] alpha''
   \<and> count_occurrences ''[Source ''
        (fst (format_context_with_citations new_tracker
               [ex_doc ''a.md'' ''0'' ''alpha'' None, ex_doc ''a.md'' ''0'' ''alpha'' None])) = 2
   \<and> length (sources (snd (format_context_with_citations new_tracker
               [ex_doc ''a.md'' ''0'' ''alpha'' None, ex_doc ''a.md'' ''0'' ''alpha'' None]))) = 1"
  by (simp add: format_context_with_citations_def add_document_def new_tracker_def
      create_doc_key_def ex_doc_def source_block_def str_nat.simps digit_char_def newline_def)

section \<open>Retriever\<close>

lemma evict_oldest_ttl: "ttl (evict_oldest c) = ttl c"
  by (simp add: evict_oldest_def Let_def)

lemma cache_get_ttl: "ttl (snd (cache_get c key now)) = ttl c"
  by (auto simp: cache_get_def split: option.splits)

lemma DocumentCache_set_stores:
  "map_of (cache (DocumentCache_set md5 c q docs tk dts now)) (DocumentCache_generate_key md5 q tk dts)
     = Some (new_entry docs (ttl c) now)"
  by (simp add: DocumentCache_set_def Let_def AList.update_conv' evict_oldest_ttl)

lemma cache_get_hit:
  "map_of (cache c) key = Some entry \<Longrightarrow> \<not> is_expired entry now \<Longrightarrow>
   fst (cache_get c key now) = Some (val entry)"
  by (simp add: cache_get_def)

lemma cache_get_miss:
  "map_of (cache c) key = None \<or> (\<exists>entry. map_of (cache c) key = Some entry \<and> is_expired entry now) \<Longrightarrow>
   fst (cache_get c key now) = None"
  by (auto simp: cache_get_def)

text \<open>
  What the body of \<open>retrieve\<close> does for settings that declare \<open>ENABLE_DOCUMENT_CACHE\<close> as
  true. When the normalised \<open>(query, ticker, doc_types)\<close> key is in the document cache
  with an entry that has not expired, the result is \<open>cached_docs[:top_k]\<close>, the first
  \<open>top_k\<close> elements of the cached list for \<open>top_k \<ge> 0\<close>, and no call is made to the
  vector store. When the key is absent or expired and the vector store returns its
  results, the result is the list of the returned documents, in order and in full, each
  with its score written as \<open>similarity_score\<close> into its metadata and nothing else
  changed; that list is the value stored under the key, and one call was made to the
  vector store.
\<close>

lemma retrieve_declared_hit_and_miss:
  assumes "ENABLE_DOCUMENT_CACHE cfg = Some True"
  shows "(\<forall>entry.
            map_of (cache (document_cache st)) (DocumentCache_generate_key md5 q tk dts) = Some entry
            \<and> \<not> is_expired entry now \<longrightarrow>
              fst (retrieve cfg md5 search st q tk dts top_k now) = Inr (py_slice_to top_k (val entry))
              \<and> search_calls (snd (retrieve cfg md5 search st q tk dts top_k now)) = search_calls st
              \<and> (0 \<le> top_k \<longrightarrow>
                   fst (retrieve cfg md5 search st q tk dts top_k now)
                     = Inr (take (nat top_k) (val entry))))
         \<and> (\<forall>results.
              (map_of (cache (document_cache st)) (DocumentCache_generate_key md5 q tk dts) = None
               \<or> (\<exists>entry. map_of (cache (document_cache st)) (DocumentCache_generate_key md5 q tk dts)
                             = Some entry \<and> is_expired entry now))
              \<and> search q top_k (build_filter_expression tk dts) = Inr results \<longrightarrow>
                fst (retrieve cfg md5 search st q tk dts top_k now)
                  = Inr (map (\<lambda>r. (fst r)\<lparr>metadata :=
                                     (metadata (fst r))\<lparr>meta_similarity_score := Some (snd r)\<rparr>\<rparr>)
                           results)
                \<and> map_of (cache (document_cache (snd (retrieve cfg md5 search st q tk dts top_k now))))
                     (DocumentCache_generate_key md5 q tk dts)
                     = Some (new_entry
                               (map (\<lambda>r. (fst r)\<lparr>metadata :=
                                     (metadata (fst r))\<lparr>meta_similarity_score := Some (snd r)\<rparr>\<rparr>)
                                  results)
                               (ttl (document_cache st)) now)
                \<and> search_calls (snd (retrieve cfg md5 search st q tk dts top_k now))
                     = search_calls st @ [(q, top_k, build_filter_expression tk dts)])"
proof -
  let ?key = "DocumentCache_generate_key md5 q tk dts"
  let ?get = "cache_get (document_cache st) ?key now"
  have hit: "fst (retrieve cfg md5 search st q tk dts top_k now) = Inr (py_slice_to top_k (val entry))
             \<and> search_calls (snd (retrieve cfg md5 search st q tk dts top_k now)) = search_calls st"
    if "map_of (cache (document_cache st)) ?key = Some entry" "\<not> is_expired entry now" for entry
  proof -
    have "fst ?get = Some (val entry)" using that by (rule cache_get_hit)
    then show ?thesis
      using assms
      by (simp add: retrieve_def retrieve_declared_def DocumentCache_get_def case_prod_beta)
  qed
  have docs: "map attach_score results
                = map (\<lambda>r. (fst r)\<lparr>metadata :=
                              (metadata (fst r))\<lparr>meta_similarity_score := Some (snd r)\<rparr>\<rparr>) results"
    for results :: "(Document \<times> real) list"
    by (simp add: attach_score_def case_prod_beta)
  have miss: "fst (retrieve cfg md5 search st q tk dts top_k now) = Inr (map attach_score results)
              \<and> map_of (cache (document_cache (snd (retrieve cfg md5 search st q tk dts top_k now)))) ?key
                   = Some (new_entry (map attach_score results) (ttl (document_cache st)) now)
              \<and> search_calls (snd (retrieve cfg md5 search st q tk dts top_k now))
                   = search_calls st @ [(q, top_k, build_filter_expression tk dts)]"
    if "map_of (cache (document_cache st)) ?key = None
        \<or> (\<exists>entry. map_of (cache (document_cache st)) ?key = Some entry \<and> is_expired entry now)"
      "search q top_k (build_filter_expression tk dts) = Inr results" for results
  proof -
    have "fst ?get = None" using that(1) by (rule cache_get_miss)
    then show ?thesis
      using assms that(2)
      by (simp add: retrieve_def retrieve_declared_def DocumentCache_get_def case_prod_beta Let_def
          DocumentCache_set_stores cache_get_ttl)
  qed
  show ?thesis
    using hit miss unfolding docs by (simp add: py_slice_to_nonneg)
qed

text \<open>
  C8. For every \<open>retrieve\<close> call whose key hits the document cache the result is to be
  the first \<open>top_k\<close> elements of the cached list, with no call to the vector store; on a
  miss the full result of the vector store is to be written to the cache. The code does
  this only behind \<open>settings.ENABLE_DOCUMENT_CACHE\<close>, and the settings of \<open>config.py\<close> have
  no such attribute: with them every call of \<open>retrieve\<close> raises \<open>AttributeError\<close> at its
  first statement. Here the document cache holds five documents under the key of the
  query, written at time 0 with a time to live of 7200 seconds; the call at time 10 for
  \<open>top_k = 3\<close> raises instead of returning the first three of them, and so does the call
  on the empty cache, which reaches neither the vector store nor the cache.
\<close>

theorem retrieve_raises_attribute_error:
  "ENABLE_DOCUMENT_CACHE config_settings = None
   \<and> map_of (cache (document_cache ex_cached_state))
         (DocumentCache_generate_key ex_md5 ''revenue'' None None)
       = Some (new_entry (map fst ex_results) 7200 0)
   \<and> \<not> is_expired (new_entry (map fst ex_results) 7200 0) 10
   \<and> retrieve config_settings ex_md5 ex_search ex_cached_state ''revenue'' None None 3 10
       = (Inl AttributeError, ex_cached_state)
   \<and> fst (retrieve config_settings ex_md5 ex_search ex_cached_state ''revenue'' None None 3 10)
       \<noteq> Inr (take 3 (map fst ex_results))
   \<and> map_of (cache (document_cache ex_retriever_state))
         (DocumentCache_generate_key ex_md5 ''revenue'' None None) = None
   \<and> ex_search ''revenue'' 5 (build_filter_expression None None) = Inr ex_results
   \<and> retrieve config_settings ex_md5 ex_search ex_retriever_state ''revenue'' None None 5 0
       = (Inl AttributeError, ex_retriever_state)
   \<and> search_calls (snd (retrieve config_settings ex_md5 ex_search ex_retriever_state
                          ''revenue'' None None 5 0)) = []
   \<and> cache (document_cache (snd (retrieve config_settings ex_md5 ex_search ex_retriever_state
                                    ''revenue'' None None 5 0))) = []"
proof -
  have key: "DocumentCache_generate_key ex_md5 ''revenue'' None None = ''revenue||''"
    by (simp add: DocumentCache_generate_key_def py_strip_def py_lower_def lower_char_def
        py_isspace_def ex_md5_def Let_def)
  have undeclared: "ENABLE_DOCUMENT_CACHE config_settings = None"
    by (simp add: config_settings_def)
  have raises: "retrieve config_settings ex_md5 ex_search st ''revenue'' None None k now
                  = (Inl AttributeError, st)" for st :: RetrieverState and k now
    by (simp add: retrieve_def undeclared)
  have fresh: "\<not> is_expired (new_entry (map fst ex_results) 7200 0) 10"
    by (simp add: is_expired_def new_entry_def)
  show ?thesis
    unfolding raises key
    using undeclared fresh
    by (simp add: ex_cached_state_def ex_retriever_state_def ex_empty_cache_def ex_search_def)
qed

text \<open>The same two calls for settings that declare the flag: the first stores the five
  documents with their scores and the second, for the same key, returns the first three.\<close>

lemma retrieve_declared_example:
  "fst (retrieve ex_settings ex_md5 ex_search ex_retriever_state ''revenue'' None None 5 0)
       = Inr (map attach_score ex_results)
   \<and> search_calls (snd (retrieve ex_settings ex_md5 ex_search ex_retriever_state
                          ''revenue'' None None 5 0))
       = [(''revenue'', 5, None)]
   \<and> fst (retrieve ex_settings ex_md5 ex_search
             (snd (retrieve ex_settings ex_md5 ex_search ex_retriever_state ''revenue'' None None 5 0))
             '' Revenue'' None None 3 10)
       = Inr (take 3 (map attach_score ex_results))
   \<and> search_calls (snd (retrieve ex_settings ex_md5 ex_search
             (snd (retrieve ex_settings ex_md5 ex_search ex_retriever_state ''revenue'' None None 5 0))
             '' Revenue'' None None 3 10))
       = [(''revenue'', 5, None)]"
proof -
  let ?st1 = "snd (retrieve ex_settings ex_md5 ex_search ex_retriever_state ''revenue'' None None 5 0)"
  let ?e = "new_entry (map attach_score ex_results) 7200 0"
  have en: "ENABLE_DOCUMENT_CACHE ex_settings = Some True" by (simp add: ex_settings_def)
  have docs: "map (\<lambda>r. (fst r)\<lparr>metadata :=
                              (metadata (fst r))\<lparr>meta_similarity_score := Some (snd r)\<rparr>\<rparr>) results
                = map attach_score results"
    for results :: "(Document \<times> real) list"
    by (simp add: attach_score_def case_prod_beta)
  have key: "DocumentCache_generate_key ex_md5 '' Revenue'' None None
               = DocumentCache_generate_key ex_md5 ''revenue'' None None"
    by (simp add: DocumentCache_generate_key_def py_strip_def py_lower_def lower_char_def
        py_isspace_def)
  have empty: "map_of (cache (document_cache ex_retriever_state))
                 (DocumentCache_generate_key ex_md5 ''revenue'' None None) = None"
    by (simp add: ex_retriever_state_def ex_empty_cache_def)
  have found: "ex_search ''revenue'' 5 (build_filter_expression None None) = Inr ex_results"
    by (simp add: ex_search_def)
  have nofilter: "build_filter_expression None None = None"
    by (simp add: build_filter_expression_def)
  have t: "ttl (document_cache ex_retriever_state) = 7200" "search_calls ex_retriever_state = []"
    by (simp_all add: ex_retriever_state_def ex_empty_cache_def)
  note m = retrieve_declared_hit_and_miss[OF en, of ex_retriever_state ex_md5 "''revenue''" None None 0
      ex_search 5]
  have m1: "fst (retrieve ex_settings ex_md5 ex_search ex_retriever_state ''revenue'' None None 5 0)
              = Inr (map attach_score ex_results)"
    and m2: "map_of (cache (document_cache ?st1))
               (DocumentCache_generate_key ex_md5 ''revenue'' None None) = Some ?e"
    and m3: "search_calls ?st1 = [(''revenue'', 5, None)]"
    using m empty found unfolding t nofilter docs by auto
  have fresh: "\<not> is_expired ?e 10"
    by (simp add: is_expired_def new_entry_def)
  have m2': "map_of (cache (document_cache ?st1))
               (DocumentCache_generate_key ex_md5 '' Revenue'' None None) = Some ?e"
    using m2 key by simp
  note h = retrieve_declared_hit_and_miss[OF en, of ?st1 ex_md5 "'' Revenue''" None None 10 ex_search 3]
  have h1: "fst (retrieve ex_settings ex_md5 ex_search ?st1 '' Revenue'' None None 3 10)
              = Inr (take (nat 3) (val ?e))"
    and h2: "search_calls (snd (retrieve ex_settings ex_md5 ex_search ?st1 '' Revenue'' None None 3 10))
               = search_calls ?st1"
    using h m2' fresh by auto
  have v: "val ?e = map attach_score ex_results" by (simp add: new_entry_def)
  show ?thesis
    using m1 m3 h1 h2 unfolding v by simp
qed

section \<open>The RAG chain\<close>

lemma retrieve_response_cache:
  fixes st :: AppState
  shows "response_cache (snd (retrieve cfg md5 search st q tk dts k now)) = response_cache st"
    and "conversations (snd (retrieve cfg md5 search st q tk dts k now)) = conversations st"
  by (auto simp: retrieve_def retrieve_declared_def Let_def case_prod_beta
      split: option.splits sum.splits)

lemma retrieve_ignores_response_cache:
  fixes st :: AppState
  shows "retrieve cfg md5 search (st\<lparr>response_cache := c\<rparr>) q tk dts k now
           = (fst (retrieve cfg md5 search st q tk dts k now),
              (snd (retrieve cfg md5 search st q tk dts k now))\<lparr>response_cache := c\<rparr>)"
  by (auto simp: retrieve_def retrieve_declared_def Let_def case_prod_beta
      split: option.splits sum.splits)

lemma retrieve_all_response_cache:
  fixes st :: AppState
  shows "response_cache (snd (retrieve_all cfg md5 search st qs tk dts k now acc)) = response_cache st
         \<and> conversations (snd (retrieve_all cfg md5 search st qs tk dts k now acc)) = conversations st"
proof (induction qs arbitrary: st acc)
  case Nil
  then show ?case by simp
next
  case (Cons q qs)
  obtain r st1 where r: "retrieve cfg md5 search st q tk dts k now = (r, st1)"
    by (cases "retrieve cfg md5 search st q tk dts k now")
  have f: "response_cache st1 = response_cache st" "conversations st1 = conversations st"
    using retrieve_response_cache[of cfg md5 search st q tk dts k now] r by simp_all
  show ?case
    using r f Cons.IH[of st1] by (cases r) simp_all
qed

lemma retrieve_all_ignores_response_cache:
  fixes st :: AppState
  shows "retrieve_all cfg md5 search (st\<lparr>response_cache := c\<rparr>) qs tk dts k now acc
           = (fst (retrieve_all cfg md5 search st qs tk dts k now acc),
              (snd (retrieve_all cfg md5 search st qs tk dts k now acc))\<lparr>response_cache := c\<rparr>)"
proof (induction qs arbitrary: st acc)
  case Nil
  then show ?case by simp
next
  case (Cons q qs)
  obtain r st1 where r: "retrieve cfg md5 search st q tk dts k now = (r, st1)"
    by (cases "retrieve cfg md5 search st q tk dts k now")
  then have r': "retrieve cfg md5 search (st\<lparr>response_cache := c\<rparr>) q tk dts k now
                   = (r, st1\<lparr>response_cache := c\<rparr>)"
    by (simp add: retrieve_ignores_response_cache)
  show ?case
    using r r' Cons.IH[of st1] by (cases r) simp_all
qed

lemma answer_pipeline_response_cache:
  "response_cache (snd (answer_pipeline env st request conversation)) = response_cache st"
proof -
  let ?ra = "retrieve_all (env_settings env) (env_md5 env) (env_search env) st
               (expanded_queries_of env request)
               (req_ticker request) (req_doc_types request) (RETRIEVAL_TOP_K (env_settings env))
               (clock_now env) []"
  have "snd (answer_pipeline env st request conversation) = snd ?ra"
    by (simp add: answer_pipeline_def Let_def split: prod.splits sum.splits)
  then show ?thesis
    by (simp add: retrieve_all_response_cache)
qed

lemma answer_pipeline_ignores_response_cache:
  "answer_pipeline env (st\<lparr>response_cache := c\<rparr>) request conversation
     = (fst (answer_pipeline env st request conversation),
        (snd (answer_pipeline env st request conversation))\<lparr>response_cache := c\<rparr>)"
  by (simp add: answer_pipeline_def Let_def retrieve_all_ignores_response_cache
      split: prod.splits sum.splits)

text \<open>
  C10. For every request that carries a session id (\<open>request.session_id\<close> is present and
  not empty, which is what the chain tests), \<open>process_query\<close> neither reads nor writes the
  response cache: the response cache after the call is the one before it, whatever the
  outcome, and the result and the rest of the state are the same for every content of the
  response cache. The look-up at the start and the write at the end are both guarded by
  \<open>not request.session_id\<close>. With settings that do not declare \<open>ENABLE_RESPONSE_CACHE\<close>
  the call raises at its first statement, before it reaches the cache, and the statement
  holds as well.
\<close>

theorem session_request_leaves_response_cache:
  assumes "\<not> no_session request"
  shows "response_cache (snd (process_query env st request)) = response_cache st
         \<and> fst (process_query env (st\<lparr>response_cache := c\<rparr>) request)
             = fst (process_query env st request)
         \<and> snd (process_query env (st\<lparr>response_cache := c\<rparr>) request)
             = (snd (process_query env st request))\<lparr>response_cache := c\<rparr>"
proof (cases "ENABLE_RESPONSE_CACHE (env_settings env)")
  case None
  then show ?thesis
    by (simp add: process_query_def)
next
  case (Some enabled)
  obtain sid where sid: "req_session_id request = Some sid" "sid \<noteq> []"
    using assms by (auto simp: no_session_def split: option.splits)
  let ?conv = "fst (get_or_create_conversation (conversations st) sid)"
  let ?st1 = "st\<lparr>conversations := snd (get_or_create_conversation (conversations st) sid)\<rparr>"
  let ?ap = "answer_pipeline env ?st1 request ?conv"
  obtain r st2 where r: "?ap = (r, st2)" by (cases ?ap)
  have f: "response_cache st2 = response_cache st"
    using answer_pipeline_response_cache[of env ?st1 request ?conv] r by simp
  have r': "answer_pipeline env (?st1\<lparr>response_cache := c\<rparr>) request ?conv
              = (r, st2\<lparr>response_cache := c\<rparr>)"
    using r by (simp add: answer_pipeline_ignores_response_cache)
  have sw: "st\<lparr>response_cache := c, conversations := snd (get_or_create_conversation (conversations st) sid)\<rparr>
              = ?st1\<lparr>response_cache := c\<rparr>"
    by simp
  have r'': "answer_pipeline env
               (st\<lparr>response_cache := c,
                   conversations := snd (get_or_create_conversation (conversations st) sid)\<rparr>)
               request ?conv
              = (r, st2\<lparr>response_cache := c\<rparr>)"
    unfolding sw by (rule r')
  have p: "process_query env st request
             = (case r of
                  Inl e \<Rightarrow> (Inl e, st2)
                | Inr (expanded_queries, compressed_docs, tracker, answer) \<Rightarrow>
                    (Inr \<lparr>rd_answer = answer,
                          rd_sources = get_sources_list tracker,
                          rd_query = req_query request,
                          rd_processing_time = round2 env (clock_now env - start_time env),
                          rd_expanded_queries =
                            (if length expanded_queries > 1 then Some expanded_queries else None),
                          rd_num_documents_retrieved = length compressed_docs,
                          rd_session_id = sid,
                          rd_from_cache = False\<rparr>,
                     st2\<lparr>conversations :=
                           AList.update sid
                             (add_message (add_message ?conv ''user'' (req_query request) (clock_now env))
                                ''assistant'' answer (clock_now env))
                             (conversations st2)\<rparr>))"
    using assms sid r Some
    by (simp add: process_query_def process_query_declared_def Let_def case_prod_beta
        split: sum.splits)
  have p': "process_query env (st\<lparr>response_cache := c\<rparr>) request
             = (case r of
                  Inl e \<Rightarrow> (Inl e, st2\<lparr>response_cache := c\<rparr>)
                | Inr (expanded_queries, compressed_docs, tracker, answer) \<Rightarrow>
                    (Inr \<lparr>rd_answer = answer,
                          rd_sources = get_sources_list tracker,
                          rd_query = req_query request,
                          rd_processing_time = round2 env (clock_now env - start_time env),
                          rd_expanded_queries =
                            (if length expanded_queries > 1 then Some expanded_queries else None),
                          rd_num_documents_retrieved = length compressed_docs,
                          rd_session_id = sid,
                          rd_from_cache = False\<rparr>,
                     st2\<lparr>response_cache := c, conversations :=
                           AList.update sid
                             (add_message (add_message ?conv ''user'' (req_query request) (clock_now env))
                                ''assistant'' answer (clock_now env))
                             (conversations st2)\<rparr>))"
    using assms sid r'' Some
    by (simp add: process_query_def process_query_declared_def Let_def case_prod_beta
        split: sum.splits)
  show ?thesis
    unfolding p p' using f by (cases r) (auto simp: case_prod_beta)
qed


theorem session_request_leaves_response_cache_witness:
  "\<not> no_session (ex_request (Some ''abc123''))
   \<and> response_cache (snd (process_query ex_env ex_app_state (ex_request (Some ''abc123''))))
       = response_cache ex_app_state
   \<and> no_session (ex_request None)
   \<and> fst (process_query ex_env ex_app_state (ex_request None))
       = Inr (ex_response\<lparr>rd_processing_time := 1, rd_from_cache := True\<rparr>)
   \<and> hits (response_cache (snd (process_query ex_env ex_app_state (ex_request None)))) = 1"
proof -
  have s: "\<not> no_session (ex_request (Some ''abc123''))"
    by (simp add: no_session_def ex_request_def)
  have n: "no_session (ex_request None)"
    by (simp add: no_session_def ex_request_def)
  have key: "QueryResponseCache_generate_key ex_md5 ''revenue'' None None 10 = ''revenue|||10''"
    by (simp add: QueryResponseCache_generate_key_def ex_md5_def py_strip_def py_lower_def
        lower_char_def py_isspace_def str_int_def str_nat.simps digit_char_def Let_def)
  have hit: "process_query ex_env ex_app_state (ex_request None)
       = (Inr (ex_response\<lparr>rd_processing_time := 1, rd_from_cache := True\<rparr>),
          ex_app_state\<lparr>response_cache :=
             \<lparr>cache = [(''revenue|||10'',
                        (new_entry ex_response 3600 0)
                          \<lparr>val := ex_response\<lparr>rd_processing_time := 1, rd_from_cache := True\<rparr>,
                           hit_count := 1\<rparr>)],
              max_size = 500, ttl = 3600, hits = 1, misses = 0\<rparr>\<rparr>)"
    using n
    by (simp add: process_query_def process_query_declared_def Let_def QueryResponseCache_get_def
        cache_get_def key
        ex_env_def ex_settings_def ex_app_state_def ex_request_def is_expired_def new_entry_def
        increment_hits_def)
  from session_request_leaves_response_cache[OF s, of ex_env ex_app_state]
  have "response_cache (snd (process_query ex_env ex_app_state (ex_request (Some ''abc123''))))
          = response_cache ex_app_state"
    by simp
  then show ?thesis
    using s n hit by simp
qed

section \<open>Query expander\<close>

text \<open>
  What holds of \<open>expand\<close> for every language model: the plan is never empty and starts
  with the original query; a decomposition call that raises gives \<open>[query]\<close>, and an
  expansion call that raises gives no variations. The functions are total: no exception
  leaves them.
\<close>

lemma extend_new_first: "all_queries \<noteq> [] \<Longrightarrow> extend_new all_queries vs \<noteq> [] \<and> hd (extend_new all_queries vs) = hd all_queries"
  by (simp add: extend_new_def)

lemma expand_subs_first:
  "all_queries \<noteq> [] \<Longrightarrow>
   expand_subs llm n all_queries subs \<noteq> [] \<and> hd (expand_subs llm n all_queries subs) = hd all_queries"
proof (induction subs arbitrary: all_queries)
  case Nil
  then show ?case by simp
next
  case (Cons s subs)
  let ?a1 = "if s \<notin> set all_queries then all_queries @ [s] else all_queries"
  let ?a2 = "if should_expand s then extend_new ?a1 (generate_variations llm s n) else ?a1"
  have a1: "?a1 \<noteq> [] \<and> hd ?a1 = hd all_queries" using Cons.prems by simp
  then have a2: "?a2 \<noteq> [] \<and> hd ?a2 = hd all_queries"
    using extend_new_first[of ?a1] by auto
  show ?case
    using Cons.IH[of ?a2] a2 by (simp add: Let_def)
qed

lemma expand_nonempty_original_first:
  "expand llm q n \<noteq> [] \<and> hd (expand llm q n) = q"
  using expand_subs_first[of "[q]" llm n] extend_new_first[of "[q]"]
  by (simp add: expand_def Let_def)

lemma decompose_query_degrades:
  "decompose_llm llm q = Inl e \<Longrightarrow> decompose_query llm q = [q]"
  by (simp add: decompose_query_def)

lemma decompose_query_nonempty: "decompose_query llm q \<noteq> []"
  by (simp add: decompose_query_def Let_def split: sum.splits)

lemma generate_variations_degrades:
  "expansion_llm llm q n = Inl e \<Longrightarrow> generate_variations llm q n = []"
  by (simp add: generate_variations_def)

text \<open>
  C9. The plan returned by \<open>expand\<close> is non-empty, starts with the original query and
  absorbs every failure of the language model (the lemmas above). Exact duplicates are
  not always suppressed: \<open>[v for v in variations if v not in all_queries]\<close> compares each
  variation with the plan as it was before the batch, so a variation that the model returns
  twice in one response enters the plan twice. Here the model answers the expansion prompt
  with the line \<open>Revenue trend\<close> twice.
\<close>

theorem expand_keeps_repeated_variation:
  "expand ex_llm ''Compare revenue growth across recent fiscal years'' 2
     = [''Compare revenue growth across recent fiscal years'', ''Revenue trend'', ''Revenue trend'']
   \<and> \<not> distinct (expand ex_llm ''Compare revenue growth across recent fiscal years'' 2)"
proof -
  have m: "\<not> multi_part ''Compare revenue growth across recent fiscal years''"
    by (simp add: multi_part_def py_count_def py_lower_def lower_char_def py_split_def py_isspace_def)
  have s: "should_expand ''Compare revenue growth across recent fiscal years''"
    by (simp add: should_expand_def py_split_def py_isspace_def py_lower_def lower_char_def py_strip_def Let_def)
  have g: "generate_variations ex_llm ''Compare revenue growth across recent fiscal years'' 2
             = [''Revenue trend'', ''Revenue trend'']"
    by (simp add: generate_variations_def ex_llm_def parse_lines_def py_strip_def py_isspace_def
        newline_def py_slice_to_def)
  have "expand ex_llm ''Compare revenue growth across recent fiscal years'' 2
     = [''Compare revenue growth across recent fiscal years'', ''Revenue trend'', ''Revenue trend'']"
    using m s g by (simp add: expand_def decompose_query_def extend_new_def Let_def)
  then show ?thesis by simp
qed

section \<open>Cosine similarity of the reranker\<close>

lemma np_isfinite_simps [simp]:
  "np_isfinite (Fin x)" "\<not> np_isfinite PInf" "\<not> np_isfinite NInf" "\<not> np_isfinite NaN"
  by (simp_all add: np_isfinite_def)

lemma np_div_zero_not_finite: "\<not> np_isfinite (np_div rnd x (Fin 0))"
  by (cases x) simp_all

lemma np_mul_not_finite_left: "\<not> np_isfinite a \<Longrightarrow> \<not> np_isfinite (np_mul rnd a b)"
  by (cases a; cases b) simp_all

lemma np_mul_not_finite_right: "\<not> np_isfinite b \<Longrightarrow> \<not> np_isfinite (np_mul rnd a b)"
  by (cases a; cases b) simp_all

lemma np_add_not_finite_left: "\<not> np_isfinite a \<Longrightarrow> \<not> np_isfinite (np_add rnd a b)"
  by (cases a; cases b) simp_all

lemma np_add_not_finite_right: "\<not> np_isfinite b \<Longrightarrow> \<not> np_isfinite (np_add rnd a b)"
  by (cases a; cases b) simp_all

lemma foldl_np_add_not_finite_acc:
  "\<not> np_isfinite acc \<Longrightarrow> \<not> np_isfinite (foldl (np_add rnd) acc ps)"
  by (induction ps arbitrary: acc) (simp_all add: np_add_not_finite_left)

lemma foldl_np_add_not_finite:
  "\<exists>p\<in>set ps. \<not> np_isfinite p \<Longrightarrow> \<not> np_isfinite (foldl (np_add rnd) acc ps)"
proof (induction ps arbitrary: acc)
  case Nil
  then show ?case by simp
next
  case (Cons p ps)
  show ?case
  proof (cases "np_isfinite p")
    case True
    then have "\<exists>p\<in>set ps. \<not> np_isfinite p" using Cons.prems by auto
    then show ?thesis using Cons.IH by simp
  next
    case False
    then have "\<not> np_isfinite (np_add rnd acc p)" by (rule np_add_not_finite_right)
    then show ?thesis by (simp add: foldl_np_add_not_finite_acc)
  qed
qed

lemma np_add_NaN_right [simp]: "np_add rnd a NaN = NaN"
  by (cases a) simp_all

lemma np_mul_NaN_right [simp]: "np_mul rnd a NaN = NaN"
  by (cases a) simp_all

lemma foldl_np_add_NaN_acc [simp]: "foldl (np_add rnd) NaN ps = NaN"
  by (induction ps) simp_all

lemma foldl_np_add_NaN: "NaN \<in> set ps \<Longrightarrow> foldl (np_add rnd) acc ps = NaN"
  by (induction ps arbitrary: acc) auto

lemma np_dot_row_not_finite_left:
  assumes "a \<noteq> []" "length b = length a" "\<forall>x\<in>set a. \<not> np_isfinite x"
  shows "\<not> np_isfinite (np_dot_row rnd a b)"
proof -
  obtain x a' where a: "a = x # a'" using assms(1) by (cases a) auto
  obtain y b' where b: "b = y # b'" using assms(2) a by (cases b) auto
  have "\<not> np_isfinite (np_mul rnd x y)"
    using assms(3) a by (intro np_mul_not_finite_left) simp
  then have "\<exists>p\<in>set (map2 (np_mul rnd) a b). \<not> np_isfinite p"
    using a b by auto
  then show ?thesis
    unfolding np_dot_row_def by (rule foldl_np_add_not_finite)
qed

lemma np_dot_row_not_finite_right:
  assumes "a \<noteq> []" "length b = length a" "\<forall>y\<in>set b. \<not> np_isfinite y"
  shows "\<not> np_isfinite (np_dot_row rnd a b)"
proof -
  obtain x a' where a: "a = x # a'" using assms(1) by (cases a) auto
  obtain y b' where b: "b = y # b'" using assms(2) a by (cases b) auto
  have "\<not> np_isfinite (np_mul rnd x y)"
    using assms(3) b by (intro np_mul_not_finite_right) simp
  then have "\<exists>p\<in>set (map2 (np_mul rnd) a b). \<not> np_isfinite p"
    using a b by auto
  then show ?thesis
    unfolding np_dot_row_def by (rule foldl_np_add_not_finite)
qed

lemma np_dot_row_NaN_left:
  assumes "a \<noteq> []" "length b = length a" "\<forall>x\<in>set a. x = NaN"
  shows "np_dot_row rnd a b = NaN"
proof -
  obtain x a' where a: "a = x # a'" using assms(1) by (cases a) auto
  obtain y b' where b: "b = y # b'" using assms(2) a by (cases b) auto
  have "NaN \<in> set (map2 (np_mul rnd) a b)"
    using assms(3) a b by simp
  then show ?thesis
    unfolding np_dot_row_def by (rule foldl_np_add_NaN)
qed

lemma np_dot_row_NaN_right:
  assumes "a \<noteq> []" "length b = length a" "\<forall>y\<in>set b. y = NaN"
  shows "np_dot_row rnd a b = NaN"
proof -
  obtain x a' where a: "a = x # a'" using assms(1) by (cases a) auto
  obtain y b' where b: "b = y # b'" using assms(2) a by (cases b) auto
  have "NaN \<in> set (map2 (np_mul rnd) a b)"
    using assms(3) a b by simp
  then show ?thesis
    unfolding np_dot_row_def by (rule foldl_np_add_NaN)
qed

lemma sum_squares_zero_vector:
  "list_all (\<lambda>x. x = Fin 0) v \<Longrightarrow>
   foldl (np_add rnd) (Fin 0) (map (\<lambda>x. np_mul rnd x x) v) = Fin 0"
  by (induction v) (simp_all add: rounded_def)

lemma l2_norm_zero_vector: "list_all (\<lambda>x. x = Fin 0) v \<Longrightarrow> l2_norm rnd v = Fin 0"
  by (simp add: l2_norm_def sum_squares_zero_vector rounded_def)

lemma normalize_row_length [simp]: "length (normalize_row rnd v) = length v"
  by (simp add: normalize_row_def)

lemma normalize_row_empty [simp]: "normalize_row rnd v = [] \<longleftrightarrow> v = []"
  by (simp add: normalize_row_def)

lemma normalize_row_zero_norm:
  "l2_norm rnd v = Fin 0 \<Longrightarrow> \<forall>x\<in>set (normalize_row rnd v). \<not> np_isfinite x"
  by (simp add: normalize_row_def np_div_zero_not_finite)

lemma normalize_row_zero_vector:
  "list_all (\<lambda>x. x = Fin 0) v \<Longrightarrow> \<forall>x\<in>set (normalize_row rnd v). x = NaN"
  by (auto simp: normalize_row_def l2_norm_zero_vector list_all_iff)

lemma spec_cosine_zero_norm:
  assumes "a \<noteq> []" "length r = length a" "l2_norm rnd a = Fin 0 \<or> l2_norm rnd r = Fin 0"
  shows "\<not> np_isfinite (spec_cosine rnd a r)"
  using assms(3)
proof
  assume "l2_norm rnd a = Fin 0"
  then have "\<forall>x\<in>set (normalize_row rnd a). \<not> np_isfinite x" by (rule normalize_row_zero_norm)
  then show ?thesis
    unfolding spec_cosine_def using assms(1,2) by (intro np_dot_row_not_finite_left) simp_all
next
  assume "l2_norm rnd r = Fin 0"
  then have "\<forall>x\<in>set (normalize_row rnd r). \<not> np_isfinite x" by (rule normalize_row_zero_norm)
  then show ?thesis
    unfolding spec_cosine_def using assms(1,2) by (intro np_dot_row_not_finite_right) simp_all
qed

lemma spec_cosine_zero_vector:
  assumes "a \<noteq> []" "length r = length a"
    "list_all (\<lambda>x. x = Fin 0) a \<or> list_all (\<lambda>x. x = Fin 0) r"
  shows "spec_cosine rnd a r = NaN"
  using assms(3)
proof
  assume "list_all (\<lambda>x. x = Fin 0) a"
  then have "\<forall>x\<in>set (normalize_row rnd a). x = NaN" by (rule normalize_row_zero_vector)
  then show ?thesis
    unfolding spec_cosine_def using assms(1,2) by (intro np_dot_row_NaN_left) simp_all
next
  assume "list_all (\<lambda>x. x = Fin 0) r"
  then have "\<forall>x\<in>set (normalize_row rnd r). x = NaN" by (rule normalize_row_zero_vector)
  then show ?thesis
    unfolding spec_cosine_def using assms(1,2) by (intro np_dot_row_NaN_right) simp_all
qed

lemma cosine_similarity_rows:
  "M \<noteq> [] \<Longrightarrow> list_all (\<lambda>r. length r = length a) M \<Longrightarrow>
   cosine_similarity rnd a M = Inr (map (spec_cosine rnd a) M)"
  by (simp add: cosine_similarity_def reshape_rows_def spec_cosine_def Let_def comp_def)

text \<open>
  C2. For a vector and a matrix of rows of its dimension, the dimension not 0, the
  cosine routine returns one similarity per row and raises nothing. It divides by the
  norms as computed, without looking at them: when the computed norm of the vector or of
  a row is zero, the similarity of the pair is not 0 and not any finite number, it is
  \<open>nan\<close> or an infinity; and it is \<open>nan\<close> when all components of one of the two are 0,
  the norm computed for such a vector being zero. This holds for every rounding.
\<close>

theorem cosine_similarity_unguarded:
  assumes "M \<noteq> []"
    and "list_all (\<lambda>r. length r = length a) M"
    and "a \<noteq> []"
  shows "\<exists>sims. cosine_similarity rnd a M = Inr sims \<and> length sims = length M
           \<and> (\<forall>i<length M. l2_norm rnd a = Fin 0 \<or> l2_norm rnd (M ! i) = Fin 0 \<longrightarrow>
                 \<not> np_isfinite (sims ! i) \<and> sims ! i \<noteq> Fin 0)
           \<and> (\<forall>i<length M. list_all (\<lambda>x. x = Fin 0) a \<or> list_all (\<lambda>x. x = Fin 0) (M ! i) \<longrightarrow>
                 sims ! i = NaN)
           \<and> (list_all (\<lambda>x. x = Fin 0) a \<longrightarrow> l2_norm rnd a = Fin 0)
           \<and> (\<forall>i<length M. list_all (\<lambda>x. x = Fin 0) (M ! i) \<longrightarrow> l2_norm rnd (M ! i) = Fin 0)"
proof -
  let ?sims = "map (spec_cosine rnd a) M"
  have rows: "cosine_similarity rnd a M = Inr ?sims"
    using assms(1,2) by (rule cosine_similarity_rows)
  have len: "length (M ! i) = length a" if "i < length M" for i
    using assms(2) that by (simp add: list_all_length)
  have zero_norm: "\<not> np_isfinite (?sims ! i) \<and> ?sims ! i \<noteq> Fin 0"
    if "i < length M" "l2_norm rnd a = Fin 0 \<or> l2_norm rnd (M ! i) = Fin 0" for i
  proof -
    have "\<not> np_isfinite (spec_cosine rnd a (M ! i))"
      using assms(3) len[OF that(1)] that(2) by (rule spec_cosine_zero_norm)
    then show ?thesis using that(1) by auto
  qed
  have zero_vector: "?sims ! i = NaN"
    if "i < length M" "list_all (\<lambda>x. x = Fin 0) a \<or> list_all (\<lambda>x. x = Fin 0) (M ! i)" for i
  proof -
    have "spec_cosine rnd a (M ! i) = NaN"
      using assms(3) len[OF that(1)] that(2) by (rule spec_cosine_zero_vector)
    then show ?thesis using that(1) by simp
  qed
  show ?thesis
    using rows zero_norm zero_vector by (intro exI[of _ ?sims]) (simp add: l2_norm_zero_vector)
qed

lemma ex_l2_norms:
  "l2_norm ex_exact [Fin 1, Fin 0] = Fin 1" "l2_norm ex_exact [Fin 0, Fin 1] = Fin 1"
  "l2_norm ex_exact [Fin 0, Fin 0] = Fin 0"
  by (simp_all add: l2_norm_def rounded_def ex_exact_def)

lemma ex_cosines:
  "spec_cosine ex_exact [Fin 1, Fin 0] [Fin 1, Fin 0] = Fin 1"
  "spec_cosine ex_exact [Fin 1, Fin 0] [Fin 0, Fin 1] = Fin 0"
  "spec_cosine ex_exact [Fin 0, Fin 1] [Fin 1, Fin 0] = Fin 0"
  "spec_cosine ex_exact [Fin 0, Fin 1] [Fin 0, Fin 1] = Fin 1"
  "spec_cosine ex_exact [Fin 1, Fin 0] [Fin 0, Fin 0] = NaN"
  "spec_cosine ex_exact [Fin 0, Fin 0] [Fin 1, Fin 0] = NaN"
  "spec_cosine ex_exact [Fin 0, Fin 0] [Fin 0, Fin 0] = NaN"
  by (simp_all add: spec_cosine_def normalize_row_def np_dot_row_def ex_l2_norms rounded_def
      ex_exact_def)

theorem cosine_similarity_unguarded_witness:
  "[[Fin 0, Fin 0], [Fin 1, Fin 0]] \<noteq> []
   \<and> list_all (\<lambda>r. length r = length [Fin 1, Fin 0]) [[Fin 0, Fin 0], [Fin 1, Fin 0]]
   \<and> [Fin 1, Fin 0] \<noteq> []
   \<and> l2_norm ex_exact [Fin 0, Fin 0] = Fin 0
   \<and> (\<exists>sims. cosine_similarity ex_exact [Fin 1, Fin 0] [[Fin 0, Fin 0], [Fin 1, Fin 0]] = Inr sims
         \<and> length sims = 2 \<and> sims ! 0 = NaN)
   \<and> cosine_similarity ex_exact [Fin 1, Fin 0] [[Fin 0, Fin 0], [Fin 1, Fin 0]] = Inr [NaN, Fin 1]"
proof -
  have h1: "[[Fin 0, Fin 0], [Fin 1, Fin 0]] \<noteq> []" by simp
  have h2: "list_all (\<lambda>r. length r = length [Fin 1, Fin 0]) [[Fin 0, Fin 0], [Fin 1, Fin 0]]"
    by simp
  have h3: "[Fin 1, Fin 0] \<noteq> []" by simp
  from cosine_similarity_unguarded[OF h1 h2 h3, of ex_exact]
  obtain sims where s: "cosine_similarity ex_exact [Fin 1, Fin 0] [[Fin 0, Fin 0], [Fin 1, Fin 0]] = Inr sims"
    "length sims = length [[Fin 0, Fin 0], [Fin 1, Fin 0 :: npfloat]]"
    "\<forall>i<length [[Fin 0, Fin 0], [Fin 1, Fin 0 :: npfloat]].
        list_all (\<lambda>x. x = Fin 0) [Fin 1, Fin 0]
        \<or> list_all (\<lambda>x. x = Fin 0) ([[Fin 0, Fin 0], [Fin 1, Fin 0]] ! i) \<longrightarrow> sims ! i = NaN"
    by blast
  have "sims ! 0 = NaN" using s(3) by simp
  moreover have "cosine_similarity ex_exact [Fin 1, Fin 0] [[Fin 0, Fin 0], [Fin 1, Fin 0]]
                   = Inr [NaN, Fin 1]"
    by (simp add: cosine_similarity_rows ex_cosines)
  ultimately show ?thesis
    using s(1,2) by (simp add: ex_l2_norms)
qed

text \<open>
  The zero vector against the unit vector \<open>(1, 0)\<close>, on either side: the computed norm
  of the zero vector is 0 and the similarity is \<open>nan\<close>, not 0.
\<close>

theorem cosine_similarity_zero_norm_is_nan:
  "l2_norm ex_exact [Fin 0, Fin 0] = Fin 0
   \<and> cosine_similarity ex_exact [Fin 1, Fin 0] [[Fin 0, Fin 0]] = Inr [NaN]
   \<and> cosine_similarity ex_exact [Fin 0, Fin 0] [[Fin 1, Fin 0]] = Inr [NaN]
   \<and> NaN \<noteq> Fin 0"
  by (simp add: cosine_similarity_rows ex_cosines ex_l2_norms)

section \<open>The greedy MMR selection\<close>

lemma map_err_all_ok:
  "(\<And>x. x \<in> set xs \<Longrightarrow> f x = Inr (g x)) \<Longrightarrow> map_err f xs = Inr (map g xs)"
  by (induction xs) auto

subsection \<open>The order of the values that are not nan\<close>

lemma np_gt_key: "a \<noteq> NaN \<Longrightarrow> b \<noteq> NaN \<Longrightarrow> np_gt a b \<longleftrightarrow> np_key b < np_key a"
  by (cases a; cases b) simp_all

lemma np_ge_key: "a \<noteq> NaN \<Longrightarrow> b \<noteq> NaN \<Longrightarrow> np_ge a b \<longleftrightarrow> np_key b \<le> np_key a"
  by (cases a; cases b) (auto simp: np_ge_def)

lemma np_key_inj: "a \<noteq> NaN \<Longrightarrow> b \<noteq> NaN \<Longrightarrow> np_key a = np_key b \<Longrightarrow> a = b"
  by (cases a; cases b) simp_all

lemma np_ge_NaN [simp]: "\<not> np_ge a NaN" "\<not> np_ge NaN b"
  by (simp_all add: np_ge_def)

subsection \<open>The largest of a list of values\<close>

lemma foldl_np_maximum_NaN:
  "a = NaN \<or> NaN \<in> set ys \<Longrightarrow> foldl np_maximum a ys = NaN"
proof (induction ys arbitrary: a)
  case Nil
  then show ?case by simp
next
  case (Cons y ys)
  have "np_maximum a y = NaN \<or> NaN \<in> set ys"
    using Cons.prems by (auto simp: np_maximum_def)
  then show ?case using Cons.IH by simp
qed

lemma foldl_np_maximum_key:
  "a \<noteq> NaN \<Longrightarrow> NaN \<notin> set ys \<Longrightarrow>
   foldl np_maximum a ys \<in> set (a # ys)
   \<and> (\<forall>y\<in>set (a # ys). np_key y \<le> np_key (foldl np_maximum a ys))"
proof (induction ys arbitrary: a)
  case Nil
  then show ?case by simp
next
  case (Cons y ys)
  let ?a' = "np_maximum a y"
  have y: "y \<noteq> NaN" using Cons.prems by auto
  have a': "?a' = (if np_key a < np_key y then y else a)"
    using Cons.prems(1) y by (simp add: np_maximum_def np_gt_key)
  then have n: "?a' \<noteq> NaN" using Cons.prems(1) y by simp
  have ys: "NaN \<notin> set ys" using Cons.prems by simp
  have k: "np_key a \<le> np_key ?a'" "np_key y \<le> np_key ?a'"
    unfolding a' by auto
  from Cons.IH[OF n ys] have ih: "foldl np_maximum ?a' ys \<in> set (?a' # ys)"
    "\<forall>z\<in>set (?a' # ys). np_key z \<le> np_key (foldl np_maximum ?a' ys)"
    by blast+
  have "np_key ?a' \<le> np_key (foldl np_maximum ?a' ys)" using ih(2) by simp
  then have "np_key a \<le> np_key (foldl np_maximum ?a' ys)"
    "np_key y \<le> np_key (foldl np_maximum ?a' ys)"
    using k by (auto intro: order_trans)
  moreover have "foldl np_maximum ?a' ys \<in> set (a # y # ys)"
    using ih(1) unfolding a' by auto
  ultimately show ?case using ih(2) by simp
qed

lemma np_max_is_spec_max:
  assumes "xs \<noteq> []"
  shows "np_max xs = Inr (spec_max xs)"
proof -
  obtain x rest where xs: "xs = x # rest" using assms by (cases xs) auto
  let ?P = "\<lambda>x. list_all (\<lambda>y. np_ge x y) xs"
  define r where "r = foldl np_maximum x rest"
  have m: "np_max xs = Inr r" by (simp add: np_max_def xs r_def)
  show ?thesis
  proof (cases "NaN \<in> set xs")
    case True
    then have "r = NaN" unfolding r_def using xs by (intro foldl_np_maximum_NaN) auto
    moreover have "\<not> ?P z" for z
      using True by (auto simp: list_all_iff intro!: bexI[of _ NaN])
    then have "find ?P xs = None" by (simp add: find_None_iff)
    then have "spec_max xs = NaN" by (simp add: spec_max_def)
    ultimately show ?thesis using m by simp
  next
    case False
    then have x: "x \<noteq> NaN" "NaN \<notin> set rest" using xs by auto
    from foldl_np_maximum_key[OF x] have rin: "r \<in> set xs"
      and rup: "\<forall>y\<in>set xs. np_key y \<le> np_key r"
      unfolding r_def xs by blast+
    have rn: "r \<noteq> NaN" using rin False by auto
    have "?P r"
      unfolding list_all_iff
    proof
      fix y assume y: "y \<in> set xs"
      then have "y \<noteq> NaN" using False by auto
      then show "np_ge r y" using rup rn y by (simp add: np_ge_key)
    qed
    then have "find ?P xs \<noteq> None" using rin by (auto simp: find_None_iff)
    then obtain m where f: "find ?P xs = Some m" by auto
    then have pm: "?P m" and min: "m \<in> set xs"
      by (auto simp: find_Some_iff)
    have mn: "m \<noteq> NaN" using min False by auto
    have "np_ge m r" using pm rin by (simp add: list_all_iff)
    then have "np_key r \<le> np_key m" using mn rn by (simp add: np_ge_key)
    moreover have "np_key m \<le> np_key r" using rup min by simp
    ultimately have "m = r" using mn rn by (intro np_key_inj) auto
    then show ?thesis using m f by (simp add: spec_max_def)
  qed
qed

subsection \<open>The candidate that Python's max returns\<close>

lemma running_max_upper:
  fixes s :: "'a \<Rightarrow> 'k::linorder"
  shows "s b \<le> s (foldl (\<lambda>best i. if s i > s best then i else best) b xs)
         \<and> (\<forall>j\<in>set xs. s j \<le> s (foldl (\<lambda>best i. if s i > s best then i else best) b xs))"
proof (induction xs arbitrary: b)
  case Nil
  then show ?case by simp
next
  case (Cons x xs)
  let ?b' = "if s x > s b then x else b"
  have "s b \<le> s ?b'" "s x \<le> s ?b'" by auto
  then show ?case using Cons.IH[of ?b'] by (auto intro: order_trans)
qed

lemma running_max_first:
  fixes s :: "'a \<Rightarrow> 'k::linorder"
  defines "g \<equiv> (\<lambda>best i. if s i > s best then i else best)"
  shows "foldl g b xs = b
         \<or> (\<exists>pre post. xs = pre @ foldl g b xs # post
                \<and> (\<forall>j\<in>set pre. s j < s (foldl g b xs)) \<and> s b < s (foldl g b xs))"
proof (induction xs arbitrary: b)
  case Nil
  then show ?case by simp
next
  case (Cons x xs)
  let ?r = "foldl g b (x # xs)"
  show ?case
  proof (cases "s x > s b")
    case True
    then have r: "?r = foldl g x xs" by (simp add: g_def)
    from Cons.IH[of x] show ?thesis
    proof
      assume "foldl g x xs = x"
      then have "x # xs = [] @ ?r # xs \<and> (\<forall>j\<in>set []. s j < s ?r) \<and> s b < s ?r"
        using r True by simp
      then show ?thesis by blast
    next
      assume "\<exists>pre post. xs = pre @ foldl g x xs # post
                \<and> (\<forall>j\<in>set pre. s j < s (foldl g x xs)) \<and> s x < s (foldl g x xs)"
      then obtain pre post where p: "xs = pre @ foldl g x xs # post"
        "\<forall>j\<in>set pre. s j < s (foldl g x xs)" "s x < s (foldl g x xs)" by blast
      have "x # xs = (x # pre) @ ?r # post \<and> (\<forall>j\<in>set (x # pre). s j < s ?r) \<and> s b < s ?r"
        using p r True by auto
      then show ?thesis by blast
    qed
  next
    case False
    then have r: "?r = foldl g b xs" by (simp add: g_def)
    from Cons.IH[of b] show ?thesis
    proof
      assume "foldl g b xs = b"
      then show ?thesis using r by simp
    next
      assume "\<exists>pre post. xs = pre @ foldl g b xs # post
                \<and> (\<forall>j\<in>set pre. s j < s (foldl g b xs)) \<and> s b < s (foldl g b xs)"
      then obtain pre post where p: "xs = pre @ foldl g b xs # post"
        "\<forall>j\<in>set pre. s j < s (foldl g b xs)" "s b < s (foldl g b xs)" by blast
      have "x # xs = (x # pre) @ ?r # post \<and> (\<forall>j\<in>set (x # pre). s j < s ?r) \<and> s b < s ?r"
        using p r False by auto
      then show ?thesis by blast
    qed
  qed
qed

lemma find_first_satisfying:
  "\<forall>j\<in>set pre. \<not> P j \<Longrightarrow> P r \<Longrightarrow> find P (pre @ r # post) = Some r"
  by (induction pre) auto

text \<open>Python's max over pairs whose scores are not nan is the running strict maximum of
  the indices.\<close>

lemma py_max_fold_pairs:
  fixes s :: "nat \<Rightarrow> npfloat"
  assumes "s b \<noteq> NaN" "\<forall>i\<in>set xs. s i \<noteq> NaN"
  shows "foldl (\<lambda>best y. if np_gt (snd y) (snd best) then y else best) (b, s b)
               (map (\<lambda>i. (i, s i)) xs)
           = (foldl (\<lambda>best i. if np_key (s i) > np_key (s best) then i else best) b xs,
              s (foldl (\<lambda>best i. if np_key (s i) > np_key (s best) then i else best) b xs))"
  using assms
proof (induction xs arbitrary: b)
  case Nil
  then show ?case by simp
next
  case (Cons x xs)
  have x: "s x \<noteq> NaN" using Cons.prems by simp
  have g: "np_gt (s x) (s b) \<longleftrightarrow> np_key (s b) < np_key (s x)"
    using x Cons.prems(1) by (rule np_gt_key)
  show ?case
  proof (cases "np_key (s b) < np_key (s x)")
    case True
    then show ?thesis using g Cons.IH[of x] x Cons.prems by simp
  next
    case False
    then show ?thesis using g Cons.IH[of b] Cons.prems by simp
  qed
qed

lemma spec_pick_running_max:
  fixes s :: "nat \<Rightarrow> npfloat"
  assumes nn: "\<forall>i\<in>set (b # xs). s i \<noteq> NaN"
  shows "spec_pick s (b # xs)
           = Some (foldl (\<lambda>best i. if np_key (s i) > np_key (s best) then i else best) b xs)"
proof -
  define k where "k = (\<lambda>i. np_key (s i))"
  define r where "r = foldl (\<lambda>best i. if k i > k best then i else best) b xs"
  let ?P = "\<lambda>i. list_all (\<lambda>j. np_ge (s i) (s j)) (b # xs)"
  have ge: "np_ge (s i) (s j) \<longleftrightarrow> k j \<le> k i" if "i \<in> set (b # xs)" "j \<in> set (b # xs)" for i j
  proof -
    have "s i \<noteq> NaN" "s j \<noteq> NaN" using that nn by blast+
    then show ?thesis by (simp add: k_def np_ge_key)
  qed
  have up: "k b \<le> k r" "\<forall>j\<in>set xs. k j \<le> k r"
    using running_max_upper[of k b xs] by (auto simp: r_def)
  have cases: "r = b \<or> (\<exists>pre post. xs = pre @ r # post \<and> (\<forall>j\<in>set pre. k j < k r) \<and> k b < k r)"
    using running_max_first[of k b xs] unfolding r_def .
  have rin: "r \<in> set (b # xs)"
  proof (cases "r = b")
    case True
    then show ?thesis by simp
  next
    case False
    then obtain pre post where p: "xs = pre @ r # post" using cases by blast
    have "r \<in> set xs" by (subst p) simp
    then show ?thesis by simp
  qed
  have Pr: "?P r"
    unfolding list_all_iff
  proof
    fix j assume j: "j \<in> set (b # xs)"
    then have "k j \<le> k r" using up by auto
    then show "np_ge (s r) (s j)" using ge[OF rin j] by simp
  qed
  have "find ?P (b # xs) = Some r"
  proof (cases "r = b")
    case True
    then show ?thesis using Pr by simp
  next
    case False
    then obtain pre post where p: "xs = pre @ r # post" "\<forall>j\<in>set pre. k j < k r" "k b < k r"
      using cases by blast
    have eq: "(b # pre) @ r # post = b # xs"
      by (subst p(1)) simp
    have notP: "\<forall>j\<in>set (b # pre). \<not> ?P j"
    proof
      fix j assume jp: "j \<in> set (b # pre)"
      then have lt: "k j < k r" using p(2,3) by auto
      have "set (b # pre) \<subseteq> set ((b # pre) @ r # post)" by auto
      then have jin: "j \<in> set (b # xs)" using jp unfolding eq by blast
      have "\<not> np_ge (s j) (s r)" using ge[OF jin rin] lt by simp
      then show "\<not> ?P j" using rin by (auto simp: list_all_iff)
    qed
    have f: "find ?P ((b # pre) @ r # post) = Some r"
      using notP Pr by (rule find_first_satisfying)
    show ?thesis using f unfolding eq .
  qed
  then show ?thesis by (simp add: spec_pick_def r_def k_def)
qed

lemma py_max_by_is_spec_pick:
  fixes s :: "nat \<Rightarrow> npfloat"
  assumes "cands \<noteq> []" "\<forall>i\<in>set cands. s i \<noteq> NaN"
  shows "\<exists>b. spec_pick s cands = Some b \<and> b \<in> set cands
             \<and> py_max_by snd (map (\<lambda>i. (i, s i)) cands) = Inr (b, s b)"
proof -
  obtain x xs where r: "cands = x # xs" using assms(1) by (cases cands) auto
  define b where "b = foldl (\<lambda>best i. if np_key (s i) > np_key (s best) then i else best) x xs"
  have 1: "spec_pick s cands = Some b"
    unfolding r b_def using assms(2)[unfolded r] by (rule spec_pick_running_max)
  then have "find (\<lambda>i. list_all (\<lambda>j. np_ge (s i) (s j)) cands) cands = Some b"
    by (simp add: spec_pick_def)
  then have 2: "b \<in> set cands"
    by (auto simp: find_Some_iff)
  have nn: "s x \<noteq> NaN" "\<forall>i\<in>set xs. s i \<noteq> NaN" using assms(2) r by simp_all
  have 3: "py_max_by snd (map (\<lambda>i. (i, s i)) cands) = Inr (b, s b)"
    unfolding r b_def using py_max_fold_pairs[OF nn] by (simp add: py_max_by_def)
  show ?thesis using 1 2 3 by blast
qed

subsection \<open>The loop\<close>

lemma remaining_after_pick:
  "remove1 b (filter (\<lambda>i. i \<notin> set selected) [0..<n])
           = filter (\<lambda>i. i \<notin> set (selected @ [b])) [0..<n]"
proof -
  have d: "distinct (filter (\<lambda>i. i \<notin> set selected) [0..<n])" by simp
  have "remove1 b (filter (\<lambda>i. i \<notin> set selected) [0..<n])
          = removeAll b (filter (\<lambda>i. i \<notin> set selected) [0..<n])"
    using d by (rule distinct_remove1_removeAll)
  also have "\<dots> = filter (\<lambda>i. b \<noteq> i) (filter (\<lambda>i. i \<notin> set selected) [0..<n])"
    by (simp only: removeAll_filter_not_eq)
  also have "\<dots> = filter (\<lambda>i. i \<notin> set (selected @ [b])) [0..<n]"
    by (auto intro: filter_cong)
  finally show ?thesis .
qed

lemma spec_pick_member: "spec_pick s cands = Some b \<Longrightarrow> b \<in> set cands"
  by (auto simp: spec_pick_def find_Some_iff)

lemma spec_pick_empty: "spec_pick s [] = None"
  by (simp add: spec_pick_def)

lemma spec_greedy_in_range:
  "set selected \<subseteq> {..<n} \<Longrightarrow> set (spec_greedy k n score selected) \<subseteq> {..<n}"
proof (induction k arbitrary: selected)
  case 0
  then show ?case by simp
next
  case (Suc k)
  show ?case
  proof (cases "spec_pick (score selected) (filter (\<lambda>i. i \<notin> set selected) [0..<n])")
    case None
    then show ?thesis using Suc.prems by simp
  next
    case (Some b)
    then have "b \<in> set (filter (\<lambda>i. i \<notin> set selected) [0..<n])" by (rule spec_pick_member)
    then have "set (selected @ [b]) \<subseteq> {..<n}" using Suc.prems by auto
    then show ?thesis using Suc.IH Some by simp
  qed
qed

text \<open>The pair that the inner loop appends for \<open>idx\<close> holds the score of the
  specification, computed with the cosine of the code; no assumption on the values.\<close>

lemma mmr_score_is_spec_score:
  assumes len: "length dvs = n"
    and dims: "list_all (\<lambda>v. length v = length qv) dvs"
    and idx: "idx < n" and sel: "set selected \<subseteq> {..<n}"
  shows "mmr_score rnd lam (map (\<lambda>i. spec_cosine rnd qv (dvs ! i)) [0..<n]) dvs selected idx
           = Inr (idx, spec_scores rnd (spec_cosine rnd) qv dvs lam selected idx)"
proof -
  have rel: "py_index (map (\<lambda>i. spec_cosine rnd qv (dvs ! i)) [0..<n]) idx
               = Inr (spec_cosine rnd qv (dvs ! idx))"
    using idx by (simp add: py_index_def)
  show ?thesis
  proof (cases "selected = []")
    case True
    then show ?thesis
      using rel by (simp add: mmr_score_def spec_scores_def spec_mmr_def spec_redundancy_def)
  next
    case False
    have rows: "map_err (py_index dvs) selected = Inr (map (\<lambda>j. dvs ! j) selected)"
      using sel len by (intro map_err_all_ok) (auto simp: py_index_def)
    have v: "py_index dvs idx = Inr (dvs ! idx)"
      using idx len by (simp add: py_index_def)
    have dim: "length (dvs ! j) = length qv" if "j < n" for j
      using that dims len by (simp add: list_all_length)
    have shape: "list_all (\<lambda>r. length r = length (dvs ! idx)) (map (\<lambda>j. dvs ! j) selected)"
      using sel dim idx by (auto simp: list_all_iff)
    have cs: "cosine_similarity rnd (dvs ! idx) (map (\<lambda>j. dvs ! j) selected)
                = Inr (map (\<lambda>j. spec_cosine rnd (dvs ! idx) (dvs ! j)) selected)"
    proof -
      have "cosine_similarity rnd (dvs ! idx) (map (\<lambda>j. dvs ! j) selected)
              = Inr (map (spec_cosine rnd (dvs ! idx)) (map (\<lambda>j. dvs ! j) selected))"
        using False shape by (intro cosine_similarity_rows) simp_all
      then show ?thesis by (simp add: comp_def)
    qed
    have mx: "np_max (map (\<lambda>j. spec_cosine rnd (dvs ! idx) (dvs ! j)) selected)
                = Inr (spec_max (map (\<lambda>j. spec_cosine rnd (dvs ! idx) (dvs ! j)) selected))"
      using False by (intro np_max_is_spec_max) simp
    show ?thesis
      using False rel rows v cs mx
      by (simp add: mmr_score_def spec_scores_def spec_mmr_def spec_redundancy_def)
  qed
qed

lemma mmr_loop_is_spec_greedy:
  assumes len: "length dvs = n"
    and dims: "list_all (\<lambda>v. length v = length qv) dvs"
  shows "set selected \<subseteq> {..<n} \<Longrightarrow>
         scores_comparable k n (spec_scores rnd (spec_cosine rnd) qv dvs lam) selected \<Longrightarrow>
         mmr_loop rnd k lam (map (\<lambda>i. spec_cosine rnd qv (dvs ! i)) [0..<n]) dvs selected
                  (filter (\<lambda>i. i \<notin> set selected) [0..<n])
           = Inr (spec_greedy k n (spec_scores rnd (spec_cosine rnd) qv dvs lam) selected)"
proof (induction k arbitrary: selected)
  case 0
  then show ?case by simp
next
  case (Suc k)
  let ?qs = "map (\<lambda>i. spec_cosine rnd qv (dvs ! i)) [0..<n]"
  let ?score = "spec_scores rnd (spec_cosine rnd) qv dvs lam"
  define cands where "cands = filter (\<lambda>i. i \<notin> set selected) [0..<n]"
  show ?case
  proof (cases "cands = []")
    case True
    then show ?thesis
      unfolding cands_def[symmetric] by (simp add: cands_def[symmetric] spec_pick_empty)
  next
    case False
    have scores: "map_err (mmr_score rnd lam ?qs dvs selected) cands
                    = Inr (map (\<lambda>i. (i, ?score selected i)) cands)"
    proof (rule map_err_all_ok)
      fix x assume "x \<in> set cands"
      then have "x < n" by (simp add: cands_def)
      with len dims show "mmr_score rnd lam ?qs dvs selected x = Inr (x, ?score selected x)"
        using Suc.prems(1) by (rule mmr_score_is_spec_score)
    qed
    have nn: "\<forall>i\<in>set cands. ?score selected i \<noteq> NaN"
      using Suc.prems(2) by (simp add: cands_def list_all_iff)
    obtain b where b: "spec_pick (?score selected) cands = Some b" "b \<in> set cands"
      "py_max_by snd (map (\<lambda>i. (i, ?score selected i)) cands) = Inr (b, ?score selected b)"
      using py_max_by_is_spec_pick[OF False nn] by blast
    have bn: "set (selected @ [b]) \<subseteq> {..<n}"
      using b(2) Suc.prems(1) by (auto simp: cands_def)
    have cmp: "scores_comparable k n ?score (selected @ [b])"
      using Suc.prems(2) b(1) by (simp add: cands_def)
    have next_cands: "remove1 b cands = filter (\<lambda>i. i \<notin> set (selected @ [b])) [0..<n]"
      unfolding cands_def by (rule remaining_after_pick)
    have "mmr_loop rnd (Suc k) lam ?qs dvs selected cands
            = mmr_loop rnd k lam ?qs dvs (selected @ [b]) (remove1 b cands)"
      using False scores b(3) by simp
    also have "\<dots> = Inr (spec_greedy k n ?score (selected @ [b]))"
      unfolding next_cands using bn cmp by (rule Suc.IH)
    also have "spec_greedy k n ?score (selected @ [b]) = spec_greedy (Suc k) n ?score selected"
      using b(1) by (simp add: cands_def)
    finally show ?thesis by (simp add: cands_def)
  qed
qed

text \<open>
  C1. For every query, every list of documents with \<open>len(documents) > top_k\<close>, every
  diversity parameter and every rounding, when both embedding calls succeed and return
  one vector per document, all of the dimension of the query vector, and none of the
  scores computed in the rounds of the selection is \<open>nan\<close>, \<open>rerank\<close> returns the
  documents chosen by the greedy loop of the specification, in selection order: starting
  from the empty selection, \<open>top_k\<close> times, each unselected index \<open>i\<close> is scored
  \<open>lam * cos(query, doc i) - (1 - lam) * (max over selected j of cos(doc i, doc j))\<close>, the
  maximum taken as 0 when nothing is selected, and the first unselected index of maximal
  score is appended. The cosines and the scores are the floating-point values that the
  code computes, so a tie is a tie of computed values. The result is a function of the
  embeddings, \<open>lam\<close>, the rounding and the document list alone.
\<close>

theorem rerank_is_greedy_mmr:
  assumes "top_k < int (length documents)"
    and "embed_query emb q = Inr query_vec"
    and "embed_documents emb (map page_content documents) = Inr doc_vecs"
    and "length doc_vecs = length documents"
    and "list_all (\<lambda>v. length v = length query_vec) doc_vecs"
    and "scores_comparable (nat top_k) (length documents)
           (spec_scores rnd (spec_cosine rnd) query_vec doc_vecs lam) []"
  shows "rerank rnd emb q documents top_k lam
           = spec_rerank rnd (spec_cosine rnd) query_vec doc_vecs documents top_k lam"
proof (cases "documents = []")
  case True
  then have "nat top_k = 0" using assms(1) by simp
  then show ?thesis using True by (simp add: rerank_def spec_rerank_def)
next
  case False
  let ?n = "length documents"
  let ?score = "spec_scores rnd (spec_cosine rnd) query_vec doc_vecs lam"
  let ?sel = "spec_greedy (nat top_k) ?n ?score []"
  have ne: "doc_vecs \<noteq> []" using False assms(4) by auto
  have arr: "np_array_2d doc_vecs = Inr doc_vecs"
  proof -
    obtain r rs where d: "doc_vecs = r # rs" using ne by (cases doc_vecs) auto
    have "list_all (\<lambda>x. length x = length r) rs"
      using assms(5) d by (auto simp: list_all_iff)
    then show ?thesis using d by (simp add: np_array_2d_def)
  qed
  have "cosine_similarity rnd query_vec doc_vecs = Inr (map (spec_cosine rnd query_vec) doc_vecs)"
    using ne assms(5) by (rule cosine_similarity_rows)
  moreover have "map (spec_cosine rnd query_vec) doc_vecs
                   = map (\<lambda>i. spec_cosine rnd query_vec (doc_vecs ! i)) [0..<?n]"
    using assms(4) by (intro nth_equalityI) simp_all
  ultimately have qs: "cosine_similarity rnd query_vec doc_vecs
              = Inr (map (\<lambda>i. spec_cosine rnd query_vec (doc_vecs ! i)) [0..<?n])"
    by simp
  have rounds: "nat (min top_k (int ?n)) = nat top_k"
    using assms(1) by simp
  have loop: "mmr_loop rnd (nat top_k) lam
                (map (\<lambda>i. spec_cosine rnd query_vec (doc_vecs ! i)) [0..<?n])
                doc_vecs [] [0..<?n] = Inr ?sel"
    using mmr_loop_is_spec_greedy[OF assms(4,5), of "[]" "nat top_k" rnd lam] assms(6) by simp
  have range: "set ?sel \<subseteq> {..<?n}"
    by (rule spec_greedy_in_range) simp
  have docs: "map_err (py_index documents) ?sel = Inr (map (\<lambda>i. documents ! i) ?sel)"
    using range by (intro map_err_all_ok) (auto simp: py_index_def)
  have "mmr_select rnd emb q documents top_k lam = Inr (map (\<lambda>i. documents ! i) ?sel)"
    using assms(2,3) arr qs loop docs by (simp add: mmr_select_def rounds)
  then show ?thesis
    using False assms(1) by (simp add: rerank_def spec_rerank_def)
qed

lemma ex_guarded_cosines:
  "guarded_cosine ex_exact [Fin 1, Fin 0] [Fin 1, Fin 0] = Fin 1"
  "guarded_cosine ex_exact [Fin 1, Fin 0] [Fin 0, Fin 0] = Fin 0"
  "guarded_cosine ex_exact [Fin 0, Fin 0] [Fin 1, Fin 0] = Fin 0"
  "guarded_cosine ex_exact [Fin 0, Fin 0] [Fin 0, Fin 0] = Fin 0"
  by (simp_all add: guarded_cosine_def ex_l2_norms ex_cosines)

lemma ex_scores:
  "spec_scores ex_exact (spec_cosine ex_exact) [Fin 1, Fin 0]
     [[Fin 1, Fin 0], [Fin 1, Fin 0], [Fin 0, Fin 1]] (Fin (1 / 4)) [] 0 = Fin (1 / 4)"
  "spec_scores ex_exact (spec_cosine ex_exact) [Fin 1, Fin 0]
     [[Fin 1, Fin 0], [Fin 1, Fin 0], [Fin 0, Fin 1]] (Fin (1 / 4)) [] 1 = Fin (1 / 4)"
  "spec_scores ex_exact (spec_cosine ex_exact) [Fin 1, Fin 0]
     [[Fin 1, Fin 0], [Fin 1, Fin 0], [Fin 0, Fin 1]] (Fin (1 / 4)) [] 2 = Fin 0"
  "spec_scores ex_exact (spec_cosine ex_exact) [Fin 1, Fin 0]
     [[Fin 1, Fin 0], [Fin 1, Fin 0], [Fin 0, Fin 1]] (Fin (1 / 4)) [0] 1 = Fin (- (1 / 2))"
  "spec_scores ex_exact (spec_cosine ex_exact) [Fin 1, Fin 0]
     [[Fin 1, Fin 0], [Fin 1, Fin 0], [Fin 0, Fin 1]] (Fin (1 / 4)) [0] 2 = Fin 0"
  by (simp_all add: spec_scores_def spec_mmr_def spec_redundancy_def spec_max_def np_ge_def
      np_sub_def rounded_def ex_exact_def ex_cosines numeral_2_eq_2)

lemma ex_comparable:
  "scores_comparable 2 3
     (spec_scores ex_exact (spec_cosine ex_exact) [Fin 1, Fin 0]
        [[Fin 1, Fin 0], [Fin 1, Fin 0], [Fin 0, Fin 1]] (Fin (1 / 4))) []"
  by (simp add: numeral_2_eq_2 numeral_3_eq_3 upt_conv_Cons spec_pick_def np_ge_def ex_scores
      ex_scores[unfolded numeral_2_eq_2 One_nat_def])

lemma ex_spec_rerank:
  "spec_rerank ex_exact (spec_cosine ex_exact) [Fin 1, Fin 0]
     [[Fin 1, Fin 0], [Fin 1, Fin 0], [Fin 0, Fin 1]] ex_three_docs 2 (Fin (1 / 4))
     = [ex_doc ''a.md'' ''0'' ''alpha'' None, ex_doc ''c.md'' ''2'' ''gamma'' None]"
  by (simp add: spec_rerank_def numeral_2_eq_2 numeral_3_eq_3 upt_conv_Cons spec_pick_def np_ge_def
      ex_scores ex_scores[unfolded numeral_2_eq_2 One_nat_def] ex_three_docs_def)


lemma ex_zero_scores:
  "spec_scores ex_exact (spec_cosine ex_exact) [Fin 1, Fin 0]
     [[Fin 0, Fin 0], [Fin 1, Fin 0]] (Fin (1 / 2)) [] 0 = NaN"
  "spec_scores ex_exact (spec_cosine ex_exact) [Fin 1, Fin 0]
     [[Fin 0, Fin 0], [Fin 1, Fin 0]] (Fin (1 / 2)) [] 1 = Fin (1 / 2)"
  "spec_scores ex_exact (guarded_cosine ex_exact) [Fin 1, Fin 0]
     [[Fin 0, Fin 0], [Fin 1, Fin 0]] (Fin (1 / 2)) [] 0 = Fin 0"
  "spec_scores ex_exact (guarded_cosine ex_exact) [Fin 1, Fin 0]
     [[Fin 0, Fin 0], [Fin 1, Fin 0]] (Fin (1 / 2)) [] 1 = Fin (1 / 2)"
  by (simp_all add: spec_scores_def spec_mmr_def spec_redundancy_def np_sub_def rounded_def
      ex_exact_def ex_cosines ex_guarded_cosines)

lemma ex_zero_rerank_code:
  "rerank ex_exact ex_zero_embedder ''revenue'' ex_two_docs 1 (Fin (1 / 2))
     = [ex_doc ''a.md'' ''0'' ''alpha'' None]"
  by (simp add: rerank_def mmr_select_def ex_zero_embedder_def ex_two_docs_def np_array_2d_def
      cosine_similarity_rows ex_cosines mmr_score_def py_index_def py_max_by_def np_sub_def
      rounded_def ex_exact_def upt_conv_Cons Let_def)

lemma ex_zero_rerank_spec:
  "spec_rerank ex_exact (spec_cosine ex_exact) [Fin 1, Fin 0] [[Fin 0, Fin 0], [Fin 1, Fin 0]]
     ex_two_docs 1 (Fin (1 / 2)) = []"
  "spec_rerank ex_exact (guarded_cosine ex_exact) [Fin 1, Fin 0] [[Fin 0, Fin 0], [Fin 1, Fin 0]]
     ex_two_docs 1 (Fin (1 / 2)) = [ex_doc ''b.md'' ''1'' ''beta'' None]"
  by (simp_all add: spec_rerank_def upt_conv_Cons spec_pick_def np_ge_def ex_zero_scores
      ex_zero_scores[unfolded One_nat_def] ex_two_docs_def)

theorem rerank_is_greedy_mmr_witness:
  "2 < int (length ex_three_docs)
   \<and> embed_query ex_embedder ''revenue'' = Inr [Fin 1, Fin 0]
   \<and> embed_documents ex_embedder (map page_content ex_three_docs)
       = Inr [[Fin 1, Fin 0], [Fin 1, Fin 0], [Fin 0, Fin 1]]
   \<and> length [[Fin 1, Fin 0], [Fin 1, Fin 0], [Fin 0, Fin 1]] = length ex_three_docs
   \<and> list_all (\<lambda>v. length v = length [Fin 1, Fin 0])
        [[Fin 1, Fin 0], [Fin 1, Fin 0], [Fin 0, Fin 1]]
   \<and> scores_comparable (nat 2) (length ex_three_docs)
        (spec_scores ex_exact (spec_cosine ex_exact) [Fin 1, Fin 0]
           [[Fin 1, Fin 0], [Fin 1, Fin 0], [Fin 0, Fin 1]] (Fin (1 / 4))) []
   \<and> rerank ex_exact ex_embedder ''revenue'' ex_three_docs 2 (Fin (1 / 4))
       = [ex_doc ''a.md'' ''0'' ''alpha'' None, ex_doc ''c.md'' ''2'' ''gamma'' None]"
proof -
  have h1: "2 < int (length ex_three_docs)" by (simp add: ex_three_docs_def)
  have h2: "embed_query ex_embedder ''revenue'' = Inr [Fin 1, Fin 0]"
    by (simp add: ex_embedder_def)
  have h3: "embed_documents ex_embedder (map page_content ex_three_docs)
              = Inr [[Fin 1, Fin 0], [Fin 1, Fin 0], [Fin 0, Fin 1]]"
    by (simp add: ex_embedder_def)
  have h4: "length [[Fin 1, Fin 0], [Fin 1, Fin 0], [Fin 0, Fin 1]] = length ex_three_docs"
    by (simp add: ex_three_docs_def)
  have h5: "list_all (\<lambda>v. length v = length [Fin 1, Fin 0])
              [[Fin 1, Fin 0], [Fin 1, Fin 0], [Fin 0, Fin 1]]"
    by simp
  have n: "nat 2 = 2" "length ex_three_docs = 3" by (simp_all add: ex_three_docs_def)
  have h6: "scores_comparable (nat 2) (length ex_three_docs)
              (spec_scores ex_exact (spec_cosine ex_exact) [Fin 1, Fin 0]
                 [[Fin 1, Fin 0], [Fin 1, Fin 0], [Fin 0, Fin 1]] (Fin (1 / 4))) []"
    unfolding n by (rule ex_comparable)
  have "rerank ex_exact ex_embedder ''revenue'' ex_three_docs 2 (Fin (1 / 4))
          = spec_rerank ex_exact (spec_cosine ex_exact) [Fin 1, Fin 0]
              [[Fin 1, Fin 0], [Fin 1, Fin 0], [Fin 0, Fin 1]] ex_three_docs 2 (Fin (1 / 4))"
    using h1 h2 h3 h4 h5 h6 by (rule rerank_is_greedy_mmr)
  then have "rerank ex_exact ex_embedder ''revenue'' ex_three_docs 2 (Fin (1 / 4))
          = [ex_doc ''a.md'' ''0'' ''alpha'' None, ex_doc ''c.md'' ''2'' ''gamma'' None]"
    by (simp only: ex_spec_rerank)
  then show ?thesis
    using h1 h2 h3 h4 h5 h6 by blast
qed

text \<open>
  An embedding of norm zero: both embedding calls succeed, the first document is embedded
  as the zero vector and the second as the query vector itself. The score of the first
  document is \<open>nan\<close>, that of the second is 1/2. Python's \<open>max\<close> keeps the first item
  because no comparison with \<open>nan\<close> is true, so \<open>rerank\<close> returns the first document. No
  index has the maximum score, so the greedy loop over the same scores selects nothing;
  with the cosine of a zero vector taken as 0, as the specification has it, the loop
  selects the second document.
\<close>

theorem rerank_picks_nan_score:
  "1 < int (length ex_two_docs)
   \<and> embed_query ex_zero_embedder ''revenue'' = Inr [Fin 1, Fin 0]
   \<and> embed_documents ex_zero_embedder (map page_content ex_two_docs)
       = Inr [[Fin 0, Fin 0], [Fin 1, Fin 0]]
   \<and> mmr_score ex_exact (Fin (1 / 2)) [NaN, Fin 1] [[Fin 0, Fin 0], [Fin 1, Fin 0]] [] 0
       = Inr (0, NaN)
   \<and> mmr_score ex_exact (Fin (1 / 2)) [NaN, Fin 1] [[Fin 0, Fin 0], [Fin 1, Fin 0]] [] 1
       = Inr (1, Fin (1 / 2))
   \<and> \<not> scores_comparable 1 2
           (spec_scores ex_exact (spec_cosine ex_exact) [Fin 1, Fin 0]
              [[Fin 0, Fin 0], [Fin 1, Fin 0]] (Fin (1 / 2))) []
   \<and> rerank ex_exact ex_zero_embedder ''revenue'' ex_two_docs 1 (Fin (1 / 2))
       = [ex_doc ''a.md'' ''0'' ''alpha'' None]
   \<and> spec_rerank ex_exact (spec_cosine ex_exact) [Fin 1, Fin 0] [[Fin 0, Fin 0], [Fin 1, Fin 0]]
        ex_two_docs 1 (Fin (1 / 2)) = []
   \<and> spec_rerank ex_exact (guarded_cosine ex_exact) [Fin 1, Fin 0] [[Fin 0, Fin 0], [Fin 1, Fin 0]]
        ex_two_docs 1 (Fin (1 / 2)) = [ex_doc ''b.md'' ''1'' ''beta'' None]
   \<and> rerank ex_exact ex_zero_embedder ''revenue'' ex_two_docs 1 (Fin (1 / 2))
       \<noteq> spec_rerank ex_exact (spec_cosine ex_exact) [Fin 1, Fin 0]
            [[Fin 0, Fin 0], [Fin 1, Fin 0]] ex_two_docs 1 (Fin (1 / 2))
   \<and> rerank ex_exact ex_zero_embedder ''revenue'' ex_two_docs 1 (Fin (1 / 2))
       \<noteq> spec_rerank ex_exact (guarded_cosine ex_exact) [Fin 1, Fin 0]
            [[Fin 0, Fin 0], [Fin 1, Fin 0]] ex_two_docs 1 (Fin (1 / 2))"
proof -
  have a: "1 < int (length ex_two_docs)" by (simp add: ex_two_docs_def)
  have b: "embed_query ex_zero_embedder ''revenue'' = Inr [Fin 1, Fin 0]"
    "embed_documents ex_zero_embedder (map page_content ex_two_docs)
       = Inr [[Fin 0, Fin 0], [Fin 1, Fin 0]]"
    by (simp_all add: ex_zero_embedder_def)
  have c: "mmr_score ex_exact (Fin (1 / 2)) [NaN, Fin 1] [[Fin 0, Fin 0], [Fin 1, Fin 0]] [] 0
             = Inr (0, NaN)"
    "mmr_score ex_exact (Fin (1 / 2)) [NaN, Fin 1] [[Fin 0, Fin 0], [Fin 1, Fin 0]] [] 1
       = Inr (1, Fin (1 / 2))"
    by (simp_all add: mmr_score_def py_index_def np_sub_def rounded_def ex_exact_def)
  have d: "ex_doc ''a.md'' ''0'' ''alpha'' None \<noteq> ex_doc ''b.md'' ''1'' ''beta'' None"
    by (simp add: ex_doc_def)
  have e: "\<not> scores_comparable 1 2
             (spec_scores ex_exact (spec_cosine ex_exact) [Fin 1, Fin 0]
                [[Fin 0, Fin 0], [Fin 1, Fin 0]] (Fin (1 / 2))) []"
    by (simp add: upt_conv_Cons ex_zero_scores)
  show ?thesis
    using a b c d e by (simp add: ex_zero_rerank_code ex_zero_rerank_spec)
qed

end
